(* ===== verification/Prelude.thy ===== *)
theory Prelude
  imports Complex_Main "HOL-Library.List_Lexorder" "HOL-Library.Char_ord"
begin

text \<open>
  Shared vocabulary of the development: the one exception the pages can raise, the
  outcome of a handler that may throw part-way, the exception-propagating list
  combinators of JavaScript (\<open>Array.prototype.filter\<close>, \<open>map\<close>, \<open>forEach\<close>), the
  iteration order of \<open>new Set(xs)\<close>, and plain objects used as insertion-ordered
  dictionaries. Generic lemmas about them are collected in \<open>js_simps\<close>.
\<close>

named_theorems js_simps "evaluation rules of the JavaScript runtime model"

section \<open>Exceptions and handler outcomes\<close>

text \<open>
  The handlers read properties of joined rows (\<open>p.brands.name\<close>); on a \<open>null\<close>
  join this raises a \<open>TypeError\<close>, the only exception the modelled code can raise.
\<close>

datatype js_error = TypeError

text \<open>
  A handler that throws keeps the effects it performed before the throw (React still
  applies the state updates already queued), so a thrown outcome carries a state.
\<close>

datatype 'a outcome = Normal 'a | Thrown js_error 'a

fun outcome_state :: "'a outcome \<Rightarrow> 'a" where
  "outcome_state (Normal s) = s"
| "outcome_state (Thrown e s) = s"

section \<open>Exception-propagating list combinators\<close>

text \<open>\<open>xs.filter(f)\<close>: the callback runs left to right; the first throw propagates.\<close>

fun js_filter :: "('a \<Rightarrow> js_error + bool) \<Rightarrow> 'a list \<Rightarrow> js_error + 'a list" where
  "js_filter f [] = Inr []"
| "js_filter f (x # xs) =
     (case f x of
        Inl e \<Rightarrow> Inl e
      | Inr b \<Rightarrow> (case js_filter f xs of
                    Inl e \<Rightarrow> Inl e
                  | Inr ys \<Rightarrow> Inr (if b then x # ys else ys)))"

text \<open>\<open>xs.map(f)\<close>.\<close>

fun js_map :: "('a \<Rightarrow> js_error + 'b) \<Rightarrow> 'a list \<Rightarrow> js_error + 'b list" where
  "js_map f [] = Inr []"
| "js_map f (x # xs) =
     (case f x of
        Inl e \<Rightarrow> Inl e
      | Inr y \<Rightarrow> (case js_map f xs of
                    Inl e \<Rightarrow> Inl e
                  | Inr ys \<Rightarrow> Inr (y # ys)))"

text \<open>\<open>xs.forEach(x => acc = f(acc, x))\<close>: a left fold that stops at the first throw.\<close>

fun js_fold :: "('s \<Rightarrow> 'a \<Rightarrow> js_error + 's) \<Rightarrow> 'a list \<Rightarrow> 's \<Rightarrow> js_error + 's" where
  "js_fold f [] acc = Inr acc"
| "js_fold f (x # xs) acc =
     (case f acc x of
        Inl e \<Rightarrow> Inl e
      | Inr acc' \<Rightarrow> js_fold f xs acc')"

section \<open>Insertion order of a \<open>Set\<close>\<close>

text \<open>\<open>[...new Set(xs)]\<close>: each value once, in the order of its first occurrence.\<close>

fun set_add_all :: "'a list \<Rightarrow> 'a list \<Rightarrow> 'a list" where
  "set_add_all acc [] = acc"
| "set_add_all acc (x # xs) = set_add_all (if x \<in> set acc then acc else acc @ [x]) xs"

definition js_set_values :: "'a list \<Rightarrow> 'a list" where
  "js_set_values xs = set_add_all [] xs"

text \<open>\<open>[...new Set(xs)].sort()\<close> on strings: the default comparison is lexicographic
  on the characters, which \<open>List_Lexorder\<close> provides for \<open>string\<close>.\<close>

definition unique_sorted :: "string list \<Rightarrow> string list" where
  "unique_sorted xs = sort (js_set_values xs)"

section \<open>Plain objects as insertion-ordered dictionaries\<close>

text \<open>
  A plain object whose keys are never array indices keeps its keys in insertion order:
  assigning to a present key keeps its position, a new key goes last. It is modelled as
  an association list with distinct keys; \<open>Object.values\<close> is \<open>map snd\<close>.
\<close>

definition obj_has :: "('k \<times> 'v) list \<Rightarrow> 'k \<Rightarrow> bool" where
  "obj_has m k = (k \<in> set (map fst m))"

fun obj_set :: "('k \<times> 'v) list \<Rightarrow> 'k \<Rightarrow> 'v \<Rightarrow> ('k \<times> 'v) list" where
  "obj_set [] k v = [(k, v)]"
| "obj_set ((k', v') # m) k v = (if k' = k then (k, v) # m else (k', v') # obj_set m k v)"

text \<open>\<open>obj[k].field = \<dots>\<close>: an in-place update of the value stored under \<open>k\<close>.\<close>

definition obj_modify :: "('k \<times> 'v) list \<Rightarrow> 'k \<Rightarrow> ('v \<Rightarrow> 'v) \<Rightarrow> ('k \<times> 'v) list" where
  "obj_modify m k f = map (\<lambda>(k', v). if k' = k then (k', f v) else (k', v)) m"

section \<open>Requests in flight\<close>

text \<open>The requests a page has sent and not yet seen answered are a list; the answer to
  the \<open>i\<close>-th one is taken out of it with \<open>remove_at i\<close>.\<close>

definition remove_at :: "nat \<Rightarrow> 'a list \<Rightarrow> 'a list" where
  "remove_at i xs = take i xs @ drop (Suc i) xs"

section \<open>Lemmas\<close>

subsection \<open>Combinators on callbacks that do not throw\<close>

lemma js_filter_pure [js_simps]:
  "(\<And>x. x \<in> set xs \<Longrightarrow> f x = Inr (P x)) \<Longrightarrow> js_filter f xs = Inr (filter P xs)"
  by (induction xs) auto

lemma js_map_pure [js_simps]:
  "(\<And>x. x \<in> set xs \<Longrightarrow> f x = Inr (g x)) \<Longrightarrow> js_map f xs = Inr (map g xs)"
  by (induction xs) auto

lemma js_filter_Inr:
  "js_filter f xs = Inr ys \<Longrightarrow>
     (\<forall>x \<in> set xs. \<exists>b. f x = Inr b) \<and> ys = filter (\<lambda>x. f x = Inr True) xs"
  by (induction xs arbitrary: ys) (auto split: sum.splits)

lemma js_filter_Inl: "js_filter f xs = Inl e \<Longrightarrow> \<exists>x \<in> set xs. f x = Inl e"
  by (induction xs) (auto split: sum.splits if_splits)

lemma js_map_Inl_iff: "(\<exists>e. js_map f xs = Inl e) \<longleftrightarrow> (\<exists>x \<in> set xs. \<exists>e. f x = Inl e)"
  by (induction xs) (auto split: sum.splits)

lemma js_fold_append [js_simps]:
  "js_fold f (xs @ ys) acc =
     (case js_fold f xs acc of Inl e \<Rightarrow> Inl e | Inr acc' \<Rightarrow> js_fold f ys acc')"
  by (induction xs arbitrary: acc) (auto split: sum.splits)

lemma js_error_unique: "(e :: js_error) = e'"
  by (cases e; cases e') simp

subsection \<open>\<open>Set\<close> iteration order\<close>

lemma set_add_all_snoc:
  "set_add_all acc (xs @ [x]) =
     (let r = set_add_all acc xs in if x \<in> set r then r else r @ [x])"
  by (induction xs arbitrary: acc) auto

lemma set_set_add_all [simp]: "set (set_add_all acc xs) = set acc \<union> set xs"
  by (induction xs arbitrary: acc) auto

lemma distinct_set_add_all: "distinct acc \<Longrightarrow> distinct (set_add_all acc xs)"
  by (induction xs arbitrary: acc) auto

lemma set_js_set_values [simp]: "set (js_set_values xs) = set xs"
  by (simp add: js_set_values_def)

lemma distinct_js_set_values [simp]: "distinct (js_set_values xs)"
  by (simp add: js_set_values_def distinct_set_add_all)

lemma js_set_values_snoc [js_simps]:
  "js_set_values (xs @ [x]) =
     (if x \<in> set xs then js_set_values xs else js_set_values xs @ [x])"
  by (simp add: js_set_values_def set_add_all_snoc Let_def)

lemma js_set_values_Nil [simp]: "js_set_values [] = []"
  by (simp add: js_set_values_def)

text \<open>Sorting the \<open>Set\<close>'s values gives the sorted list of the distinct values.\<close>

lemma unique_sorted_eq: "unique_sorted xs = sorted_list_of_set (set xs)"
proof -
  have "sorted (unique_sorted xs)" and "distinct (unique_sorted xs)"
    and "set (unique_sorted xs) = set xs"
    by (simp_all add: unique_sorted_def)
  then show ?thesis
    by (simp add: sorted_distinct_set_unique)
qed

lemma set_unique_sorted [simp]: "set (unique_sorted xs) = set xs"
  by (simp add: unique_sorted_def)

lemma sorted_unique_sorted [simp]: "sorted (unique_sorted xs)"
  and distinct_unique_sorted [simp]: "distinct (unique_sorted xs)"
  by (simp_all add: unique_sorted_def)

subsection \<open>Nested traversals\<close>

text \<open>\<open>xs.map(x => ys.map(y => f(x, y)))\<close> rendered as one flat row of cells.\<close>

lemma length_concat_map_grid [simp]:
  "length (concat (map (\<lambda>x. map (f x) ys) xs)) = length xs * length ys"
  by (induction xs) simp_all

lemma nth_concat_map_grid:
  "i < length xs \<Longrightarrow> j < length ys \<Longrightarrow>
     concat (map (\<lambda>x. map (f x) ys) xs) ! (i * length ys + j) = f (xs ! i) (ys ! j)"
proof (induction xs arbitrary: i)
  case Nil
  then show ?case by simp
next
  case (Cons x xs)
  show ?case
  proof (cases i)
    case 0
    with Cons.prems show ?thesis by (simp add: nth_append)
  next
    case (Suc i')
    with Cons.prems have "concat (map (\<lambda>x. map (f x) ys) xs) ! (i' * length ys + j) = f (xs ! i') (ys ! j)"
      by (intro Cons.IH) simp_all
    with Suc Cons.prems show ?thesis by (simp add: nth_append algebra_simps)
  qed
qed

lemma nth_concat_map_grid_div:
  assumes "k < length xs * length ys"
  shows "concat (map (\<lambda>x. map (f x) ys) xs) ! k = f (xs ! (k div length ys)) (ys ! (k mod length ys))"
proof -
  from assms have ys: "0 < length ys" by (cases "length ys") simp_all
  from assms have "k div length ys < length xs" by (rule less_mult_imp_div_less)
  moreover have "k mod length ys < length ys" using ys by simp
  ultimately have "concat (map (\<lambda>x. map (f x) ys) xs) ! (k div length ys * length ys + k mod length ys)
      = f (xs ! (k div length ys)) (ys ! (k mod length ys))"
    by (rule nth_concat_map_grid)
  then show ?thesis by simp
qed

subsection \<open>Objects as association lists\<close>

lemma map_of_obj_set [simp]: "map_of (obj_set m k v) = (map_of m)(k \<mapsto> v)"
  by (induction m) (auto simp: fun_eq_iff)

lemma keys_obj_set:
  "map fst (obj_set m k v) = (if k \<in> set (map fst m) then map fst m else map fst m @ [k])"
  by (induction m) (auto simp: rev_image_eqI)

lemma obj_has_table [js_simps]: "obj_has (map (\<lambda>k. (k, R k)) K) k \<longleftrightarrow> k \<in> set K"
  by (auto simp: obj_has_def)

lemma obj_set_table [js_simps]:
  "distinct K \<Longrightarrow> obj_set (map (\<lambda>k. (k, R k)) K) k v =
     map (\<lambda>k'. (k', (R(k := v)) k')) (if k \<in> set K then K else K @ [k])"
  by (induction K) auto

lemma obj_modify_table [js_simps]:
  "obj_modify (map (\<lambda>k. (k, R k)) K) k f = map (\<lambda>k'. (k', (R(k := f (R k))) k')) K"
  by (induction K) (auto simp: obj_modify_def)

subsection \<open>Requests in flight\<close>

lemma remove_at_split: "i < length xs \<Longrightarrow> xs = take i xs @ xs ! i # drop (Suc i) xs"
  by (simp add: id_take_nth_drop)

lemma set_remove_at: "set (remove_at i xs) \<subseteq> set xs"
  by (auto simp: remove_at_def dest: in_set_takeD in_set_dropD)

lemma length_filter_remove_at:
  "i < length xs \<Longrightarrow>
     length (filter P xs) = length (filter P (remove_at i xs)) + (if P (xs ! i) then 1 else 0)"
  by (subst remove_at_split [of i xs]) (simp_all add: remove_at_def)

lemma length_filter_update_same:
  "i < length xs \<Longrightarrow> P y = P (xs ! i) \<Longrightarrow> length (filter P (xs[i := y])) = length (filter P xs)"
proof (induction xs arbitrary: i)
  case Nil
  then show ?case by simp
next
  case (Cons x xs)
  then show ?case by (cases i) auto
qed

lemma in_set_remove_at:
  "i < length xs \<Longrightarrow> x \<in> set xs \<Longrightarrow> x \<noteq> xs ! i \<Longrightarrow> x \<in> set (remove_at i xs)"
  by (subst (asm) remove_at_split [of i xs]) (auto simp: remove_at_def)

lemma map_fst_update_same [simp]:
  "i < length xs \<Longrightarrow> map fst (xs[i := (fst (xs ! i), y)]) = map fst xs"
proof -
  assume i: "i < length xs"
  then have "fst (xs ! i) = map fst xs ! i" by simp
  then show ?thesis by (simp only: map_update fst_conv list_update_id)
qed

subsection \<open>Searching lists\<close>

lemma find_Some_in: "find P xs = Some x \<Longrightarrow> x \<in> set xs \<and> P x"
  by (induction xs) (auto split: if_splits)

lemma find_distinct_key: "distinct (map f xs) \<Longrightarrow> x \<in> set xs \<Longrightarrow> find (\<lambda>y. f y = f x) xs = Some x"
  by (induction xs) (auto simp: rev_image_eqI)

lemma find_map_same:
  "(\<forall>x \<in> set xs. P (g x) = P x) \<Longrightarrow> find P (map g xs) = map_option g (find P xs)"
  by (induction xs) auto

lemma in_set_update_other: "x \<in> set xs \<Longrightarrow> x \<noteq> xs ! i \<Longrightarrow> x \<in> set (xs[i := y])"
  by (metis in_set_conv_nth length_list_update nth_list_update_neq)

end
