(* ===== verification/JS_String.thy ===== *)
theory JS_String
  imports Prelude
begin

text \<open>
  The string methods the pages call, on \<open>string\<close> (lists of 8-bit characters):
  \<open>toLowerCase\<close>, \<open>toUpperCase\<close>, \<open>includes\<close>, \<open>trim\<close>, \<open>split\<close>, \<open>join\<close>,
  \<open>replace\<close> with a string pattern, and \<open>charAt(0)\<close>/\<open>slice(1)\<close>.
  Case mapping and white space are those of ASCII; the characters beyond ASCII that
  JavaScript also maps or trims are not modelled.
\<close>

section \<open>Case mapping\<close>

definition lower_char :: "char \<Rightarrow> char" where
  "lower_char c =
     (if CHR ''A'' \<le> c \<and> c \<le> CHR ''Z'' then char_of (of_char c + (32 :: nat)) else c)"

definition upper_char :: "char \<Rightarrow> char" where
  "upper_char c =
     (if CHR ''a'' \<le> c \<and> c \<le> CHR ''z'' then char_of (of_char c - (32 :: nat)) else c)"

text \<open>\<open>s.toLowerCase()\<close>, \<open>s.toUpperCase()\<close>.\<close>

definition to_lower :: "string \<Rightarrow> string" where
  "to_lower s = map lower_char s"

definition to_upper :: "string \<Rightarrow> string" where
  "to_upper s = map upper_char s"

section \<open>Searching\<close>

fun starts_with :: "string \<Rightarrow> string \<Rightarrow> bool" where
  "starts_with s [] = True"
| "starts_with [] (c # q) = False"
| "starts_with (x # s) (c # q) = (x = c \<and> starts_with s q)"

text \<open>\<open>s.includes(q)\<close>: \<open>q\<close> occurs in \<open>s\<close> at some position.\<close>

fun str_includes :: "string \<Rightarrow> string \<Rightarrow> bool" where
  "str_includes [] q = (q = [])"
| "str_includes (x # s) q = (starts_with (x # s) q \<or> str_includes s q)"

section \<open>Trimming\<close>

text \<open>The ASCII white space and line terminators of \<open>String.prototype.trim\<close>.\<close>

definition is_js_space :: "char \<Rightarrow> bool" where
  "is_js_space c = (c = CHR '' '' \<or> (CHR 0x09 \<le> c \<and> c \<le> CHR 0x0D))"

definition js_trim :: "string \<Rightarrow> string" where
  "js_trim s = rev (dropWhile is_js_space (rev (dropWhile is_js_space s)))"

section \<open>Splitting, joining, replacing\<close>

text \<open>\<open>s.split(c)\<close> for a one-character separator; \<open>''.split(c)\<close> is \<open>['']\<close>.\<close>

fun split_on :: "char \<Rightarrow> string \<Rightarrow> string list" where
  "split_on c [] = [[]]"
| "split_on c (x # s) =
     (if x = c then [] # split_on c s
      else (case split_on c s of [] \<Rightarrow> [[x]] | w # ws \<Rightarrow> (x # w) # ws))"

text \<open>\<open>ws.join(sep)\<close>.\<close>

fun join :: "string \<Rightarrow> string list \<Rightarrow> string" where
  "join sep [] = []"
| "join sep [w] = w"
| "join sep (w # ws) = w @ sep @ join sep ws"

text \<open>\<open>s.replace(pat, rep)\<close> with a string pattern: the first occurrence only.\<close>

fun replace_first :: "string \<Rightarrow> string \<Rightarrow> string \<Rightarrow> string" where
  "replace_first pat rep [] = (if pat = [] then rep else [])"
| "replace_first pat rep (c # s) =
     (if starts_with (c # s) pat then rep @ drop (length pat) (c # s)
      else c # replace_first pat rep s)"

text \<open>\<open>w.charAt(0).toUpperCase() + w.slice(1)\<close>.\<close>

fun capitalize :: "string \<Rightarrow> string" where
  "capitalize [] = []"
| "capitalize (c # w) = upper_char c # w"

section \<open>Lemmas\<close>

text \<open>Evaluation of character arithmetic on literals, for concrete runs.\<close>

lemmas char_eval = char_of_def bit_simps

lemma starts_with_iff: "starts_with s q \<longleftrightarrow> (\<exists>b. s = q @ b)"
  by (induction s q rule: starts_with.induct) auto

lemma includes_iff: "str_includes s q \<longleftrightarrow> (\<exists>a b. s = a @ q @ b)"
proof (induction s)
  case Nil
  then show ?case by simp
next
  case (Cons x s)
  show ?case
  proof
    assume "str_includes (x # s) q"
    then consider "starts_with (x # s) q" | "str_includes s q" by auto
    then show "\<exists>a b. x # s = a @ q @ b"
    proof cases
      case 1
      then obtain b where "x # s = q @ b" by (auto simp: starts_with_iff)
      then have "x # s = [] @ q @ b" by simp
      then show ?thesis by blast
    next
      case 2
      with Cons.IH obtain a b where "s = a @ q @ b" by blast
      then have "x # s = (x # a) @ q @ b" by simp
      then show ?thesis by blast
    qed
  next
    assume "\<exists>a b. x # s = a @ q @ b"
    then obtain a b where ab: "x # s = a @ q @ b" by blast
    show "str_includes (x # s) q"
    proof (cases a)
      case Nil
      with ab have "starts_with (x # s) q" by (simp add: starts_with_iff)
      then show ?thesis by simp
    next
      case (Cons y a')
      with ab have "s = a' @ q @ b" by simp
      with Cons.IH have "str_includes s q" by blast
      then show ?thesis by simp
    qed
  qed
qed

lemma includes_Nil [simp]: "str_includes s []"
  by (cases s) simp_all

lemma includes_self [simp]: "str_includes s s"
  by (simp add: includes_iff) (metis append_Nil append_Nil2)

lemma split_on_nonempty [simp]: "split_on c s \<noteq> []"
  by (induction s) (auto split: list.splits)

lemma join_split_on: "join [c] (split_on c s) = s"
proof (induction s)
  case Nil
  then show ?case by simp
next
  case (Cons x s)
  then show ?case
    by (cases "split_on c s" rule: list.exhaust; cases "tl (split_on c s)")
       (auto simp del: join.simps(3) simp: join.simps)
qed

lemma split_on_no_sep: "c \<notin> set w \<Longrightarrow> split_on c w = [w]"
  by (induction w) auto

lemma split_on_append_sep:
  "c \<notin> set w \<Longrightarrow> split_on c (w @ c # s) = w # split_on c s"
  by (induction w) (auto split: list.splits)

text \<open>Splitting a joined list recovers it when no piece contains the separator.\<close>

lemma split_on_join:
  "\<forall>w \<in> set ws. c \<notin> set w \<Longrightarrow> ws \<noteq> [] \<Longrightarrow> split_on c (join [c] ws) = ws"
proof (induction ws)
  case Nil
  then show ?case by simp
next
  case (Cons w ws)
  show ?case
  proof (cases ws)
    case Nil
    with Cons.prems show ?thesis by (simp add: split_on_no_sep)
  next
    case (Cons v vs)
    with Cons.prems Cons.IH show ?thesis by (simp add: split_on_append_sep)
  qed
qed

subsection \<open>Trimming\<close>

lemma dropWhile_hd_keep: "xs \<noteq> [] \<Longrightarrow> \<not> P (hd xs) \<Longrightarrow> dropWhile P xs = xs"
  by (cases xs) simp_all

lemma last_dropWhile: "dropWhile P ys \<noteq> [] \<Longrightarrow> last (dropWhile P ys) = last ys"
  by (metis last_appendR takeWhile_dropWhile_id)

lemma hd_js_trim:
  assumes "js_trim s \<noteq> []"
  shows "hd (js_trim s) = hd (dropWhile is_js_space s)" and "dropWhile is_js_space s \<noteq> []"
proof -
  let ?A = "dropWhile is_js_space s"
  let ?D = "dropWhile is_js_space (rev ?A)"
  from assms have D: "?D \<noteq> []" by (simp add: js_trim_def)
  show A: "?A \<noteq> []"
  proof
    assume A0: "?A = []"
    have "?D = dropWhile is_js_space (rev [])" by (simp only: A0)
    with D show False by simp
  qed
  have "hd (js_trim s) = last ?D"
    using D by (simp add: js_trim_def hd_rev)
  also have "\<dots> = last (rev ?A)"
    using D by (rule last_dropWhile)
  also have "\<dots> = hd ?A"
    using A by (simp add: last_rev)
  finally show "hd (js_trim s) = hd ?A" .
qed

text \<open>A trimmed string neither starts nor ends with white space.\<close>

lemma js_trim_edges:
  "js_trim s \<noteq> [] \<Longrightarrow> \<not> is_js_space (hd (js_trim s)) \<and> \<not> is_js_space (last (js_trim s))"
proof
  assume ne: "js_trim s \<noteq> []"
  show "\<not> is_js_space (hd (js_trim s))"
    using hd_js_trim [OF ne] hd_dropWhile by metis
  let ?D = "dropWhile is_js_space (rev (dropWhile is_js_space s))"
  from ne have "?D \<noteq> []" by (simp add: js_trim_def)
  then show "\<not> is_js_space (last (js_trim s))"
    by (simp add: js_trim_def last_rev hd_dropWhile)
qed

lemma js_trim_idem: "js_trim (js_trim s) = js_trim s"
proof (cases "js_trim s = []")
  case True
  then show ?thesis by (simp only: True) (simp add: js_trim_def)
next
  case False
  then have keep: "dropWhile is_js_space (js_trim s) = js_trim s"
    using js_trim_edges by (blast intro: dropWhile_hd_keep)
  define D where "D = dropWhile is_js_space (rev (dropWhile is_js_space s))"
  have t: "js_trim s = rev D" by (simp add: js_trim_def D_def)
  have "js_trim (js_trim s) = rev (dropWhile is_js_space (rev (js_trim s)))"
    by (simp only: js_trim_def [of "js_trim s"] keep)
  also have "\<dots> = rev (dropWhile is_js_space D)"
    by (simp add: t)
  also have "\<dots> = js_trim s"
    by (simp add: t D_def)
  finally show ?thesis .
qed

text \<open>Trimming only removes white space at both ends.\<close>

lemma js_trim_infix:
  "\<exists>a b. s = a @ js_trim s @ b \<and> (\<forall>c \<in> set a. is_js_space c) \<and> (\<forall>c \<in> set b. is_js_space c)"
proof -
  let ?A = "dropWhile is_js_space s"
  let ?a = "takeWhile is_js_space s"
  let ?b = "rev (takeWhile is_js_space (rev ?A))"
  have "?A = js_trim s @ ?b"
    by (simp add: js_trim_def flip: rev_append)
  then have "s = ?a @ js_trim s @ ?b"
    by (metis takeWhile_dropWhile_id)
  moreover have "\<forall>c \<in> set ?a. is_js_space c" and "\<forall>c \<in> set ?b. is_js_space c"
    by (auto dest: set_takeWhileD)
  ultimately show ?thesis by blast
qed

lemma js_trim_Nil_iff: "js_trim s = [] \<longleftrightarrow> (\<forall>c \<in> set s. is_js_space c)"
proof
  assume "js_trim s = []"
  then obtain a b where "s = a @ b" and "\<forall>c \<in> set a. is_js_space c" and "\<forall>c \<in> set b. is_js_space c"
    using js_trim_infix [of s] by auto
  then show "\<forall>c \<in> set s. is_js_space c" by auto
next
  assume "\<forall>c \<in> set s. is_js_space c"
  then have "dropWhile is_js_space s = []" by (auto simp: dropWhile_eq_Nil_conv dest: set_dropWhileD)
  then show "js_trim s = []"
    unfolding js_trim_def by (metis dropWhile.simps(1) rev.simps(1))
qed

end
