(* ===== verification/Catalog.thy ===== *)
theory Catalog
  imports JS_String
begin

text \<open>
  The rows the pages receive from the \<open>products\<close> query
  \<open>select(`*, brands (name), prices (*)`)\<close>: a product with its embedded brand and
  its embedded price row(s). Amounts are rationals (the form accepts steps of 0.01);
  \<open>None\<close> is a \<open>null\<close> or missing column. How JavaScript reads these values
  (truthiness, property lookup through \<open>Object.prototype\<close>) is modelled here too.
\<close>

section \<open>Price rows\<close>

text \<open>A row of the \<open>prices\<close> table: one amount per price tier.\<close>

record price =
  price_distributor :: "rat option"
  price_agent :: "rat option"
  price_workshop :: "rat option"
  price_retail :: "rat option"
  price_online :: "rat option"

text \<open>The tier keys the pages use as property names of a price row.\<close>

datatype tier_key = Price_distributor | Price_agent | Price_workshop | Price_retail | Price_online

text \<open>\<open>priceData[tierKey]\<close>.\<close>

fun price_field :: "price \<Rightarrow> tier_key \<Rightarrow> rat option" where
  "price_field p Price_distributor = price_distributor p"
| "price_field p Price_agent = price_agent p"
| "price_field p Price_workshop = price_workshop p"
| "price_field p Price_retail = price_retail p"
| "price_field p Price_online = price_online p"

text \<open>\<open>!val\<close> for a numeric column: \<open>null\<close>, \<open>undefined\<close> and \<open>0\<close> are falsy.\<close>

definition num_falsy :: "rat option \<Rightarrow> bool" where
  "num_falsy v = (v = None \<or> v = Some 0)"

text \<open>
  The embedded \<open>prices\<close> of a product as PostgREST returns it: \<open>null\<close>, an array
  of rows, or (for a one-to-one relationship) a single row object.
  \<open>src/app/admin/prices/page.js\<close> handles all three shapes.
\<close>

datatype embedded_prices = PNull | PArray "price list" | PObj price

section \<open>Products\<close>

text \<open>
  A product row with its joins. \<open>brands\<close> is the name of the embedded brand, \<open>None\<close>
  when the join is \<open>null\<close>; \<open>part_number\<close> is optional in the form.
\<close>

record product =
  car_make :: string
  car_model :: string
  product_variant :: string
  position :: string
  category :: string
  part_number :: "string option"
  brands :: "string option"
  prices :: embedded_prices

text \<open>\<open>p.brands.name\<close>: a \<open>TypeError\<close> on a \<open>null\<close> join.\<close>

definition brand_name :: "product \<Rightarrow> js_error + string" where
  "brand_name p = (case brands p of None \<Rightarrow> Inl TypeError | Some n \<Rightarrow> Inr n)"

text \<open>A batch is well formed when every product has its brand.\<close>

definition wf_batch :: "product list \<Rightarrow> bool" where
  "wf_batch ps = list_all (\<lambda>p. brands p \<noteq> None) ps"

text \<open>The brand name of a product of a well-formed batch.\<close>

definition brand_of :: "product \<Rightarrow> string" where
  "brand_of p = (case brands p of None \<Rightarrow> [] | Some n \<Rightarrow> n)"

section \<open>Property lookup on plain objects\<close>

text \<open>
  \<open>obj[k]\<close> on a plain object finds an own property, or else a property inherited from
  \<open>Object.prototype\<close> (its methods, all truthy functions without price fields, and the
  accessor \<open>__proto__\<close>, which returns \<open>Object.prototype\<close> itself), or else
  \<open>undefined\<close>. The map holds the value last assigned to each key. An assignment
  \<open>obj['__proto__'] = v\<close> replaces the prototype instead of adding a property; read back
  under \<open>__proto__\<close> it still gives \<open>v\<close> (or \<open>undefined\<close> for \<open>null\<close>, which renders
  the same), but the lookups of the object's other keys then go through \<open>v\<close>. That
  second effect is not represented: statements about absent keys exclude objects with
  a \<open>__proto__\<close> key.
\<close>

datatype 'v js_prop = Own 'v | Inherited | Undefined

definition object_prototype_names :: "string list" where
  "object_prototype_names =
     [''constructor'', ''hasOwnProperty'', ''isPrototypeOf'', ''propertyIsEnumerable'',
      ''toLocaleString'', ''toString'', ''valueOf'', ''__defineGetter__'',
      ''__defineSetter__'', ''__lookupGetter__'', ''__lookupSetter__'', ''__proto__'']"

definition js_get :: "(string \<rightharpoonup> 'v) \<Rightarrow> string \<Rightarrow> 'v js_prop" where
  "js_get m k =
     (case m k of
        Some v \<Rightarrow> Own v
      | None \<Rightarrow> if k \<in> set object_prototype_names then Inherited else Undefined)"

lemma js_get_Own [simp]: "m k = Some v \<Longrightarrow> js_get m k = Own v"
  by (simp add: js_get_def)

lemma js_get_upd_same [simp]: "js_get (m(k \<mapsto> v)) k = Own v"
  by (simp add: js_get_def)

lemma js_get_upd_other [simp]: "k' \<noteq> k \<Longrightarrow> js_get (m(k \<mapsto> v)) k' = js_get m k'"
  by (simp add: js_get_def)

lemma wf_batch_simps [simp]:
  "wf_batch []" "wf_batch (p # ps) \<longleftrightarrow> brands p \<noteq> None \<and> wf_batch ps"
  "wf_batch (ps @ qs) \<longleftrightarrow> wf_batch ps \<and> wf_batch qs"
  by (simp_all add: wf_batch_def)

lemma wf_batch_brand_name:
  "wf_batch ps \<Longrightarrow> p \<in> set ps \<Longrightarrow> brand_name p = Inr (brand_of p)"
  by (auto simp: wf_batch_def list_all_iff brand_name_def brand_of_def)

end
