(* ===== verification/Samples.thy ===== *)
theory Samples
  imports Catalog
begin

text \<open>
  Concrete batches used by the witnesses: the example of the specification (two
  brands' shock absorbers for the same Honda City row), a product whose brand join is
  \<open>null\<close>, two products whose fields contain the key separator, a coil spring for
  the same vehicle row, and a product with a part number.
\<close>

definition retail_only :: "rat \<Rightarrow> price" where
  "retail_only v =
     \<lparr>price_distributor = None, price_agent = None, price_workshop = None,
      price_retail = Some v, price_online = None\<rparr>"

definition city_kyb :: product where
  "city_kyb =
     \<lparr>car_make = ''Honda'', car_model = ''City'', product_variant = ''Standard'',
      position = ''Front'', category = ''Shock Absorber'', part_number = None,
      brands = Some ''KYB'', prices = PArray [retail_only 120]\<rparr>"

definition city_monroe :: product where
  "city_monroe = city_kyb\<lparr>brands := Some ''Monroe'', prices := PArray [retail_only 0]\<rparr>"

definition orphan :: product where
  "orphan = city_kyb\<lparr>brands := None\<rparr>"

definition pipe_a :: product where
  "pipe_a = city_kyb\<lparr>car_make := ''A|B'', car_model := ''C''\<rparr>"

definition pipe_b :: product where
  "pipe_b = city_monroe\<lparr>car_make := ''A'', car_model := ''B|C''\<rparr>"

definition city_kyb_spring :: product where
  "city_kyb_spring = city_kyb\<lparr>category := ''Coil Spring'', prices := PArray [retail_only 300]\<rparr>"

definition city_kyb_pn :: product where
  "city_kyb_pn = city_kyb\<lparr>part_number := Some ''333000''\<rparr>"

lemmas sample_defs = retail_only_def city_kyb_def city_monroe_def orphan_def pipe_a_def pipe_b_def
  city_kyb_spring_def city_kyb_pn_def

end
