(* ===== verification/Pivot.thy ===== *)
theory Pivot
  imports Samples
begin

text \<open>
  The pivot engine: \<open>processData\<close> of \<open>src/app/page.tsx\<close> (homepage) and of
  \<open>src/app/admin/print/page.js\<close> (print view), without their React state updates,
  which \<open>Homepage\<close> and \<open>Print_View\<close> add. Both filter the batch, collect the sorted
  distinct brand names, and group the products into rows keyed by a string built from
  the descriptive fields; they differ in the filter (the homepage also searches the
  part number) and in the key (the homepage also uses the category). The generic
  \<open>pivot_batch\<close> takes these as parameters.
\<close>

section \<open>Filters\<close>

text \<open>The search predicate of the homepage (\<open>page.tsx\<close> lines 59-64).\<close>

definition home_matches :: "string \<Rightarrow> product \<Rightarrow> js_error + bool" where
  "home_matches query p =
     (if str_includes (to_lower (car_make p)) query then Inr True
      else if str_includes (to_lower (car_model p)) query then Inr True
      else case brand_name p of
             Inl e \<Rightarrow> Inl e
           | Inr n \<Rightarrow>
               if str_includes (to_lower n) query then Inr True
               else Inr (case part_number p of
                           None \<Rightarrow> False
                         | Some pn \<Rightarrow> pn \<noteq> [] \<and> str_includes (to_lower pn) query))"

text \<open>The search predicate of the print view: no part number.\<close>

definition print_matches :: "string \<Rightarrow> product \<Rightarrow> js_error + bool" where
  "print_matches query p =
     (if str_includes (to_lower (car_make p)) query then Inr True
      else if str_includes (to_lower (car_model p)) query then Inr True
      else case brand_name p of
             Inl e \<Rightarrow> Inl e
           | Inr n \<Rightarrow> Inr (str_includes (to_lower n) query))"

section \<open>Row keys\<close>

text \<open>\<open>`${car_make}|${car_model}|${product_variant}|${position}|${category}`\<close>\<close>

definition home_row_key :: "product \<Rightarrow> string" where
  "home_row_key p =
     car_make p @ ''|'' @ car_model p @ ''|'' @ product_variant p @ ''|'' @ position p
       @ ''|'' @ category p"

definition print_row_key :: "product \<Rightarrow> string" where
  "print_row_key p =
     car_make p @ ''|'' @ car_model p @ ''|'' @ product_variant p @ ''|'' @ position p"

section \<open>Rows\<close>

text \<open>
  \<open>pricesByBrand\<close> maps a brand name to the product's price row, \<open>None\<close> standing
  for the \<open>null\<close> stored when the product has none.
\<close>

type_synonym brand_cells = "string \<rightharpoonup> price option"

text \<open>A group object; print rows have no \<open>category\<close> property (\<open>g_category = None\<close>).\<close>

record pivot_row =
  g_key :: string
  g_car_make :: string
  g_car_model :: string
  g_product_variant :: string
  g_position :: string
  g_category :: "string option"
  pricesByBrand :: brand_cells

definition home_new_row :: "string \<Rightarrow> product \<Rightarrow> pivot_row" where
  "home_new_row k p =
     \<lparr>g_key = k, g_car_make = car_make p, g_car_model = car_model p,
      g_product_variant = product_variant p, g_position = position p,
      g_category = Some (category p), pricesByBrand = Map.empty\<rparr>"

definition print_new_row :: "string \<Rightarrow> product \<Rightarrow> pivot_row" where
  "print_new_row k p =
     \<lparr>g_key = k, g_car_make = car_make p, g_car_model = car_model p,
      g_product_variant = product_variant p, g_position = position p,
      g_category = None, pricesByBrand = Map.empty\<rparr>"

text \<open>\<open>(p.prices && p.prices.length > 0) ? p.prices[0] : null\<close>: a single embedded
  row object has no \<open>length\<close>, so it yields \<open>null\<close>.\<close>

fun first_price :: "embedded_prices \<Rightarrow> price option" where
  "first_price PNull = None"
| "first_price (PArray []) = None"
| "first_price (PArray (x # xs)) = Some x"
| "first_price (PObj pr) = None"

text \<open>One iteration of \<open>filtered.forEach\<close> (lines 72-87).\<close>

definition group_step ::
  "(product \<Rightarrow> string) \<Rightarrow> (string \<Rightarrow> product \<Rightarrow> pivot_row) \<Rightarrow>
   (string \<times> pivot_row) list \<Rightarrow> product \<Rightarrow> js_error + (string \<times> pivot_row) list" where
  "group_step key_of new_row groups p =
     (let rowKey = key_of p;
          groups' = (if obj_has groups rowKey then groups
                     else obj_set groups rowKey (new_row rowKey p));
          priceObj = first_price (prices p)
      in case brand_name p of
           Inl e \<Rightarrow> Inl e
         | Inr n \<Rightarrow> Inr (obj_modify groups' rowKey
                          (\<lambda>r. r\<lparr>pricesByBrand := (pricesByBrand r)(n \<mapsto> priceObj)\<rparr>)))"

type_synonym pivot = "string list \<times> pivot_row list"

text \<open>The whole of \<open>processData\<close>: filter, brand list, grouping.\<close>

definition pivot_batch ::
  "(product \<Rightarrow> js_error + bool) \<Rightarrow> (product \<Rightarrow> string) \<Rightarrow>
   (string \<Rightarrow> product \<Rightarrow> pivot_row) \<Rightarrow> product list \<Rightarrow> js_error + pivot" where
  "pivot_batch matches key_of new_row products =
     (case js_filter matches products of
        Inl e \<Rightarrow> Inl e
      | Inr filtered \<Rightarrow>
          (case js_map brand_name filtered of
             Inl e \<Rightarrow> Inl e
           | Inr names \<Rightarrow>
               (case js_fold (group_step key_of new_row) filtered [] of
                  Inl e \<Rightarrow> Inl e
                | Inr groups \<Rightarrow> Inr (unique_sorted names, map snd groups))))"

definition home_pivot :: "string \<Rightarrow> product list \<Rightarrow> js_error + pivot" where
  "home_pivot query products = pivot_batch (home_matches query) home_row_key home_new_row products"

definition print_pivot :: "string \<Rightarrow> product list \<Rightarrow> js_error + pivot" where
  "print_pivot query products = pivot_batch (print_matches query) print_row_key print_new_row products"

section \<open>Abstract specification\<close>

text \<open>
  What \<open>processData\<close> promises, stated over the filtered batch \<open>xs\<close>: the brands
  are the sorted set of brand names; there is one row per distinct key, in the order of
  first occurrence; a row's descriptive fields come from the first product with its key;
  its cell for a brand holds the price of the last product with that key and brand.
\<close>

definition group_cells :: "(product \<Rightarrow> string) \<Rightarrow> string \<Rightarrow> product list \<Rightarrow> brand_cells" where
  "group_cells key_of k xs =
     map_of (rev (map (\<lambda>p. (brand_of p, first_price (prices p))) (filter (\<lambda>p. key_of p = k) xs)))"

text \<open>The row of a key no product has; \<open>spec_row\<close> never yields it for a key of the batch.\<close>

definition blank_row :: "string \<Rightarrow> pivot_row" where
  "blank_row k =
     \<lparr>g_key = k, g_car_make = [], g_car_model = [], g_product_variant = [], g_position = [],
      g_category = None, pricesByBrand = Map.empty\<rparr>"

definition spec_row ::
  "(product \<Rightarrow> string) \<Rightarrow> (string \<Rightarrow> product \<Rightarrow> pivot_row) \<Rightarrow> string \<Rightarrow> product list \<Rightarrow> pivot_row" where
  "spec_row key_of new_row k xs =
     (case find (\<lambda>p. key_of p = k) xs of
        None \<Rightarrow> blank_row k
      | Some p \<Rightarrow> (new_row k p)\<lparr>pricesByBrand := group_cells key_of k xs\<rparr>)"

definition spec_groups ::
  "(product \<Rightarrow> string) \<Rightarrow> (string \<Rightarrow> product \<Rightarrow> pivot_row) \<Rightarrow> product list \<Rightarrow> (string \<times> pivot_row) list" where
  "spec_groups key_of new_row xs =
     map (\<lambda>k. (k, spec_row key_of new_row k xs)) (js_set_values (map key_of xs))"

definition pivot_spec ::
  "(product \<Rightarrow> bool) \<Rightarrow> (product \<Rightarrow> string) \<Rightarrow> (string \<Rightarrow> product \<Rightarrow> pivot_row) \<Rightarrow>
   product list \<Rightarrow> pivot" where
  "pivot_spec P key_of new_row ps =
     (let xs = filter P ps
      in (sorted_list_of_set (brand_of ` set xs), map snd (spec_groups key_of new_row xs)))"

text \<open>The homepage search as a predicate, for products whose brand is present.\<close>

definition home_match_spec :: "string \<Rightarrow> product \<Rightarrow> bool" where
  "home_match_spec query p =
     (str_includes (to_lower (car_make p)) query \<or> str_includes (to_lower (car_model p)) query
      \<or> str_includes (to_lower (brand_of p)) query
      \<or> (case part_number p of None \<Rightarrow> False | Some pn \<Rightarrow> pn \<noteq> [] \<and> str_includes (to_lower pn) query))"

definition print_match_spec :: "string \<Rightarrow> product \<Rightarrow> bool" where
  "print_match_spec query p =
     (str_includes (to_lower (car_make p)) query \<or> str_includes (to_lower (car_model p)) query
      \<or> str_includes (to_lower (brand_of p)) query)"

section \<open>Refinement\<close>

lemma home_matches_spec:
  "brands p \<noteq> None \<Longrightarrow> home_matches q p = Inr (home_match_spec q p)"
  by (auto simp: home_matches_def home_match_spec_def brand_name_def brand_of_def
           split: option.splits)

lemma print_matches_spec:
  "brands p \<noteq> None \<Longrightarrow> print_matches q p = Inr (print_match_spec q p)"
  by (auto simp: print_matches_def print_match_spec_def brand_name_def brand_of_def
           split: option.splits)

lemma find_snoc:
  "find P (xs @ [x]) = (case find P xs of None \<Rightarrow> if P x then Some x else None | Some y \<Rightarrow> Some y)"
  by (induction xs) auto

lemma group_cells_snoc:
  "group_cells key_of k (xs @ [x]) =
     (if key_of x = k then (group_cells key_of k xs)(brand_of x \<mapsto> first_price (prices x))
      else group_cells key_of k xs)"
  by (simp add: group_cells_def)

lemma spec_row_snoc_other:
  "key_of x \<noteq> k \<Longrightarrow> spec_row key_of new_row k (xs @ [x]) = spec_row key_of new_row k xs"
  by (simp add: spec_row_def find_snoc group_cells_snoc split: option.split)

lemma spec_row_snoc_old:
  assumes "key_of x = k" and "k \<in> key_of ` set xs"
  shows "spec_row key_of new_row k (xs @ [x]) =
    (spec_row key_of new_row k xs)\<lparr>pricesByBrand :=
       (pricesByBrand (spec_row key_of new_row k xs))(brand_of x \<mapsto> first_price (prices x))\<rparr>"
proof -
  from assms(2) have "find (\<lambda>p. key_of p = k) xs \<noteq> None"
    by (auto simp: find_None_iff)
  then obtain p where "find (\<lambda>p. key_of p = k) xs = Some p"
    by blast
  with assms(1) show ?thesis
    by (simp add: spec_row_def find_snoc group_cells_snoc)
qed

lemma spec_row_snoc_new:
  assumes "key_of x = k" and "k \<notin> key_of ` set xs"
    and "pricesByBrand (new_row k x) = Map.empty"
  shows "spec_row key_of new_row k (xs @ [x]) =
    (new_row k x)\<lparr>pricesByBrand := [brand_of x \<mapsto> first_price (prices x)]\<rparr>"
proof -
  from assms(2) have "find (\<lambda>p. key_of p = k) xs = None"
    by (auto simp: find_None_iff)
  moreover from assms(2) have "group_cells key_of k xs = Map.empty"
    by (auto simp: group_cells_def filter_empty_conv)
  ultimately show ?thesis
    using assms(1) by (simp add: spec_row_def find_snoc group_cells_snoc)
qed

text \<open>One iteration of the grouping loop takes the specification of a prefix of the
  batch to the specification of the prefix extended by one product.\<close>

lemma group_step_spec:
  assumes brand: "brands x \<noteq> None"
    and fresh: "\<And>k p. pricesByBrand (new_row k p) = Map.empty"
  shows "group_step key_of new_row (spec_groups key_of new_row xs) x =
           Inr (spec_groups key_of new_row (xs @ [x]))"
proof -
  define K where "K = js_set_values (map key_of xs)"
  define R where "R = (\<lambda>k. spec_row key_of new_row k xs)"
  define k where "k = key_of x"
  define upd where "upd = (\<lambda>r :: pivot_row. r\<lparr>pricesByBrand := (pricesByBrand r)(brand_of x \<mapsto> first_price (prices x))\<rparr>)"
  have groups: "spec_groups key_of new_row xs = map (\<lambda>k. (k, R k)) K"
    by (simp add: spec_groups_def K_def R_def)
  have step: "group_step key_of new_row (map (\<lambda>k. (k, R k)) K) x =
      Inr (obj_modify (if k \<in> set K then map (\<lambda>k. (k, R k)) K
                       else obj_set (map (\<lambda>k. (k, R k)) K) k (new_row k x)) k upd)"
    using brand by (auto simp: group_step_def brand_name_def brand_of_def obj_has_table
                              k_def upd_def Let_def)
  show ?thesis
  proof (cases "k \<in> key_of ` set xs")
    case True
    then have kK: "k \<in> set K" by (simp add: K_def)
    have rows: "map (\<lambda>k'. (k', (R(k := upd (R k))) k')) K =
          map (\<lambda>k'. (k', spec_row key_of new_row k' (xs @ [x]))) K"
      using True by (auto simp: R_def upd_def k_def spec_row_snoc_other spec_row_snoc_old)
    have keys: "js_set_values (map key_of (xs @ [x])) = K"
      using True by (simp add: K_def js_set_values_snoc k_def)
    have "group_step key_of new_row (spec_groups key_of new_row xs) x =
          Inr (map (\<lambda>k'. (k', (R(k := upd (R k))) k')) K)"
      using kK by (simp only: groups step if_True obj_modify_table)
    also have "\<dots> = Inr (spec_groups key_of new_row (xs @ [x]))"
      by (simp only: rows keys spec_groups_def)
    finally show ?thesis .
  next
    case False
    then have kK: "k \<notin> set K" and dK: "distinct K" by (simp_all add: K_def)
    let ?R' = "R(k := new_row k x)"
    have rows: "map (\<lambda>k'. (k', (?R'(k := upd (?R' k))) k')) (K @ [k]) =
          map (\<lambda>k'. (k', spec_row key_of new_row k' (xs @ [x]))) (K @ [k])"
      using False kK fresh
      by (auto simp: R_def upd_def k_def spec_row_snoc_other spec_row_snoc_new)
    have keys: "js_set_values (map key_of (xs @ [x])) = K @ [k]"
      using False by (simp add: K_def js_set_values_snoc k_def)
    have "group_step key_of new_row (spec_groups key_of new_row xs) x =
          Inr (map (\<lambda>k'. (k', (?R'(k := upd (?R' k))) k')) (K @ [k]))"
      using kK dK by (simp only: groups step if_False obj_set_table obj_modify_table)
    also have "\<dots> = Inr (spec_groups key_of new_row (xs @ [x]))"
      by (simp only: rows keys spec_groups_def)
    finally show ?thesis .
  qed
qed

lemma group_fold_spec:
  assumes "wf_batch xs" and "\<And>k p. pricesByBrand (new_row k p) = Map.empty"
  shows "js_fold (group_step key_of new_row) xs [] = Inr (spec_groups key_of new_row xs)"
  using assms(1)
proof (induction xs rule: rev_induct)
  case Nil
  then show ?case by (simp add: spec_groups_def)
next
  case (snoc x xs)
  then show ?case
    by (simp add: js_fold_append group_step_spec assms(2))
qed

text \<open>Refinement: on a well-formed batch \<open>pivot_batch\<close> returns the specification.\<close>

lemma pivot_batch_refines:
  assumes match: "\<And>p. p \<in> set ps \<Longrightarrow> matches p = Inr (P p)"
    and wf: "wf_batch ps"
    and fresh: "\<And>k p. pricesByBrand (new_row k p) = Map.empty"
  shows "pivot_batch matches key_of new_row ps = Inr (pivot_spec P key_of new_row ps)"
proof -
  let ?xs = "filter P ps"
  have f: "js_filter matches ps = Inr ?xs"
    using match by (rule js_filter_pure)
  have wf': "wf_batch ?xs"
    using wf by (auto simp: wf_batch_def list_all_iff)
  have m: "js_map brand_name ?xs = Inr (map brand_of ?xs)"
    using wf by (auto intro!: js_map_pure wf_batch_brand_name)
  have g: "js_fold (group_step key_of new_row) ?xs [] = Inr (spec_groups key_of new_row ?xs)"
    using wf' fresh by (rule group_fold_spec)
  show ?thesis
    by (simp add: pivot_batch_def pivot_spec_def f m g unique_sorted_eq)
qed

section \<open>Properties of the specification\<close>

lemma keys_spec_groups [simp]:
  "map fst (spec_groups key_of new_row xs) = js_set_values (map key_of xs)"
  by (simp add: spec_groups_def comp_def)

lemma g_key_spec_row:
  "(\<And>k p. g_key (new_row k p) = k) \<Longrightarrow> g_key (spec_row key_of new_row k xs) = k"
  by (simp add: spec_row_def blank_row_def split: option.split)

lemma spec_rows_keys:
  "(\<And>k p. g_key (new_row k p) = k) \<Longrightarrow>
     map g_key (map snd (spec_groups key_of new_row xs)) = js_set_values (map key_of xs)"
  by (simp add: spec_groups_def comp_def g_key_spec_row)

lemma find_key_Some:
  "k \<in> key_of ` set xs \<Longrightarrow> \<exists>p. find (\<lambda>p. key_of p = k) xs = Some p"
  by (cases "find (\<lambda>p. key_of p = k) xs") (auto simp: find_None_iff)

lemma spec_row_found:
  "find (\<lambda>p. key_of p = k) xs = Some p \<Longrightarrow>
     spec_row key_of new_row k xs = (new_row k p)\<lparr>pricesByBrand := group_cells key_of k xs\<rparr>"
  by (simp add: spec_row_def)

text \<open>Last write wins: the cell of a brand holds the price of the last product of
  the row with that brand.\<close>

lemma group_cells_last:
  assumes "xs = as @ p # bs" and "key_of p = k"
    and "\<forall>p' \<in> set bs. key_of p' = k \<longrightarrow> brand_of p' \<noteq> brand_of p"
  shows "group_cells key_of k xs (brand_of p) = Some (first_price (prices p))"
proof -
  let ?f = "\<lambda>p. (brand_of p, first_price (prices p))"
  let ?sel = "filter (\<lambda>p. key_of p = k)"
  have "map_of (rev (map ?f (?sel bs))) (brand_of p) = None"
    using assms(3) by (auto simp: map_of_eq_None_iff)
  then show ?thesis
    using assms(1,2) by (simp add: group_cells_def map_of_append map_add_def)
qed

section \<open>Homepage pivot\<close>

lemma home_new_row_fresh [simp]:
  "pricesByBrand (home_new_row k p) = Map.empty" "g_key (home_new_row k p) = k"
  by (simp_all add: home_new_row_def)

lemma print_new_row_fresh [simp]:
  "pricesByBrand (print_new_row k p) = Map.empty" "g_key (print_new_row k p) = k"
  by (simp_all add: print_new_row_def)

text \<open>A product with a \<open>null\<close> brand either matches on make or model, and then
  reaches \<open>filtered.map(p => p.brands.name)\<close>, or makes the filter read its brand.\<close>

lemma pivot_batch_null_brand:
  assumes null: "\<And>p. brands p = None \<Longrightarrow> matches p = Inl TypeError \<or> matches p = Inr True"
    and "\<not> wf_batch ps"
  shows "\<exists>e. pivot_batch matches key_of new_row ps = Inl e"
proof (cases "js_filter matches ps")
  case (Inl e)
  then show ?thesis by (simp add: pivot_batch_def)
next
  case (Inr ys)
  from assms(2) obtain p where p: "p \<in> set ps" "brands p = None"
    by (auto simp: wf_batch_def list_all_iff)
  from js_filter_Inr [OF Inr] p(1) obtain b where "matches p = Inr b"
    by blast
  with null [OF p(2)] have "matches p = Inr True"
    by auto
  with js_filter_Inr [OF Inr] p(1) have "p \<in> set ys"
    by simp
  moreover from p(2) have "brand_name p = Inl TypeError"
    by (simp add: brand_name_def)
  ultimately have "\<exists>e. js_map brand_name ys = Inl e"
    unfolding js_map_Inl_iff by blast
  with Inr show ?thesis
    by (auto simp: pivot_batch_def split: sum.split)
qed

lemma home_pivot_spec:
  "wf_batch ps \<Longrightarrow>
     home_pivot q ps = Inr (pivot_spec (home_match_spec q) home_row_key home_new_row ps)"
  unfolding home_pivot_def
  by (rule pivot_batch_refines)
     (auto simp: wf_batch_def list_all_iff intro: home_matches_spec)

lemma home_matches_null:
  "brands p = None \<Longrightarrow> home_matches q p = Inl TypeError \<or> home_matches q p = Inr True"
  by (simp add: home_matches_def brand_name_def)

lemma home_pivot_Inr_wf: "home_pivot q ps = Inr r \<Longrightarrow> wf_batch ps"
proof (rule ccontr)
  assume "\<not> wf_batch ps" and r: "home_pivot q ps = Inr r"
  then obtain e where "home_pivot q ps = Inl e"
    unfolding home_pivot_def using home_matches_null pivot_batch_null_brand by blast
  with r show False by simp
qed

lemma home_pivot_wf_Inr: "wf_batch ps \<Longrightarrow> \<exists>bs rows. home_pivot q ps = Inr (bs, rows)"
  using home_pivot_spec [of ps q]
  by (cases "pivot_spec (home_match_spec q) home_row_key home_new_row ps") auto

lemma home_match_spec_empty [simp]: "home_match_spec [] p"
  by (simp add: home_match_spec_def)

lemma filter_home_match_empty [simp]: "filter (home_match_spec []) ps = ps"
  by simp

lemma home_pivot_Inr_spec:
  assumes "home_pivot q ps = Inr (bs, rows)"
  shows "bs = sorted_list_of_set (brand_of ` set (filter (home_match_spec q) ps))"
    and "rows = map snd (spec_groups home_row_key home_new_row (filter (home_match_spec q) ps))"
    and "wf_batch ps"
proof -
  show wf: "wf_batch ps" using assms by (rule home_pivot_Inr_wf)
  from home_pivot_spec [OF wf, of q] assms
  show "bs = sorted_list_of_set (brand_of ` set (filter (home_match_spec q) ps))"
    and "rows = map snd (spec_groups home_row_key home_new_row (filter (home_match_spec q) ps))"
    by (simp_all add: pivot_spec_def)
qed

lemma spec_row_in_rows:
  "k \<in> key_of ` set xs \<Longrightarrow> spec_row key_of new_row k xs \<in> set (map snd (spec_groups key_of new_row xs))"
  by (auto simp: spec_groups_def)

lemma home_row_key_join:
  "home_row_key p =
     join ''|'' [car_make p, car_model p, product_variant p, position p, category p]"
  by (simp add: home_row_key_def)

subsection \<open>Claims\<close>

text \<open>
  C1. On a batch in which every product has its brand, the homepage pivot returns the
  abstract pivot of the filtered batch: sorted distinct brands, one row per row key in
  order of first occurrence, descriptive fields of the first product, last write wins
  in the cells.
\<close>

theorem home_pivot_refines:
  "wf_batch ps \<Longrightarrow>
     home_pivot q ps = Inr (pivot_spec (home_match_spec q) home_row_key home_new_row ps)"
  by (rule home_pivot_spec)

theorem home_pivot_refines_witness:
  "wf_batch [city_kyb, city_monroe] \<and>
   home_pivot ''monroe'' [city_kyb, city_monroe] =
     Inr (pivot_spec (home_match_spec ''monroe'') home_row_key home_new_row [city_kyb, city_monroe])"
  using home_pivot_refines [of "[city_kyb, city_monroe]" "''monroe''"]
  by (simp add: sample_defs)

text \<open>
  C2. The brand columns of a pivot are sorted, distinct, and are exactly the brands of
  the products that pass the filter: no brand of a filtered product is missing and no
  brand without a filtered product appears.
\<close>

theorem home_pivot_brands:
  "home_pivot q ps = Inr (bs, rows) \<Longrightarrow>
     sorted bs \<and> distinct bs \<and> set bs = brand_of ` set (filter (home_match_spec q) ps)"
  by (drule home_pivot_Inr_spec(1)) simp

theorem home_pivot_brands_witness:
  "\<exists>rows. home_pivot [] [city_kyb, city_monroe] = Inr ([''KYB'', ''Monroe''], rows) \<and>
     sorted [''KYB'', ''Monroe''] \<and> distinct [''KYB'', ''Monroe''] \<and>
     set [''KYB'', ''Monroe''] = brand_of ` set (filter (home_match_spec []) [city_kyb, city_monroe])"
proof -
  have wf: "wf_batch [city_kyb, city_monroe]" by (simp add: sample_defs)
  have bs: "fst (pivot_spec (home_match_spec []) home_row_key home_new_row [city_kyb, city_monroe])
            = [''KYB'', ''Monroe'']"
    by (simp add: pivot_spec_def sample_defs brand_of_def)
  obtain rows where
    eq: "home_pivot [] [city_kyb, city_monroe] = Inr ([''KYB'', ''Monroe''], rows)"
    using home_pivot_spec [OF wf, of "[]"] bs by (metis prod.collapse)
  show ?thesis
    using eq home_pivot_brands [OF eq] by blast
qed

text \<open>
  C3. Cell conservation, last write wins: for a filtered product after which no filtered
  product has the same row key and brand, the row of its key holds its price row in the
  column of its brand.
\<close>

theorem home_pivot_last_write:
  assumes "home_pivot q ps = Inr (bs, rows)"
    and "filter (home_match_spec q) ps = xs @ p # ys"
    and "\<forall>p' \<in> set ys. home_row_key p' = home_row_key p \<longrightarrow> brand_of p' \<noteq> brand_of p"
  shows "\<exists>r \<in> set rows. g_key r = home_row_key p \<and>
           pricesByBrand r (brand_of p) = Some (first_price (prices p))"
proof -
  let ?F = "filter (home_match_spec q) ps"
  let ?k = "home_row_key p"
  let ?r = "spec_row home_row_key home_new_row ?k ?F"
  have k: "?k \<in> home_row_key ` set ?F" using assms(2) by simp
  obtain p0 where "find (\<lambda>p. home_row_key p = ?k) ?F = Some p0"
    using find_key_Some [OF k] by blast
  then have "pricesByBrand ?r = group_cells home_row_key ?k ?F"
    by (simp add: spec_row_found)
  moreover have "group_cells home_row_key ?k ?F (brand_of p) = Some (first_price (prices p))"
    by (rule group_cells_last [OF assms(2) refl assms(3)])
  ultimately have cell: "pricesByBrand ?r (brand_of p) = Some (first_price (prices p))"
    by simp
  have r: "?r \<in> set rows"
    using spec_row_in_rows [OF k] by (simp add: home_pivot_Inr_spec(2) [OF assms(1)])
  have key: "g_key ?r = ?k"
    by (rule g_key_spec_row) simp
  from r key cell show ?thesis
    by (intro bexI [of _ ?r]) simp_all
qed

theorem home_pivot_last_write_witness:
  "\<exists>bs rows. home_pivot [] [city_kyb, city_monroe] = Inr (bs, rows) \<and>
     filter (home_match_spec []) [city_kyb, city_monroe] = [city_kyb] @ city_monroe # [] \<and>
     (\<exists>r \<in> set rows. g_key r = home_row_key city_monroe \<and>
        pricesByBrand r (brand_of city_monroe) = Some (first_price (prices city_monroe)))"
proof -
  obtain bs rows where eq: "home_pivot [] [city_kyb, city_monroe] = Inr (bs, rows)"
    using home_pivot_wf_Inr [of "[city_kyb, city_monroe]" "[]"] by (auto simp: sample_defs)
  have f: "filter (home_match_spec []) [city_kyb, city_monroe] = [city_kyb] @ city_monroe # []"
    by simp
  show ?thesis
    using eq f home_pivot_last_write [OF eq f] by auto
qed

text \<open>
  C4. The rows of a pivot are in the order in which their keys first occur among the
  filtered products, each key once, and each row carries the descriptive fields of the
  first filtered product with its key.
\<close>

theorem home_pivot_rows:
  assumes "home_pivot q ps = Inr (bs, rows)" and "xs = filter (home_match_spec q) ps"
  shows "map g_key rows = js_set_values (map home_row_key xs) \<and>
    (\<forall>r \<in> set rows. \<exists>p. find (\<lambda>p. home_row_key p = g_key r) xs = Some p \<and>
        g_car_make r = car_make p \<and> g_car_model r = car_model p \<and>
        g_product_variant r = product_variant p \<and> g_position r = position p \<and>
        g_category r = Some (category p))"
proof -
  have rows: "rows = map snd (spec_groups home_row_key home_new_row xs)"
    using home_pivot_Inr_spec(2) [OF assms(1)] assms(2) by simp
  have "\<exists>p. find (\<lambda>p. home_row_key p = k) xs = Some p \<and>
          g_car_make r = car_make p \<and> g_car_model r = car_model p \<and>
          g_product_variant r = product_variant p \<and> g_position r = position p \<and>
          g_category r = Some (category p)"
    if "k \<in> set (js_set_values (map home_row_key xs))"
      and "r = spec_row home_row_key home_new_row k xs" for k r
  proof -
    from that(1) have "k \<in> home_row_key ` set xs" by simp
    then obtain p where "find (\<lambda>p. home_row_key p = k) xs = Some p"
      using find_key_Some [of k home_row_key xs] by blast
    with that(2) show ?thesis
      by (simp add: spec_row_found home_new_row_def)
  qed
  moreover have "set rows = (\<lambda>k. spec_row home_row_key home_new_row k xs) `
                             set (js_set_values (map home_row_key xs))"
    by (simp add: rows spec_groups_def image_image)
  moreover have "map g_key rows = js_set_values (map home_row_key xs)"
    unfolding rows by (rule spec_rows_keys) simp
  ultimately show ?thesis
    by (simp add: g_key_spec_row)
qed

theorem home_pivot_rows_witness:
  "\<exists>bs rows. home_pivot [] [city_kyb, city_monroe] = Inr (bs, rows) \<and>
     [city_kyb, city_monroe] = filter (home_match_spec []) [city_kyb, city_monroe] \<and>
     map g_key rows = js_set_values (map home_row_key [city_kyb, city_monroe]) \<and>
     (\<forall>r \<in> set rows. \<exists>p. find (\<lambda>p. home_row_key p = g_key r) [city_kyb, city_monroe] = Some p \<and>
        g_car_make r = car_make p \<and> g_car_model r = car_model p \<and>
        g_product_variant r = product_variant p \<and> g_position r = position p \<and>
        g_category r = Some (category p))"
proof -
  obtain bs rows where eq: "home_pivot [] [city_kyb, city_monroe] = Inr (bs, rows)"
    using home_pivot_wf_Inr [of "[city_kyb, city_monroe]" "[]"] by (auto simp: sample_defs)
  have f: "[city_kyb, city_monroe] = filter (home_match_spec []) [city_kyb, city_monroe]"
    by simp
  show ?thesis
    using eq f home_pivot_rows [OF eq f] by blast
qed

text \<open>
  C5. The homepage pivot throws a \<open>TypeError\<close> exactly when some product of the
  batch has a \<open>null\<close> brand, whatever the query: such a product either fails the
  filter by reading its brand or passes it and has its brand read when the brand list
  is built.
\<close>

theorem home_pivot_null_brand:
  "home_pivot q ps = Inl TypeError \<longleftrightarrow> \<not> wf_batch ps"
proof
  assume "home_pivot q ps = Inl TypeError"
  then show "\<not> wf_batch ps"
    using home_pivot_spec [of ps q] by auto
next
  assume "\<not> wf_batch ps"
  then obtain e where "home_pivot q ps = Inl e"
    unfolding home_pivot_def using home_matches_null pivot_batch_null_brand by blast
  then show "home_pivot q ps = Inl TypeError"
    by (simp add: js_error_unique [of e TypeError])
qed

theorem home_pivot_null_brand_witness:
  "home_pivot ''city'' [city_kyb, orphan] = Inl TypeError"
  using home_pivot_null_brand [of "''city''" "[city_kyb, orphan]"] by (simp add: sample_defs)

text \<open>
  C6. The row key is a string joined with \<open>|\<close>, not a tuple: two products of
  different vehicles whose fields contain the separator get the same key and are
  merged into one row.
\<close>

theorem home_row_key_collision:
  "car_make pipe_a \<noteq> car_make pipe_b \<and> car_model pipe_a \<noteq> car_model pipe_b \<and>
   (\<exists>bs r. home_pivot [] [pipe_a, pipe_b] = Inr (bs, [r]))"
proof -
  have wf: "wf_batch [pipe_a, pipe_b]" by (simp add: sample_defs)
  have "pivot_spec (home_match_spec []) home_row_key home_new_row [pipe_a, pipe_b] =
        (sorted_list_of_set (brand_of ` set [pipe_a, pipe_b]),
         [spec_row home_row_key home_new_row (home_row_key pipe_a) [pipe_a, pipe_b]])"
    by (simp add: pivot_spec_def spec_groups_def js_set_values_def sample_defs home_row_key_def)
  then show ?thesis
    using home_pivot_spec [OF wf, of "[]"] by (simp add: sample_defs)
qed

text \<open>
  C7. When no descriptive field contains \<open>|\<close>, the row key splits back into the
  make, model, variant, position and category of the product, so products with equal
  keys agree on all five fields.
\<close>

theorem home_row_key_roundtrip:
  "\<forall>f \<in> set [car_make p, car_model p, product_variant p, position p, category p].
      CHR ''|'' \<notin> set f \<Longrightarrow>
   split_on CHR ''|'' (home_row_key p) =
     [car_make p, car_model p, product_variant p, position p, category p]"
  unfolding home_row_key_join by (rule split_on_join) simp_all

theorem home_row_key_roundtrip_witness:
  "split_on CHR ''|'' (home_row_key city_kyb) =
     [''Honda'', ''City'', ''Standard'', ''Front'', ''Shock Absorber'']"
  using home_row_key_roundtrip [of city_kyb] by (simp add: sample_defs)

end
