(* ===== verification/Price_Matrix.thy ===== *)
theory Price_Matrix
  imports Pivot
begin

text \<open>
  The matrix assembly of the homepage (\<open>src/app/page.tsx\<close> lines 91-121 and
  183-278): the visible price tiers chosen by the admin settings, the rendering of one
  price cell in three states, the two column orders of the table (customer view:
  tiers outside and brands inside; brand view: the reverse), its two header rows,
  and the choice between the loading screen, the empty message and the table.
\<close>

section \<open>Visible tiers\<close>

text \<open>A column group descriptor \<open>{ key, label, color }\<close>.\<close>

record tier =
  tkey :: tier_key
  label :: string
  color :: string

text \<open>\<open>getVisibleTiers\<close>: one \<open>if\<close> per setting, in this fixed order. The settings
  object maps a setting key to its \<open>is_visible\<close> flag; a missing key is falsy.\<close>

definition get_visible_tiers :: "(string \<rightharpoonup> bool) \<Rightarrow> tier list" where
  "get_visible_tiers settings =
     (if settings ''show_distributor'' = Some True
      then [\<lparr>tkey = Price_distributor, label = ''Distributor'', color = ''bg-slate-600''\<rparr>] else [])
   @ (if settings ''show_agent'' = Some True
      then [\<lparr>tkey = Price_agent, label = ''Agent'', color = ''bg-slate-600''\<rparr>] else [])
   @ (if settings ''show_workshop'' = Some True
      then [\<lparr>tkey = Price_workshop, label = ''Workshop'', color = ''bg-slate-600''\<rparr>] else [])
   @ (if settings ''show_retail'' = Some True
      then [\<lparr>tkey = Price_retail, label = ''Retail'', color = ''bg-yellow-600''\<rparr>] else [])
   @ (if settings ''show_online'' = Some True
      then [\<lparr>tkey = Price_online, label = ''Online'', color = ''bg-blue-600''\<rparr>] else [])"

section \<open>Price cells\<close>

text \<open>
  What \<open>renderPriceCell\<close> shows: \<open>-\<close> when the row has no price row for the brand,
  \<open>N/A\<close> when the tier's amount is missing or zero, otherwise the amount, highlighted
  in the retail tier.
\<close>

datatype cell = Dash | NA | Amount rat bool

definition render_price_cell :: "pivot_row \<Rightarrow> string \<Rightarrow> tier_key \<Rightarrow> cell" where
  "render_price_cell row brandName tierKey =
     (case js_get (pricesByBrand row) brandName of
        Undefined \<Rightarrow> Dash
      | Own None \<Rightarrow> Dash
      | Inherited \<Rightarrow> NA
      | Own (Some priceData) \<Rightarrow>
          (case price_field priceData tierKey of
             None \<Rightarrow> NA
           | Some val \<Rightarrow> if val = 0 then NA else Amount val (tierKey = Price_retail)))"

section \<open>Table\<close>

text \<open>The setting that shows a tier (a specification helper, not code).\<close>

fun tier_setting :: "tier_key \<Rightarrow> string" where
  "tier_setting Price_distributor = ''show_distributor''"
| "tier_setting Price_agent = ''show_agent''"
| "tier_setting Price_workshop = ''show_workshop''"
| "tier_setting Price_retail = ''show_retail''"
| "tier_setting Price_online = ''show_online''"

text \<open>The two values of \<open>viewMode\<close>: \<open>'customer'\<close> and \<open>'brand'\<close>.\<close>

datatype view_mode = Customer | Brand

text \<open>The data cells of one row, lines 261-271.\<close>

definition customer_cells :: "string list \<Rightarrow> tier list \<Rightarrow> pivot_row \<Rightarrow> cell list" where
  "customer_cells activeBrands visibleTiers row =
     concat (map (\<lambda>tier. map (\<lambda>brand. render_price_cell row brand (tkey tier)) activeBrands)
               visibleTiers)"

definition brand_cells :: "string list \<Rightarrow> tier list \<Rightarrow> pivot_row \<Rightarrow> cell list" where
  "brand_cells activeBrands visibleTiers row =
     concat (map (\<lambda>brand. map (\<lambda>tier. render_price_cell row brand (tkey tier)) visibleTiers)
               activeBrands)"

definition row_cells :: "view_mode \<Rightarrow> string list \<Rightarrow> tier list \<Rightarrow> pivot_row \<Rightarrow> cell list" where
  "row_cells viewMode activeBrands visibleTiers row =
     (if viewMode = Customer then customer_cells activeBrands visibleTiers row
      else brand_cells activeBrands visibleTiers row)"

text \<open>Header row 1 (lines 194-222): group headers with their \<open>colSpan\<close>.\<close>

definition header_row1 :: "view_mode \<Rightarrow> string list \<Rightarrow> tier list \<Rightarrow> (string \<times> nat) list" where
  "header_row1 viewMode activeBrands visibleTiers =
     (if viewMode = Customer then map (\<lambda>tier. (label tier, length activeBrands)) visibleTiers
      else map (\<lambda>brand. (brand, length visibleTiers)) activeBrands)"

text \<open>Header row 2 (lines 225-245): one label per data column.\<close>

definition header_row2 :: "view_mode \<Rightarrow> string list \<Rightarrow> tier list \<Rightarrow> string list" where
  "header_row2 viewMode activeBrands visibleTiers =
     (if viewMode = Customer then concat (map (\<lambda>tier. map (\<lambda>brand. brand) activeBrands) visibleTiers)
      else concat (map (\<lambda>brand. map (\<lambda>tier. label tier) visibleTiers) activeBrands))"

text \<open>The main area (lines 184-277).\<close>

datatype main_view =
    Loading_screen
  | No_products string
  | Matrix "(string \<times> nat) list" "string list" "(pivot_row \<times> cell list) list"

definition render_main ::
  "bool \<Rightarrow> string \<Rightarrow> view_mode \<Rightarrow> string list \<Rightarrow> tier list \<Rightarrow> pivot_row list \<Rightarrow> main_view" where
  "render_main loading search viewMode activeBrands visibleTiers groupedData =
     (if loading then Loading_screen
      else if groupedData = [] then No_products search
      else Matrix (header_row1 viewMode activeBrands visibleTiers)
                  (header_row2 viewMode activeBrands visibleTiers)
                  (map (\<lambda>row. (row, row_cells viewMode activeBrands visibleTiers row)) groupedData))"

section \<open>Lemmas\<close>

lemma length_customer_cells [simp]:
  "length (customer_cells bs ts r) = length ts * length bs"
  by (simp add: customer_cells_def)

lemma length_brand_cells [simp]:
  "length (brand_cells bs ts r) = length bs * length ts"
  by (simp add: brand_cells_def)

lemma nth_customer_cells:
  "i < length ts \<Longrightarrow> j < length bs \<Longrightarrow>
     customer_cells bs ts r ! (i * length bs + j) = render_price_cell r (bs ! j) (tkey (ts ! i))"
  unfolding customer_cells_def by (rule nth_concat_map_grid)

lemma nth_brand_cells:
  "j < length bs \<Longrightarrow> i < length ts \<Longrightarrow>
     brand_cells bs ts r ! (j * length ts + i) = render_price_cell r (bs ! j) (tkey (ts ! i))"
  unfolding brand_cells_def by (rule nth_concat_map_grid)

lemma render_price_cell_Own:
  "pricesByBrand r b = Some (Some pd) \<Longrightarrow>
     render_price_cell r b tk =
       (case price_field pd tk of None \<Rightarrow> NA | Some v \<Rightarrow> if v = 0 then NA else Amount v (tk = Price_retail))"
  by (simp add: render_price_cell_def)

lemma render_price_cell_absent:
  "pricesByBrand r b = None \<Longrightarrow> b \<notin> set object_prototype_names \<Longrightarrow> render_price_cell r b tk = Dash"
  by (simp add: render_price_cell_def js_get_def)

text \<open>The cells of a pivot row are those of its group in the filtered batch.\<close>

lemma home_pivot_row_cells:
  assumes "home_pivot q ps = Inr (bs, rows)" and "r \<in> set rows"
  shows "pricesByBrand r = group_cells home_row_key (g_key r) (filter (home_match_spec q) ps)"
    and "g_key r \<in> home_row_key ` set (filter (home_match_spec q) ps)"
proof -
  let ?F = "filter (home_match_spec q) ps"
  from assms obtain k where k: "k \<in> home_row_key ` set ?F"
    and r: "r = spec_row home_row_key home_new_row k ?F"
    by (auto simp: home_pivot_Inr_spec(2) [OF assms(1)] spec_groups_def)
  from k obtain p where "find (\<lambda>p. home_row_key p = k) ?F = Some p"
    using find_key_Some [of k home_row_key ?F] by blast
  with r show "pricesByBrand r = group_cells home_row_key (g_key r) ?F"
    by (simp add: spec_row_found home_new_row_def)
  from r k show "g_key r \<in> home_row_key ` set ?F"
    by (simp add: g_key_spec_row)
qed

lemma group_cells_None_iff:
  "group_cells key_of k xs b = None \<longleftrightarrow> (\<forall>p \<in> set xs. key_of p = k \<longrightarrow> brand_of p \<noteq> b)"
  by (force simp: group_cells_def map_of_eq_None_iff image_iff)

lemma sum_list_map_const: "sum_list (map (\<lambda>_. c) xs) = length xs * (c :: nat)"
  by (induction xs) simp_all

lemma header_row2_nth_customer:
  "k < length ts * length bs \<Longrightarrow> header_row2 Customer bs ts ! k = bs ! (k mod length bs)"
  unfolding header_row2_def
  using nth_concat_map_grid_div [where f = "\<lambda>tier brand. brand" and xs = ts and ys = bs and k = k]
  by simp

lemma header_row2_nth_brand:
  "k < length bs * length ts \<Longrightarrow> header_row2 Brand bs ts ! k = label (ts ! (k mod length ts))"
  unfolding header_row2_def
  using nth_concat_map_grid_div [where f = "\<lambda>brand tier. label tier" and xs = bs and ys = ts and k = k]
  by simp

text \<open>The example batch of the specification pivots to a single row under the empty query.\<close>

lemma sample_single_row:
  "\<exists>bs r. home_pivot [] [city_kyb, city_monroe] = Inr (bs, [r]) \<and>
     pricesByBrand r = group_cells home_row_key (home_row_key city_kyb) [city_kyb, city_monroe]"
proof -
  let ?S = "[city_kyb, city_monroe]"
  obtain bs rows where eq: "home_pivot [] ?S = Inr (bs, rows)"
    using home_pivot_wf_Inr [of ?S "[]"] by (auto simp: sample_defs)
  have "map g_key rows = js_set_values (map home_row_key ?S)"
    using home_pivot_rows [OF eq] by simp
  then have "map g_key rows = [home_row_key city_kyb]"
    by (simp add: js_set_values_def sample_defs home_row_key_def)
  then obtain r where r: "rows = [r]" and k: "g_key r = home_row_key city_kyb"
    by (cases rows) auto
  have "pricesByBrand r = group_cells home_row_key (g_key r) ?S"
    using home_pivot_row_cells(1) [OF eq] r by simp
  with eq r k show ?thesis by auto
qed

section \<open>Claims\<close>

text \<open>
  C9. Axis consistency: the customer view and the brand view show the same cell for
  every (tier, brand) pair; the customer view has it at column \<open>i * #brands + j\<close>, the
  brand view at column \<open>j * #tiers + i\<close>, and both rows have the same length.
\<close>

theorem axis_consistency:
  "i < length ts \<Longrightarrow> j < length bs \<Longrightarrow>
     length (customer_cells bs ts r) = length (brand_cells bs ts r) \<and>
     customer_cells bs ts r ! (i * length bs + j) = render_price_cell r (bs ! j) (tkey (ts ! i)) \<and>
     brand_cells bs ts r ! (j * length ts + i) = render_price_cell r (bs ! j) (tkey (ts ! i))"
  by (simp add: nth_customer_cells nth_brand_cells)

theorem axis_consistency_witness:
  "length (customer_cells [''KYB'', ''Monroe''] (get_visible_tiers [''show_distributor'' \<mapsto> True, ''show_retail'' \<mapsto> True])
      (spec_row home_row_key home_new_row (home_row_key city_kyb) [city_kyb, city_monroe])) =
   length (brand_cells [''KYB'', ''Monroe''] (get_visible_tiers [''show_distributor'' \<mapsto> True, ''show_retail'' \<mapsto> True])
      (spec_row home_row_key home_new_row (home_row_key city_kyb) [city_kyb, city_monroe])) \<and>
   customer_cells [''KYB'', ''Monroe''] (get_visible_tiers [''show_distributor'' \<mapsto> True, ''show_retail'' \<mapsto> True])
      (spec_row home_row_key home_new_row (home_row_key city_kyb) [city_kyb, city_monroe]) ! 3 =
   brand_cells [''KYB'', ''Monroe''] (get_visible_tiers [''show_distributor'' \<mapsto> True, ''show_retail'' \<mapsto> True])
      (spec_row home_row_key home_new_row (home_row_key city_kyb) [city_kyb, city_monroe]) ! 3"
proof -
  let ?ts = "get_visible_tiers [''show_distributor'' \<mapsto> True, ''show_retail'' \<mapsto> True]"
  let ?r = "spec_row home_row_key home_new_row (home_row_key city_kyb) [city_kyb, city_monroe]"
  have ts: "length ?ts = 2" by (simp add: get_visible_tiers_def)
  from axis_consistency [of 1 ?ts 1 "[''KYB'', ''Monroe'']" ?r] ts show ?thesis
    by (simp add: numeral_eq_Suc)
qed

text \<open>
  C10. Header alignment: in both view modes header row 2 has one label per data cell,
  the column spans of header row 1 add up to the number of data cells, and the data
  cell in column \<open>k\<close> is the cell of a brand and a tier of the table whose label
  (the brand in the customer view, the tier in the brand view) heads column \<open>k\<close>.
\<close>

theorem header_alignment:
  "length (header_row2 m bs ts) = length (row_cells m bs ts r) \<and>
   sum_list (map snd (header_row1 m bs ts)) = length (row_cells m bs ts r) \<and>
   (\<forall>k < length (row_cells m bs ts r). \<exists>b t. b \<in> set bs \<and> t \<in> set ts \<and>
      row_cells m bs ts r ! k = render_price_cell r b (tkey t) \<and>
      header_row2 m bs ts ! k = (if m = Customer then b else label t))"
proof (cases m)
  case Customer
  have "\<exists>b t. b \<in> set bs \<and> t \<in> set ts \<and>
      customer_cells bs ts r ! k = render_price_cell r b (tkey t) \<and> header_row2 Customer bs ts ! k = b"
    if k: "k < length ts * length bs" for k
  proof -
    have "0 < length bs" using k by (cases "length bs") simp_all
    moreover have "k div length bs < length ts" using k by (rule less_mult_imp_div_less)
    ultimately have "bs ! (k mod length bs) \<in> set bs" and "ts ! (k div length bs) \<in> set ts"
      by simp_all
    moreover have "customer_cells bs ts r ! k =
        render_price_cell r (bs ! (k mod length bs)) (tkey (ts ! (k div length bs)))"
      unfolding customer_cells_def by (rule nth_concat_map_grid_div [OF k])
    ultimately show ?thesis
      using header_row2_nth_customer [OF k] by blast
  qed
  with Customer show ?thesis
    by (simp add: header_row1_def header_row2_def row_cells_def length_concat comp_def
                  sum_list_map_const)
next
  case Brand
  have "\<exists>b t. b \<in> set bs \<and> t \<in> set ts \<and>
      brand_cells bs ts r ! k = render_price_cell r b (tkey t) \<and> header_row2 Brand bs ts ! k = label t"
    if k: "k < length bs * length ts" for k
  proof -
    have "0 < length ts" using k by (cases "length ts") simp_all
    moreover have "k div length ts < length bs" using k by (rule less_mult_imp_div_less)
    ultimately have "bs ! (k div length ts) \<in> set bs" and "ts ! (k mod length ts) \<in> set ts"
      by simp_all
    moreover have "brand_cells bs ts r ! k =
        render_price_cell r (bs ! (k div length ts)) (tkey (ts ! (k mod length ts)))"
      unfolding brand_cells_def by (rule nth_concat_map_grid_div [OF k])
    ultimately show ?thesis
      using header_row2_nth_brand [OF k] by blast
  qed
  with Brand show ?thesis
    by (simp add: header_row1_def header_row2_def row_cells_def length_concat comp_def
                  sum_list_map_const)
qed
theorem header_alignment_witness:
  "length (header_row2 Brand [''KYB''] (get_visible_tiers [''show_retail'' \<mapsto> True])) =
     length (row_cells Brand [''KYB''] (get_visible_tiers [''show_retail'' \<mapsto> True])
       (spec_row home_row_key home_new_row (home_row_key city_kyb) [city_kyb])) \<and>
   header_row2 Brand [''KYB''] (get_visible_tiers [''show_retail'' \<mapsto> True]) ! 0 = ''Retail'' \<and>
   row_cells Brand [''KYB''] (get_visible_tiers [''show_retail'' \<mapsto> True])
       (spec_row home_row_key home_new_row (home_row_key city_kyb) [city_kyb]) ! 0 =
     render_price_cell (spec_row home_row_key home_new_row (home_row_key city_kyb) [city_kyb])
       ''KYB'' Price_retail"
proof -
  let ?ts = "get_visible_tiers [''show_retail'' \<mapsto> True]"
  let ?r = "spec_row home_row_key home_new_row (home_row_key city_kyb) [city_kyb]"
  have ts: "?ts = [\<lparr>tkey = Price_retail, label = ''Retail'', color = ''bg-yellow-600''\<rparr>]"
    by (simp add: get_visible_tiers_def)
  have "0 < length (row_cells Brand [''KYB''] ?ts ?r)"
    by (simp add: ts row_cells_def)
  with header_alignment [of Brand "[''KYB'']" ?ts ?r] show ?thesis
    by (auto simp: ts)
qed

text \<open>
  C11. The three cell states of a pivot row: for the last filtered product of the row
  with a given brand, the cell shows \<open>-\<close> when that product has no price row,
  \<open>N/A\<close> when its amount for the tier is missing or zero, and the amount otherwise
  (highlighted in the retail tier).
\<close>

theorem home_cell_last_product:
  assumes "home_pivot q ps = Inr (bs, rows)" and "r \<in> set rows"
    and "filter (home_match_spec q) ps = xs @ p # ys" and "home_row_key p = g_key r"
    and "\<forall>p' \<in> set ys. home_row_key p' = g_key r \<longrightarrow> brand_of p' \<noteq> brand_of p"
  shows "render_price_cell r (brand_of p) tk =
    (case first_price (prices p) of
       None \<Rightarrow> Dash
     | Some pd \<Rightarrow> (case price_field pd tk of
                    None \<Rightarrow> NA
                  | Some v \<Rightarrow> if v = 0 then NA else Amount v (tk = Price_retail)))"
proof -
  have "pricesByBrand r (brand_of p) =
        group_cells home_row_key (g_key r) (filter (home_match_spec q) ps) (brand_of p)"
    by (simp add: home_pivot_row_cells(1) [OF assms(1,2)])
  also have "\<dots> = Some (first_price (prices p))"
    by (rule group_cells_last [OF assms(3,4,5)])
  finally have cell: "pricesByBrand r (brand_of p) = Some (first_price (prices p))" .
  show ?thesis
  proof (cases "first_price (prices p)")
    case None
    with cell show ?thesis by (simp add: render_price_cell_def)
  next
    case (Some pd)
    with cell show ?thesis by (simp add: render_price_cell_Own)
  qed
qed

theorem home_cell_last_product_witness:
  "\<exists>bs rows. home_pivot ''monroe'' [city_kyb, city_monroe] = Inr (bs, rows) \<and>
     (\<exists>r. r \<in> set rows \<and> render_price_cell r ''Monroe'' Price_retail = NA)"
proof -
  let ?S = "[city_kyb, city_monroe]"
  have F: "filter (home_match_spec ''monroe'') ?S = [] @ city_monroe # []"
    by (simp add: home_match_spec_def sample_defs to_lower_def lower_char_def char_eval brand_of_def)
  obtain bs rows where eq: "home_pivot ''monroe'' ?S = Inr (bs, rows)"
    using home_pivot_wf_Inr [of ?S "''monroe''"] by (auto simp: sample_defs)
  have "map g_key rows = js_set_values (map home_row_key (filter (home_match_spec ''monroe'') ?S))"
    using home_pivot_rows [OF eq refl] by blast
  then have "map g_key rows = [home_row_key city_monroe]"
    by (simp only: F) (simp add: js_set_values_def)
  then obtain r where r: "rows = [r]" and k: "home_row_key city_monroe = g_key r"
    by (cases rows) auto
  have "render_price_cell r (brand_of city_monroe) Price_retail = NA"
    using home_cell_last_product [OF eq _ F k] r by (simp add: sample_defs)
  then show ?thesis
    using eq r by (auto simp: sample_defs brand_of_def)
qed

text \<open>
  C12. A brand column for which the row has no product shows \<open>-\<close>, unless the brand's
  name is one of the properties every plain object inherits from \<open>Object.prototype\<close>
  (\<open>__proto__\<close> included). The row must have no product of a brand named
  \<open>__proto__\<close>, whose assignment would replace the prototype the lookup reads.
\<close>

theorem home_cell_no_product:
  assumes "home_pivot q ps = Inr (bs, rows)" and "r \<in> set rows"
    and "b \<notin> set object_prototype_names"
    and "\<forall>p \<in> set (filter (home_match_spec q) ps). home_row_key p = g_key r \<longrightarrow> brand_of p \<noteq> b"
    and "\<forall>p \<in> set (filter (home_match_spec q) ps). home_row_key p = g_key r \<longrightarrow> brand_of p \<noteq> ''__proto__''"
  shows "render_price_cell r b tk = Dash"
proof -
  have "pricesByBrand r b = None"
    using assms(4) by (simp add: home_pivot_row_cells(1) [OF assms(1,2)] group_cells_None_iff)
  then show ?thesis
    using assms(3) by (rule render_price_cell_absent)
qed

theorem home_cell_no_product_witness:
  "\<exists>bs r. home_pivot [] [city_kyb, city_monroe] = Inr (bs, [r]) \<and>
     render_price_cell r ''Bilstein'' Price_retail = Dash"
proof -
  obtain bs r where eq: "home_pivot [] [city_kyb, city_monroe] = Inr (bs, [r])"
    using sample_single_row by blast
  have "render_price_cell r ''Bilstein'' Price_retail = Dash"
    by (rule home_cell_no_product [OF eq])
       (auto simp: object_prototype_names_def sample_defs brand_of_def)
  with eq show ?thesis by blast
qed

text \<open>
  C13. \<open>row.pricesByBrand[brandName]\<close> reads through \<open>Object.prototype\<close>: for a
  brand named \<open>constructor\<close> that has no product in a row, the lookup finds the
  inherited function, which is truthy, and the cell shows \<open>N/A\<close> instead of \<open>-\<close>.
\<close>

theorem home_cell_prototype_brand:
  "\<exists>bs r. home_pivot [] [city_kyb, city_monroe] = Inr (bs, [r]) \<and>
     render_price_cell r ''constructor'' Price_retail = NA \<and>
     render_price_cell r ''Bilstein'' Price_retail = Dash"
proof -
  obtain bs r where eq: "home_pivot [] [city_kyb, city_monroe] = Inr (bs, [r])"
    and cells: "pricesByBrand r = group_cells home_row_key (home_row_key city_kyb) [city_kyb, city_monroe]"
    using sample_single_row by blast
  have "pricesByBrand r ''constructor'' = None" and "pricesByBrand r ''Bilstein'' = None"
    by (simp_all add: cells group_cells_None_iff sample_defs brand_of_def)
  then have "render_price_cell r ''constructor'' Price_retail = NA"
    and "render_price_cell r ''Bilstein'' Price_retail = Dash"
    by (simp_all add: render_price_cell_def js_get_def object_prototype_names_def)
  with eq show ?thesis by blast
qed

text \<open>
  C14. The visible tiers are exactly those whose setting is \<open>true\<close>, always in the
  fixed order distributor, agent, workshop, retail, online; a missing or \<open>false\<close>
  setting hides its tier.
\<close>

theorem visible_tiers_fixed_order:
  "map tkey (get_visible_tiers settings) =
     filter (\<lambda>k. settings (tier_setting k) = Some True)
       [Price_distributor, Price_agent, Price_workshop, Price_retail, Price_online]"
  by (simp add: get_visible_tiers_def)

end
