(* ===== verification/Homepage.thy ===== *)
theory Homepage
  imports Price_Matrix
begin

text \<open>
  The homepage component of \<open>src/app/page.tsx\<close> as a state machine. Its state is the
  record of its \<open>useState\<close> hooks. \<open>fetchPublicData\<close> runs once at mount and is
  split at its two \<open>await\<close>s: the settings response and the products response arrive
  as separate events, and the user may type in the search box or switch the view
  between them (the search box and the view toggle are rendered while loading).
  An exception in \<open>processData\<close> ends the fetch before \<open>setLoading(false)\<close>.
\<close>

section \<open>State\<close>

record home_state =
  loading :: bool
  settings :: "string \<rightharpoonup> bool"
  viewMode :: view_mode
  rawProducts :: "product list"
  groupedData :: "pivot_row list"
  activeBrands :: "string list"
  search :: string

definition home_init :: home_state where
  "home_init =
     \<lparr>loading = True, settings = Map.empty, viewMode = Customer, rawProducts = [],
      groupedData = [], activeBrands = [], search = []\<rparr>"

text \<open>A row of \<open>app_settings\<close>.\<close>

record setting_row =
  setting_key :: string
  is_visible :: bool

section \<open>Handlers\<close>

text \<open>\<open>settingsData.forEach(s => settingsMap[s.setting_key] = s.is_visible)\<close>;
  a \<open>null\<close> response leaves the map empty.\<close>

definition settings_map :: "setting_row list option \<Rightarrow> (string \<rightharpoonup> bool)" where
  "settings_map settingsData =
     (case settingsData of
        None \<Rightarrow> Map.empty
      | Some rows \<Rightarrow> fold (\<lambda>r m. m(setting_key r \<mapsto> is_visible r)) rows Map.empty)"

text \<open>\<open>processData(products, query)\<close> with its two state updates: the brand list is
  stored before the grouping runs.\<close>

definition process_data :: "product list \<Rightarrow> string \<Rightarrow> home_state \<Rightarrow> home_state outcome" where
  "process_data products query s =
     (case js_filter (home_matches query) products of
        Inl e \<Rightarrow> Thrown e s
      | Inr filtered \<Rightarrow>
          (case js_map brand_name filtered of
             Inl e \<Rightarrow> Thrown e s
           | Inr names \<Rightarrow>
               (let s1 = s\<lparr>activeBrands := unique_sorted names\<rparr>
                in case js_fold (group_step home_row_key home_new_row) filtered [] of
                     Inl e \<Rightarrow> Thrown e s1
                   | Inr groups \<Rightarrow> Normal (s1\<lparr>groupedData := map snd groups\<rparr>))))"

text \<open>\<open>handleSearch\<close>: the query is lower-cased and stored, then the cached batch is
  pivoted again.\<close>

definition handle_search :: "string \<Rightarrow> home_state \<Rightarrow> home_state outcome" where
  "handle_search value s =
     (let query = to_lower value;
          s1 = s\<lparr>search := query\<rparr>
      in process_data (rawProducts s1) query s1)"

text \<open>The response of the products query: an error, or data (possibly \<open>null\<close>).\<close>

datatype products_response = Products_error | Products_data "product list option"

text \<open>The part of \<open>fetchPublicData\<close> after the products \<open>await\<close>.\<close>

definition products_loaded :: "products_response \<Rightarrow> home_state \<Rightarrow> home_state outcome" where
  "products_loaded resp s =
     (case resp of
        Products_error \<Rightarrow> Normal (s\<lparr>loading := False\<rparr>)
      | Products_data productData \<Rightarrow>
          (let ps = (case productData of None \<Rightarrow> [] | Some ps \<Rightarrow> ps);
               s1 = s\<lparr>rawProducts := ps\<rparr>
           in case process_data ps [] s1 of
                Thrown e s2 \<Rightarrow> Thrown e s2
              | Normal s2 \<Rightarrow> Normal (s2\<lparr>loading := False\<rparr>)))"

section \<open>The page as a state machine\<close>

text \<open>Where \<open>fetchPublicData\<close> stands: waiting for the settings, waiting for the
  products, finished, or ended by an exception.\<close>

datatype fetch_pc = Await_settings | Await_products | Fetch_done | Fetch_failed

type_synonym home_sys = "home_state \<times> fetch_pc"

datatype home_event =
    Settings_loaded "setting_row list option"
  | Products_loaded products_response
  | Search_typed string
  | View_selected view_mode

text \<open>One event; \<open>None\<close> when the event cannot happen in this state (a response the
  fetch is not waiting for). An exception in a user handler leaves the component
  running with the updates made before it.\<close>

fun home_handle :: "home_event \<Rightarrow> home_sys \<Rightarrow> home_sys option" where
  "home_handle (Settings_loaded d) (s, pc) =
     (if pc = Await_settings then Some (s\<lparr>settings := settings_map d\<rparr>, Await_products) else None)"
| "home_handle (Products_loaded r) (s, pc) =
     (if pc = Await_products then
        (case products_loaded r s of
           Normal s' \<Rightarrow> Some (s', Fetch_done)
         | Thrown e s' \<Rightarrow> Some (s', Fetch_failed))
      else None)"
| "home_handle (Search_typed v) (s, pc) = Some (outcome_state (handle_search v s), pc)"
| "home_handle (View_selected m) (s, pc) = Some (s\<lparr>viewMode := m\<rparr>, pc)"

text \<open>Mounting starts the fetch (\<open>setLoading(true)\<close>, then the settings query).\<close>

definition home_start :: home_sys where
  "home_start = (home_init\<lparr>loading := True\<rparr>, Await_settings)"

inductive home_reachable :: "home_sys \<Rightarrow> bool" where
  start: "home_reachable home_start"
| step: "home_reachable x \<Longrightarrow> home_handle e x = Some y \<Longrightarrow> home_reachable y"

fun home_run :: "home_event list \<Rightarrow> home_sys \<Rightarrow> home_sys option" where
  "home_run [] x = Some x"
| "home_run (e # es) x = (case home_handle e x of None \<Rightarrow> None | Some y \<Rightarrow> home_run es y)"

text \<open>What the page renders in its main area.\<close>

definition home_view :: "home_state \<Rightarrow> main_view" where
  "home_view s =
     render_main (loading s) (search s) (viewMode s) (activeBrands s)
       (get_visible_tiers (settings s)) (groupedData s)"

section \<open>Lemmas\<close>

lemmas pivot_eval = home_pivot_def pivot_batch_def home_matches_def brand_name_def
  to_lower_def lower_char_def char_eval unique_sorted_def js_set_values_def group_step_def
  obj_has_def obj_modify_def home_new_row_def home_row_key_def Let_def

lemma js_map_Inr_all: "js_map f xs = Inr ys \<Longrightarrow> \<forall>x \<in> set xs. \<exists>y. f x = Inr y"
proof (induction xs arbitrary: ys)
  case Nil
  then show ?case by simp
next
  case (Cons x xs)
  then show ?case by (auto split: sum.splits)
qed

lemma group_fold_total:
  "wf_batch xs \<Longrightarrow> \<exists>g. js_fold (group_step key_of new_row) xs acc = Inr g"
proof (induction xs arbitrary: acc)
  case Nil
  then show ?case by simp
next
  case (Cons x xs)
  then obtain n where "brands x = Some n" by auto
  then show ?case
    using Cons by (simp add: group_step_def brand_name_def Let_def)
qed

lemma brand_names_fold_total:
  "js_map brand_name xs = Inr names \<Longrightarrow> \<exists>g. js_fold (group_step key_of new_row) xs acc = Inr g"
proof -
  assume "js_map brand_name xs = Inr names"
  then have "wf_batch xs"
    by (auto simp: wf_batch_def list_all_iff brand_name_def dest!: js_map_Inr_all
             split: option.splits)
  then show ?thesis by (rule group_fold_total)
qed

text \<open>\<open>processData\<close> stores the homepage pivot, or throws and changes nothing: the
  grouping cannot throw once the brand list was built.\<close>

lemma process_data_eq:
  "process_data ps q s =
     (case home_pivot q ps of
        Inl e \<Rightarrow> Thrown e s
      | Inr (bs, rows) \<Rightarrow> Normal (s\<lparr>activeBrands := bs, groupedData := rows\<rparr>))"
proof (cases "js_filter (home_matches q) ps")
  case (Inl e)
  then show ?thesis by (simp add: process_data_def home_pivot_def pivot_batch_def)
next
  case (Inr filtered)
  show ?thesis
  proof (cases "js_map brand_name filtered")
    case (Inl e)
    with Inr show ?thesis by (simp add: process_data_def home_pivot_def pivot_batch_def)
  next
    case (Inr names)
    then obtain g where "js_fold (group_step home_row_key home_new_row) filtered [] = Inr g"
      using brand_names_fold_total by blast
    with Inr \<open>js_filter (home_matches q) ps = Inr filtered\<close> show ?thesis
      by (simp add: process_data_def home_pivot_def pivot_batch_def)
  qed
qed

lemma home_pivot_Nil: "home_pivot q [] = Inr ([], [])"
  by (simp add: home_pivot_def pivot_batch_def unique_sorted_def)

lemma outcome_state_process_data:
  "outcome_state (process_data ps q s) =
     (case home_pivot q ps of
        Inl e \<Rightarrow> s
      | Inr (bs, rows) \<Rightarrow> s\<lparr>activeBrands := bs, groupedData := rows\<rparr>)"
  by (simp add: process_data_eq split: sum.split prod.split)

text \<open>The invariant of the page: the loading screen stays exactly until the fetch has
  finished, and the stored brands and rows are always one pivot of some batch.\<close>

lemma home_reachable_inv:
  "home_reachable x \<Longrightarrow>
     (loading (fst x) \<longleftrightarrow> snd x \<noteq> Fetch_done) \<and>
     (\<exists>q ps. home_pivot q ps = Inr (activeBrands (fst x), groupedData (fst x)))"
proof (induction rule: home_reachable.induct)
  case start
  then show ?case by (auto simp: home_start_def home_init_def intro: home_pivot_Nil)
next
  case (step x e y)
  obtain s pc where x: "x = (s, pc)" by fastforce
  from step.IH x have load: "loading s \<longleftrightarrow> pc \<noteq> Fetch_done"
    and piv: "\<exists>q ps. home_pivot q ps = Inr (activeBrands s, groupedData s)" by auto
  show ?case
  proof (cases e)
    case (Settings_loaded d)
    with step.hyps(2) x load piv show ?thesis by (fastforce split: if_splits)
  next
    case (Products_loaded r)
    with step.hyps(2) x have pc: "pc = Await_products" by (simp split: if_splits)
    show ?thesis
    proof (cases r)
      case Products_error
      with Products_loaded step.hyps(2) x pc piv show ?thesis
        by (fastforce simp: products_loaded_def)
    next
      case (Products_data d)
      with Products_loaded step.hyps(2) x pc load piv show ?thesis
        by (auto simp: products_loaded_def process_data_eq Let_def
                 split: sum.splits prod.splits) blast+
    qed
  next
    case (Search_typed v)
    with step.hyps(2) x load piv show ?thesis
      by (auto simp: handle_search_def outcome_state_process_data Let_def
               split: sum.splits prod.splits) blast+
  next
    case (View_selected m)
    with step.hyps(2) x load piv show ?thesis by fastforce
  qed
qed

lemma home_run_reachable:
  "home_reachable x \<Longrightarrow> home_run es x = Some y \<Longrightarrow> home_reachable y"
proof (induction es arbitrary: x)
  case Nil
  then show ?case by simp
next
  case (Cons e es)
  then obtain x' where "home_handle e x = Some x'" and "home_run es x' = Some y"
    by (auto split: option.splits)
  with Cons show ?case by (blast intro: home_reachable.step)
qed

lemma home_failed_stays:
  "home_run es (s, Fetch_failed) = Some (s', pc') \<Longrightarrow> pc' = Fetch_failed"
proof (induction es arbitrary: s)
  case Nil
  then show ?case by simp
next
  case (Cons e es)
  then show ?case by (cases e) (auto split: option.splits)
qed

lemma home_pivot_rows_brands:
  assumes "home_pivot q ps = Inr (bs, rows)" and "rows \<noteq> []"
  shows "bs \<noteq> []"
proof -
  let ?F = "filter (home_match_spec q) ps"
  have "?F \<noteq> []"
    using assms(2) home_pivot_Inr_spec(2) [OF assms(1)] by (auto simp: spec_groups_def)
  then have "brand_of ` set ?F \<noteq> {}" by (simp del: set_filter)
  then show ?thesis
    using home_pivot_Inr_spec(1) [OF assms(1)] by simp
qed

lemmas home_run_eval = home_start_def home_init_def handle_search_def products_loaded_def
  process_data_eq pivot_eval sample_defs home_view_def render_main_def

section \<open>Claims\<close>

text \<open>
  C15. In every reachable state of the page the loading screen is shown exactly while
  the fetch has not finished; after an exception in the fetch it is shown forever.
\<close>

theorem home_loading_invariant:
  "home_reachable (s, pc) \<Longrightarrow> loading s \<longleftrightarrow> pc \<noteq> Fetch_done"
  using home_reachable_inv [of "(s, pc)"] by simp

theorem home_loading_invariant_witness:
  "home_reachable (home_init, Await_settings) \<and> loading home_init"
proof -
  have r: "home_reachable (home_init, Await_settings)"
    using home_reachable.start by (simp add: home_start_def home_init_def)
  then show ?thesis
    using home_loading_invariant [OF r] by simp
qed

text \<open>
  C16. Whenever the page shows the matrix, the fetch has finished and there is at least
  one row and at least one brand column, so every tier group of the customer view spans
  at least one column.
\<close>

theorem home_matrix_has_brands:
  assumes "home_reachable (s, pc)" and "home_view s = Matrix h1 h2 body"
  shows "pc = Fetch_done \<and> groupedData s \<noteq> [] \<and> activeBrands s \<noteq> []"
proof -
  from assms(2) have "\<not> loading s" and rows: "groupedData s \<noteq> []"
    by (auto simp: home_view_def render_main_def split: if_splits)
  moreover obtain q ps where "home_pivot q ps = Inr (activeBrands s, groupedData s)"
    using home_reachable_inv [OF assms(1)] by auto
  ultimately show ?thesis
    using home_reachable_inv [OF assms(1)] home_pivot_rows_brands by auto
qed

theorem home_matrix_has_brands_witness:
  "\<exists>s h1 h2 body. home_run [Settings_loaded None, Products_loaded (Products_data (Some [city_kyb]))]
       home_start = Some (s, Fetch_done) \<and> home_view s = Matrix h1 h2 body \<and>
     groupedData s \<noteq> [] \<and> activeBrands s \<noteq> []"
proof -
  obtain s where run: "home_run [Settings_loaded None, Products_loaded (Products_data (Some [city_kyb]))]
      home_start = Some (s, Fetch_done)" and v: "\<exists>h1 h2 body. home_view s = Matrix h1 h2 body"
    by (simp add: home_run_eval)
  have r: "home_reachable (s, Fetch_done)"
    using home_run_reachable [OF home_reachable.start run] .
  from v obtain h1 h2 body where v': "home_view s = Matrix h1 h2 body" by blast
  show ?thesis
    using run v' home_matrix_has_brands [OF r v'] by blast
qed

text \<open>
  C17. One product whose brand join is \<open>null\<close> makes the fetch throw inside
  \<open>processData\<close>: \<open>setLoading(false)\<close> is never reached and the page shows
  \<open>Loading...\<close> whatever the user does afterwards.
\<close>

theorem home_null_brand_stuck:
  "\<exists>s. home_run [Settings_loaded None, Products_loaded (Products_data (Some [city_kyb, orphan]))]
         home_start = Some (s, Fetch_failed) \<and>
       (\<forall>es y. home_run es (s, Fetch_failed) = Some y \<longrightarrow> home_view (fst y) = Loading_screen)"
proof -
  obtain s where run: "home_run [Settings_loaded None, Products_loaded (Products_data (Some [city_kyb, orphan]))]
      home_start = Some (s, Fetch_failed)"
    by (simp add: home_run_eval)
  have r: "home_reachable (s, Fetch_failed)"
    using home_run_reachable [OF home_reachable.start run] .
  have "home_view (fst y) = Loading_screen" if y: "home_run es (s, Fetch_failed) = Some y" for es y
  proof -
    obtain s' pc' where y': "y = (s', pc')" by fastforce
    with y have "pc' = Fetch_failed" by (simp add: home_failed_stays)
    moreover have "home_reachable (s', pc')"
      using home_run_reachable [OF r] y y' by simp
    ultimately have "loading s'"
      using home_reachable_inv [of "(s', pc')"] by simp
    with y' show ?thesis by (simp add: home_view_def render_main_def)
  qed
  with run show ?thesis by blast
qed

theorem home_null_brand_stuck_witness:
  "\<exists>s. home_run [Settings_loaded None, Products_loaded (Products_data (Some [city_kyb, orphan]))]
         home_start = Some (s, Fetch_failed) \<and>
       (\<exists>y. home_run [Search_typed ''city''] (s, Fetch_failed) = Some y \<and>
            home_view (fst y) = Loading_screen)"
proof -
  obtain s where run: "home_run [Settings_loaded None, Products_loaded (Products_data (Some [city_kyb, orphan]))]
      home_start = Some (s, Fetch_failed)"
    and stuck: "\<forall>es y. home_run es (s, Fetch_failed) = Some y \<longrightarrow> home_view (fst y) = Loading_screen"
    using home_null_brand_stuck by blast
  obtain y where "home_run [Search_typed ''city''] (s, Fetch_failed) = Some y"
    by simp
  with run stuck show ?thesis by blast
qed

text \<open>
  C18. A search on a batch whose products all have their brand never throws: it stores
  the lower-cased query and shows exactly the pivot of the cached batch for it.
\<close>

theorem home_search_consistent:
  "wf_batch (rawProducts s) \<Longrightarrow>
     \<exists>s'. handle_search v s = Normal s' \<and> search s' = to_lower v \<and>
          rawProducts s' = rawProducts s \<and>
          home_pivot (search s') (rawProducts s') = Inr (activeBrands s', groupedData s')"
proof -
  assume wf: "wf_batch (rawProducts s)"
  obtain bs rows where eq: "home_pivot (to_lower v) (rawProducts s) = Inr (bs, rows)"
    using home_pivot_wf_Inr [OF wf] by blast
  then show ?thesis
    by (simp add: handle_search_def process_data_eq Let_def)
qed

theorem home_search_consistent_witness:
  "wf_batch (rawProducts (home_init\<lparr>rawProducts := [city_kyb, city_monroe]\<rparr>)) \<and>
   (\<exists>s'. handle_search ''KYB'' (home_init\<lparr>rawProducts := [city_kyb, city_monroe]\<rparr>) = Normal s' \<and>
        search s' = ''kyb'' \<and>
        home_pivot (search s') (rawProducts s') = Inr (activeBrands s', groupedData s'))"
proof -
  have wf: "wf_batch (rawProducts (home_init\<lparr>rawProducts := [city_kyb, city_monroe]\<rparr>))"
    by (simp add: sample_defs)
  have low: "to_lower ''KYB'' = ''kyb''"
    by (simp add: to_lower_def lower_char_def char_eval)
  show ?thesis
    using wf home_search_consistent [OF wf, of "''KYB''"] low by auto
qed

text \<open>
  C19. A search typed while the fetch is still running is overwritten when the
  products arrive: \<open>processData(productData, '')\<close> ignores the stored query, so the
  page shows the unfiltered matrix under a non-empty search box.
\<close>

theorem home_search_during_fetch_lost:
  "\<exists>s. home_run [Search_typed ''Monroe'', Settings_loaded None,
                  Products_loaded (Products_data (Some [city_kyb, city_monroe]))] home_start =
         Some (s, Fetch_done) \<and>
       search s = ''monroe'' \<and> activeBrands s = [''KYB'', ''Monroe''] \<and>
       home_pivot (search s) (rawProducts s) \<noteq> Inr (activeBrands s, groupedData s)"
  by (simp add: home_run_eval)

end
