(* ===== verification/Print_View.thy ===== *)
theory Print_View
  imports Homepage
begin

text \<open>
  The admin print view, \<open>src/app/admin/print/page.js\<close>: the same fetch, search and
  pivot as the homepage (with the print filter and the print row key of \<open>Pivot\<close>),
  and a fixed two-column layout per brand: distributor cost and retail price.
\<close>

section \<open>State and handlers\<close>

record sheet_state =
  p_loading :: bool
  p_groupedData :: "pivot_row list"
  p_activeBrands :: "string list"
  p_rawProducts :: "product list"
  p_search :: string
  p_printDate :: string

definition print_init :: sheet_state where
  "print_init =
     \<lparr>p_loading = True, p_groupedData = [], p_activeBrands = [], p_rawProducts = [],
      p_search = [], p_printDate = []\<rparr>"

text \<open>\<open>processData\<close> of the print view (lines 43-69).\<close>

definition print_process_data :: "product list \<Rightarrow> string \<Rightarrow> sheet_state \<Rightarrow> sheet_state outcome" where
  "print_process_data products query s =
     (case js_filter (print_matches query) products of
        Inl e \<Rightarrow> Thrown e s
      | Inr filtered \<Rightarrow>
          (case js_map brand_name filtered of
             Inl e \<Rightarrow> Thrown e s
           | Inr names \<Rightarrow>
               (let s1 = s\<lparr>p_activeBrands := unique_sorted names\<rparr>
                in case js_fold (group_step print_row_key print_new_row) filtered [] of
                     Inl e \<Rightarrow> Thrown e s1
                   | Inr groups \<Rightarrow> Normal (s1\<lparr>p_groupedData := map snd groups\<rparr>))))"

text \<open>\<open>handleSearch\<close> (lines 37-41).\<close>

definition print_handle_search :: "string \<Rightarrow> sheet_state \<Rightarrow> sheet_state outcome" where
  "print_handle_search value s =
     (let query = to_lower value;
          s1 = s\<lparr>p_search := query\<rparr>
      in print_process_data (p_rawProducts s1) query s1)"

text \<open>\<open>fetchData\<close> after its \<open>await\<close> (lines 29-34).\<close>

definition print_fetch_loaded :: "products_response \<Rightarrow> sheet_state \<Rightarrow> sheet_state outcome" where
  "print_fetch_loaded resp s =
     (case resp of
        Products_error \<Rightarrow> Normal (s\<lparr>p_loading := False\<rparr>)
      | Products_data data \<Rightarrow>
          (let ps = (case data of None \<Rightarrow> [] | Some ps \<Rightarrow> ps);
               s1 = s\<lparr>p_rawProducts := ps\<rparr>
           in case print_process_data ps [] s1 of
                Thrown e s2 \<Rightarrow> Thrown e s2
              | Normal s2 \<Rightarrow> Normal (s2\<lparr>p_loading := False\<rparr>)))"

section \<open>The printed table\<close>

text \<open>\<open>renderCell\<close> (lines 76-82): \<open>-\<close> for a missing, zero or \<open>null\<close> amount.\<close>

datatype print_cell = Blank | Figure rat

definition render_cell :: "pivot_row \<Rightarrow> string \<Rightarrow> tier_key \<Rightarrow> print_cell" where
  "render_cell row brand field =
     (let val = (case js_get (pricesByBrand row) brand of
                   Own (Some priceData) \<Rightarrow> price_field priceData field
                 | Own None \<Rightarrow> Some 0
                 | Undefined \<Rightarrow> Some 0
                 | Inherited \<Rightarrow> None)
      in case val of None \<Rightarrow> Blank | Some v \<Rightarrow> if v = 0 then Blank else Figure v)"

text \<open>The cells of one body row (lines 151-157): cost and RRP side by side per brand.\<close>

definition print_row_cells :: "string list \<Rightarrow> pivot_row \<Rightarrow> print_cell list" where
  "print_row_cells active row =
     concat (map (\<lambda>b. [render_cell row b Price_distributor, render_cell row b Price_retail])
               active)"

text \<open>Header rows (lines 127-140).\<close>

definition print_header1 :: "string list \<Rightarrow> (string \<times> nat) list" where
  "print_header1 active = map (\<lambda>b. (b, 2)) active"

definition print_header2 :: "string list \<Rightarrow> string list" where
  "print_header2 active = concat (map (\<lambda>b. [''Cost'', ''RRP'']) active)"

datatype print_area = Generating | Price_list "(string \<times> nat) list" "string list" "(pivot_row \<times> print_cell list) list"

definition print_view :: "sheet_state \<Rightarrow> print_area" where
  "print_view s =
     (if p_loading s then Generating
      else Price_list (print_header1 (p_activeBrands s)) (print_header2 (p_activeBrands s))
             (map (\<lambda>row. (row, print_row_cells (p_activeBrands s) row)) (p_groupedData s)))"

section \<open>Lemmas\<close>

lemma print_process_data_eq:
  "print_process_data ps q s =
     (case print_pivot q ps of
        Inl e \<Rightarrow> Thrown e s
      | Inr (bs, rows) \<Rightarrow> Normal (s\<lparr>p_activeBrands := bs, p_groupedData := rows\<rparr>))"
proof (cases "js_filter (print_matches q) ps")
  case (Inl e)
  then show ?thesis by (simp add: print_process_data_def print_pivot_def pivot_batch_def)
next
  case (Inr filtered)
  show ?thesis
  proof (cases "js_map brand_name filtered")
    case (Inl e)
    with Inr show ?thesis by (simp add: print_process_data_def print_pivot_def pivot_batch_def)
  next
    case (Inr names)
    then obtain g where "js_fold (group_step print_row_key print_new_row) filtered [] = Inr g"
      using brand_names_fold_total by blast
    with Inr \<open>js_filter (print_matches q) ps = Inr filtered\<close> show ?thesis
      by (simp add: print_process_data_def print_pivot_def pivot_batch_def)
  qed
qed

lemma print_pivot_spec:
  "wf_batch ps \<Longrightarrow>
     print_pivot q ps = Inr (pivot_spec (print_match_spec q) print_row_key print_new_row ps)"
  unfolding print_pivot_def
  by (rule pivot_batch_refines)
     (auto simp: wf_batch_def list_all_iff intro: print_matches_spec)

lemma print_row_cells_grid:
  "print_row_cells bs r = concat (map (\<lambda>b. map (render_cell r b) [Price_distributor, Price_retail]) bs)"
  by (simp add: print_row_cells_def)

lemmas print_eval = print_pivot_def pivot_batch_def print_matches_def brand_name_def
  to_lower_def lower_char_def char_eval unique_sorted_def js_set_values_def group_step_def
  obj_has_def obj_modify_def print_new_row_def print_row_key_def Let_def

section \<open>Claims\<close>

text \<open>
  C20. On a batch in which every product has its brand, the print view's pivot returns
  the abstract pivot of the batch filtered by make, model and brand, with rows keyed
  by make, model, variant and position.
\<close>

theorem print_pivot_refines:
  "wf_batch ps \<Longrightarrow>
     print_pivot q ps = Inr (pivot_spec (print_match_spec q) print_row_key print_new_row ps)"
  by (rule print_pivot_spec)

theorem print_pivot_refines_witness:
  "wf_batch [city_kyb, city_monroe] \<and>
   print_pivot ''kyb'' [city_kyb, city_monroe] =
     Inr (pivot_spec (print_match_spec ''kyb'') print_row_key print_new_row [city_kyb, city_monroe])"
  using print_pivot_refines [of "[city_kyb, city_monroe]" "''kyb''"] by (simp add: sample_defs)

text \<open>
  C21. The printed sheet and the homepage agree on amounts: a printed cell shows an
  amount exactly when the homepage cell of the same row, brand and tier shows it, and
  it is blank exactly when the homepage shows \<open>-\<close> or \<open>N/A\<close>.
\<close>

theorem print_cell_agrees:
  "(render_cell r b f = Figure v \<longleftrightarrow> render_price_cell r b f = Amount v (f = Price_retail)) \<and>
   (render_cell r b f = Blank \<longleftrightarrow> render_price_cell r b f = Dash \<or> render_price_cell r b f = NA)"
  by (auto simp: render_cell_def render_price_cell_def Let_def
           split: js_prop.splits option.splits if_splits)

text \<open>
  C22. The print view's filter does not search part numbers: a product found on the
  homepage by its part number is not found by the same query in the print view.
\<close>

theorem print_filter_ignores_part_number:
  "home_matches ''333'' city_kyb_pn = Inr True \<and> print_matches ''333'' city_kyb_pn = Inr False"
  by (simp add: home_matches_def print_matches_def brand_name_def sample_defs
                to_lower_def lower_char_def char_eval)

text \<open>
  C23. The print row key omits the category: a shock absorber and a coil spring of the
  same brand for the same vehicle, variant and position are one row on the printed
  sheet, whose cell shows only the price of the later product, while the homepage
  keeps two rows.
\<close>

theorem print_rows_merge_categories:
  "(\<exists>bs r1 r2. home_pivot [] [city_kyb, city_kyb_spring] = Inr (bs, [r1, r2])) \<and>
   (\<exists>bs r. print_pivot [] [city_kyb, city_kyb_spring] = Inr (bs, [r]) \<and>
      pricesByBrand r ''KYB'' = Some (Some (retail_only 300)))"
  by (simp add: pivot_eval print_eval sample_defs)

text \<open>
  C24. Layout of the printed sheet: each brand heads two columns, header row 2 has a
  label per data cell, and the cells of brand \<open>i\<close> are its distributor cost under
  ``Cost'' and its retail price under ``RRP''.
\<close>

theorem print_layout:
  "length (print_header2 bs) = length (print_row_cells bs r) \<and>
   sum_list (map snd (print_header1 bs)) = length (print_row_cells bs r) \<and>
   (\<forall>i < length bs.
      print_row_cells bs r ! (i * 2) = render_cell r (bs ! i) Price_distributor \<and>
      print_row_cells bs r ! (i * 2 + 1) = render_cell r (bs ! i) Price_retail \<and>
      print_header2 bs ! (i * 2) = ''Cost'' \<and> print_header2 bs ! (i * 2 + 1) = ''RRP'')"
proof -
  have h2: "print_header2 bs = concat (map (\<lambda>b. map (\<lambda>t. t) [''Cost'', ''RRP'']) bs)"
    by (simp add: print_header2_def)
  have cells: "i < length bs \<Longrightarrow>
      print_row_cells bs r ! (i * 2) = render_cell r (bs ! i) Price_distributor \<and>
      print_row_cells bs r ! (i * 2 + 1) = render_cell r (bs ! i) Price_retail" for i
    using nth_concat_map_grid [of i bs 0 "[Price_distributor, Price_retail]" "\<lambda>b. render_cell r b"]
          nth_concat_map_grid [of i bs 1 "[Price_distributor, Price_retail]" "\<lambda>b. render_cell r b"]
    by (simp add: print_row_cells_grid mult_2_right)
  have heads: "i < length bs \<Longrightarrow>
      print_header2 bs ! (i * 2) = ''Cost'' \<and> print_header2 bs ! (i * 2 + 1) = ''RRP''" for i
    using nth_concat_map_grid [of i bs 0 "[''Cost'', ''RRP'']" "\<lambda>b t. t"]
          nth_concat_map_grid [of i bs 1 "[''Cost'', ''RRP'']" "\<lambda>b t. t"]
    by (simp only: h2) (simp add: mult_2_right)
  have "length (print_header2 bs) = 2 * length bs"
    and "sum_list (map snd (print_header1 bs)) = 2 * length bs"
    and "length (print_row_cells bs r) = 2 * length bs"
    by (simp_all add: print_header2_def print_header1_def print_row_cells_def length_concat
                      comp_def sum_list_map_const)
  with cells heads show ?thesis by simp
qed

theorem print_layout_witness:
  "length (print_header2 [''KYB'']) = length (print_row_cells [''KYB''] (print_new_row [] city_kyb)) \<and>
   print_row_cells [''KYB''] (print_new_row [] city_kyb) ! 0 = render_cell (print_new_row [] city_kyb) ''KYB'' Price_distributor \<and>
   print_header2 [''KYB''] ! 1 = ''RRP''"
  using print_layout [of "[''KYB'']" "print_new_row [] city_kyb"] by auto

end
