(* ===== verification/Admin_Products.thy ===== *)
theory Admin_Products
  imports JS_String
begin

text \<open>
  The product manager of \<open>src/app/admin/products/page.js\<close>. The page state is the
  record of its \<open>useState\<close> hooks. Every \<open>await\<close> of the page is a request in
  flight: the database executes the requests in any order, and their answers come
  back to the page in any order, each one running the code after its \<open>await\<close>.
  The database is modelled only as far as the page observes it (the products
  table newest first, the brands table, the next id); it is not code of the
  repository.
\<close>

section \<open>Data\<close>

text \<open>\<open>formData\<close>: the columns of a product the form writes.\<close>

record product_form =
  brand_id :: string
  f_car_make :: string
  f_car_model :: string
  f_product_variant :: string
  f_category :: string
  f_position :: string
  f_part_number :: string

definition form_init :: product_form where
  "form_init =
     \<lparr>brand_id = [], f_car_make = [], f_car_model = [], f_product_variant = [],
      f_category = ''Shock Absorber'', f_position = ''Front (2 pcs)'', f_part_number = []\<rparr>"

record brand_row =
  brand_row_id :: string
  brand_row_name :: string

record db_product =
  product_id :: nat
  product_row :: product_form

text \<open>A row of \<open>select(`*, brands (name)`)\<close>: the product and the name of its brand,
  \<open>null\<close> when no brand has its \<open>brand_id\<close>.\<close>

record listed_product =
  lp_product :: db_product
  lp_brand :: "string option"

record suggestion_lists =
  makes :: "string list"
  models :: "string list"
  variants :: "string list"

record products_page =
  pp_products :: "listed_product list"
  pp_brands :: "brand_row list"
  pp_loading :: bool
  pp_submitting :: bool
  pp_suggestions :: suggestion_lists
  formData :: product_form

definition products_page_init :: products_page where
  "products_page_init =
     \<lparr>pp_products = [], pp_brands = [], pp_loading = True, pp_submitting = False,
      pp_suggestions = \<lparr>makes = [], models = [], variants = []\<rparr>, formData = form_init\<rparr>"

section \<open>Form logic\<close>

text \<open>\<open>extractSuggestions\<close>: \<open>[...new Set(data.map(p => p.car_make))].sort()\<close>, and
  the same for models and variants.\<close>

definition extract_suggestions :: "listed_product list \<Rightarrow> suggestion_lists" where
  "extract_suggestions data =
     \<lparr>makes = unique_sorted (map (\<lambda>p. f_car_make (product_row (lp_product p))) data),
      models = unique_sorted (map (\<lambda>p. f_car_model (product_row (lp_product p))) data),
      variants = unique_sorted (map (\<lambda>p. f_product_variant (product_row (lp_product p))) data)\<rparr>"

text \<open>\<open>handleCategoryChange\<close>.\<close>

definition handle_category_change :: "string \<Rightarrow> product_form \<Rightarrow> product_form" where
  "handle_category_change newCategory fd =
     (let newPosition = (if newCategory = ''Coil Spring'' then ''Carset (4 pcs)'' else ''Front (2 pcs)'')
      in fd\<lparr>f_category := newCategory, f_position := newPosition\<rparr>)"

text \<open>The options of the category select and of the position select, which depend on
  the category.\<close>

definition category_options :: "string list" where
  "category_options = [''Shock Absorber'', ''Coil Spring'']"

definition position_options :: "string \<Rightarrow> string list" where
  "position_options category =
     (if category = ''Shock Absorber'' then [''Front (2 pcs)'', ''Rear (2 pcs)'', ''Full Set (4 pcs)'']
      else [''Carset (4 pcs)''])"

text \<open>The \<open>required\<close> attributes of the brand select and the make, model and variant
  inputs: the browser submits the form only when none of them is the empty string.\<close>

definition form_valid :: "product_form \<Rightarrow> bool" where
  "form_valid fd =
     (brand_id fd \<noteq> [] \<and> f_car_make fd \<noteq> [] \<and> f_car_model fd \<noteq> [] \<and> f_product_variant fd \<noteq> [])"

text \<open>\<open>cleanData\<close> of \<open>handleSubmit\<close>.\<close>

definition clean_data :: "product_form \<Rightarrow> product_form" where
  "clean_data fd =
     fd\<lparr>f_car_make := js_trim (f_car_make fd), f_car_model := js_trim (f_car_model fd),
        f_product_variant := js_trim (f_product_variant fd)\<rparr>"

text \<open>The form kept after a successful insert (\<open>setFormData\<close> in \<open>handleSubmit\<close>).\<close>

definition form_after_insert :: "product_form \<Rightarrow> product_form" where
  "form_after_insert fd = fd\<lparr>f_position := ''Front (2 pcs)'', f_part_number := []\<rparr>"

section \<open>Requests and the database\<close>

text \<open>An insert carries the row sent and the \<open>formData\<close> its handler closed over.\<close>

datatype request =
    Get_brands
  | Get_products
  | Insert_product product_form product_form
  | Delete_product nat

datatype reply =
    Brands_reply "brand_row list option"
  | Products_reply "listed_product list option"
  | Write_reply "string option"

record products_db =
  db_products :: "db_product list"
  db_brands :: "brand_row list"
  db_next :: nat

definition list_product :: "products_db \<Rightarrow> db_product \<Rightarrow> listed_product" where
  "list_product db p =
     \<lparr>lp_product = p,
      lp_brand = map_option brand_row_name
        (find (\<lambda>b. brand_row_id b = brand_id (product_row p)) (db_brands db))\<rparr>"

text \<open>The database executing a request; \<open>Some msg\<close> is an error it reports.\<close>

fun server_exec :: "request \<Rightarrow> string option \<Rightarrow> products_db \<Rightarrow> reply \<times> products_db" where
  "server_exec Get_brands err db =
     (Brands_reply (if err = None then Some (sort_key brand_row_name (db_brands db)) else None), db)"
| "server_exec Get_products err db =
     (Products_reply (if err = None then Some (map (list_product db) (db_products db)) else None), db)"
| "server_exec (Insert_product row fd) err db =
     (case err of
        None \<Rightarrow> (Write_reply None,
                 db\<lparr>db_products := \<lparr>product_id = db_next db, product_row = row\<rparr> # db_products db,
                    db_next := Suc (db_next db)\<rparr>)
      | Some msg \<Rightarrow> (Write_reply (Some msg), db))"
| "server_exec (Delete_product i) err db =
     (case err of
        None \<Rightarrow> (Write_reply None, db\<lparr>db_products := filter (\<lambda>p. product_id p \<noteq> i) (db_products db)\<rparr>)
      | Some msg \<Rightarrow> (Write_reply (Some msg), db))"

section \<open>The page as a state machine\<close>

record products_sys =
  page :: products_page
  pending :: "(request \<times> reply option) list"
  server :: products_db
  alerts :: "string list"

definition update_form :: "(product_form \<Rightarrow> product_form) \<Rightarrow> products_sys \<Rightarrow> products_sys" where
  "update_form f S = S\<lparr>page := (page S)\<lparr>formData := f (formData (page S))\<rparr>\<rparr>"

text \<open>\<open>fetchData\<close> up to its first \<open>await\<close>: \<open>setLoading(true)\<close> and the brands query.\<close>

definition fetch_data :: "products_sys \<Rightarrow> products_sys" where
  "fetch_data S = S\<lparr>page := (page S)\<lparr>pp_loading := True\<rparr>, pending := pending S @ [(Get_brands, None)]\<rparr>"

text \<open>The code after each \<open>await\<close>, run when the answer arrives: the rest of
  \<open>fetchData\<close> after the brands and after the products query, of \<open>handleSubmit\<close>
  after the insert, and of \<open>handleDelete\<close> after the delete.\<close>

fun deliver :: "request \<Rightarrow> reply \<Rightarrow> products_sys \<Rightarrow> products_sys option" where
  "deliver Get_brands (Brands_reply brandData) S =
     Some (S\<lparr>page := (case brandData of None \<Rightarrow> page S | Some bs \<Rightarrow> (page S)\<lparr>pp_brands := bs\<rparr>),
             pending := pending S @ [(Get_products, None)]\<rparr>)"
| "deliver Get_products (Products_reply productData) S =
     Some (S\<lparr>page := (case productData of
                        None \<Rightarrow> page S
                      | Some ps \<Rightarrow> (page S)\<lparr>pp_products := ps, pp_suggestions := extract_suggestions ps\<rparr>)
                     \<lparr>pp_loading := False\<rparr>\<rparr>)"
| "deliver (Insert_product row fd) (Write_reply err) S =
     (case err of
        Some msg \<Rightarrow>
          Some (S\<lparr>alerts := alerts S @ [''Error adding product: '' @ msg],
                  page := (page S)\<lparr>pp_submitting := False\<rparr>\<rparr>)
      | None \<Rightarrow>
          (let S1 = fetch_data (update_form (\<lambda>_. form_after_insert fd) S)
           in Some (S1\<lparr>page := (page S1)\<lparr>pp_submitting := False\<rparr>\<rparr>)))"
| "deliver (Delete_product i) (Write_reply err) S =
     (case err of
        Some msg \<Rightarrow> Some (S\<lparr>alerts := alerts S @ [msg]\<rparr>)
      | None \<Rightarrow> Some (fetch_data S))"
| "deliver _ _ S = None"

datatype products_event =
    Brand_selected string
  | Make_typed string
  | Model_typed string
  | Variant_typed string
  | Category_selected string
  | Position_selected string
  | Part_number_typed string
  | Submit
  | Delete_clicked nat bool
  | Server_exec nat "string option"
  | Deliver nat

text \<open>One event; \<open>None\<close> when it cannot happen: a select offers only its options, a
  Delete button exists only on a row of the loaded table, and only a request in
  flight is executed or answered. \<open>Delete_clicked i ok\<close> carries the answer to
  \<open>confirm\<close>; a submit while \<open>submitting\<close> (the button disabled) or of a form the
  browser rejects does nothing.\<close>

fun products_handle :: "products_event \<Rightarrow> products_sys \<Rightarrow> products_sys option" where
  "products_handle (Brand_selected v) S =
     (if v = [] \<or> v \<in> set (map brand_row_id (pp_brands (page S)))
      then Some (update_form (\<lambda>fd. fd\<lparr>brand_id := v\<rparr>) S) else None)"
| "products_handle (Make_typed v) S = Some (update_form (\<lambda>fd. fd\<lparr>f_car_make := v\<rparr>) S)"
| "products_handle (Model_typed v) S = Some (update_form (\<lambda>fd. fd\<lparr>f_car_model := v\<rparr>) S)"
| "products_handle (Variant_typed v) S = Some (update_form (\<lambda>fd. fd\<lparr>f_product_variant := v\<rparr>) S)"
| "products_handle (Category_selected v) S =
     (if v \<in> set category_options then Some (update_form (handle_category_change v) S) else None)"
| "products_handle (Position_selected v) S =
     (if v \<in> set (position_options (f_category (formData (page S))))
      then Some (update_form (\<lambda>fd. fd\<lparr>f_position := v\<rparr>) S) else None)"
| "products_handle (Part_number_typed v) S = Some (update_form (\<lambda>fd. fd\<lparr>f_part_number := v\<rparr>) S)"
| "products_handle Submit S =
     (let fd = formData (page S)
      in if pp_submitting (page S) \<or> \<not> form_valid fd then Some S
         else Some (S\<lparr>page := (page S)\<lparr>pp_submitting := True\<rparr>,
                      pending := pending S @ [(Insert_product (clean_data fd) fd, None)]\<rparr>))"
| "products_handle (Delete_clicked i ok) S =
     (if pp_loading (page S) \<or> i \<notin> set (map (\<lambda>p. product_id (lp_product p)) (pp_products (page S)))
      then None
      else if ok then Some (S\<lparr>pending := pending S @ [(Delete_product i, None)]\<rparr>) else Some S)"
| "products_handle (Server_exec i err) S =
     (if i < length (pending S) \<and> snd (pending S ! i) = None
      then (let r = fst (pending S ! i); (rep, db) = server_exec r err (server S)
            in Some (S\<lparr>pending := (pending S)[i := (r, Some rep)], server := db\<rparr>))
      else None)"
| "products_handle (Deliver i) S =
     (if i < length (pending S)
      then (case pending S ! i of
              (r, Some rep) \<Rightarrow> deliver r rep (S\<lparr>pending := remove_at i (pending S)\<rparr>)
            | (r, None) \<Rightarrow> None)
      else None)"

text \<open>Mounting runs \<open>fetchData\<close> against a database in any state.\<close>

definition products_start :: "products_db \<Rightarrow> products_sys" where
  "products_start db =
     fetch_data \<lparr>page = products_page_init, pending = [], server = db, alerts = []\<rparr>"

inductive products_reachable :: "products_db \<Rightarrow> products_sys \<Rightarrow> bool" for db0 where
  start: "products_reachable db0 (products_start db0)"
| step: "products_reachable db0 S \<Longrightarrow> products_handle e S = Some S' \<Longrightarrow> products_reachable db0 S'"

fun products_run :: "products_event list \<Rightarrow> products_sys \<Rightarrow> products_sys option" where
  "products_run [] S = Some S"
| "products_run (e # es) S =
     (case products_handle e S of None \<Rightarrow> None | Some S' \<Rightarrow> products_run es S')"

text \<open>The requests of \<open>handleSubmit\<close> in flight.\<close>

fun is_insert :: "request \<Rightarrow> bool" where
  "is_insert (Insert_product row fd) = True"
| "is_insert _ = False"

text \<open>What the page shows of its requests in flight: the number of inserts, and whether
  a fetch is still running.\<close>

definition inserts_in_flight :: "products_sys \<Rightarrow> nat" where
  "inserts_in_flight S = length (filter (\<lambda>x. is_insert (fst x)) (pending S))"

definition fetch_in_flight :: "products_sys \<Rightarrow> bool" where
  "fetch_in_flight S =
     (Get_brands \<in> set (map fst (pending S)) \<or> Get_products \<in> set (map fst (pending S)))"

text \<open>The position select shows the state's position among its options.\<close>

definition position_ok :: "product_form \<Rightarrow> bool" where
  "position_ok fd = (f_position fd \<in> set (position_options (f_category fd)))"

text \<open>Every insert in flight satisfies \<open>Q\<close> for the row it sends and the form it
  closed over.\<close>

definition inserts_ok :: "(product_form \<Rightarrow> product_form \<Rightarrow> bool) \<Rightarrow> products_sys \<Rightarrow> bool" where
  "inserts_ok Q S =
     list_all (\<lambda>q. case q of Insert_product row fd \<Rightarrow> Q row fd | _ \<Rightarrow> True) (map fst (pending S))"

text \<open>The category select shows one of its options, and a shock absorber's position is
  one its select offers.\<close>

definition form_consistent :: "product_form \<Rightarrow> bool" where
  "form_consistent fd =
     (f_category fd \<in> set category_options \<and> (f_category fd = ''Shock Absorber'' \<longrightarrow> position_ok fd))"

text \<open>A row the page wrote: the trimmed fields of a form the browser accepted.\<close>

definition written_by_form :: "product_form \<Rightarrow> bool" where
  "written_by_form row = (\<exists>fd. row = clean_data fd \<and> form_valid fd)"

text \<open>A database with one brand and no products, for the scenarios below.\<close>

definition db_kyb :: products_db where
  "db_kyb =
     \<lparr>db_products = [], db_brands = [\<lparr>brand_row_id = ''b1'', brand_row_name = ''KYB''\<rparr>], db_next = 1\<rparr>"

section \<open>The product table\<close>

datatype category_badge = Purple_badge | Blue_badge

record product_line =
  line_brand :: string
  line_vehicle :: string
  line_variant :: string
  line_badge :: category_badge
  line_category :: string
  line_position :: string
  line_part_number :: "string option"
  line_delete :: nat

datatype products_table = Table_loading | No_products_yet | Product_lines "product_line list"

text \<open>One row: \<open>p.brands?.name || 'Unknown'\<close>, \<open>{p.car_make} {p.car_model}\<close>, the
  badge colour, and the part number only when it is not empty.\<close>

definition render_product :: "listed_product \<Rightarrow> product_line" where
  "render_product p =
     (let r = product_row (lp_product p)
      in \<lparr>line_brand = (case lp_brand p of Some n \<Rightarrow> if n = [] then ''Unknown'' else n | None \<Rightarrow> ''Unknown''),
          line_vehicle = f_car_make r @ '' '' @ f_car_model r,
          line_variant = f_product_variant r,
          line_badge = (if f_category r = ''Coil Spring'' then Purple_badge else Blue_badge),
          line_category = f_category r,
          line_position = f_position r,
          line_part_number = (if f_part_number r = [] then None else Some (f_part_number r)),
          line_delete = product_id (lp_product p)\<rparr>)"

definition render_products_table :: "products_page \<Rightarrow> products_table" where
  "render_products_table s =
     (if pp_loading s then Table_loading
      else if pp_products s = [] then No_products_yet
      else Product_lines (map render_product (pp_products s)))"


section \<open>Lemmas\<close>

fun_cases deliver_SomeE: "deliver r rep S = Some S'"

lemma products_handle_Deliver:
  "products_handle (Deliver i) S = Some S' \<Longrightarrow>
     \<exists>r rep. i < length (pending S) \<and> pending S ! i = (r, Some rep) \<and>
       deliver r rep (S\<lparr>pending := remove_at i (pending S)\<rparr>) = Some S'"
  by (auto split: if_splits prod.splits option.splits)

lemma products_handle_Server_exec:
  "products_handle (Server_exec i err) S = Some S' \<Longrightarrow>
     \<exists>rep db. i < length (pending S) \<and> snd (pending S ! i) = None \<and>
       server_exec (fst (pending S ! i)) err (server S) = (rep, db) \<and>
       S' = S\<lparr>pending := (pending S)[i := (fst (pending S ! i), Some rep)], server := db\<rparr>"
  by (auto simp: Let_def split: if_splits prod.splits)

lemma inserts_in_flight_remove_at:
  "i < length (pending S) \<Longrightarrow>
     inserts_in_flight S =
       length (filter (\<lambda>x. is_insert (fst x)) (remove_at i (pending S)))
       + (if is_insert (fst (pending S ! i)) then 1 else 0)"
  unfolding inserts_in_flight_def by (rule length_filter_remove_at)

lemma submit_inv_step:
  assumes "products_handle e S = Some S'"
    and "inserts_in_flight S = (if pp_submitting (page S) then 1 else 0)"
  shows "inserts_in_flight S' = (if pp_submitting (page S') then 1 else 0)"
  using assms
proof (cases e)
  case (Server_exec i err)
  with assms(1) obtain rep db where "i < length (pending S)"
    and "S' = S\<lparr>pending := (pending S)[i := (fst (pending S ! i), Some rep)], server := db\<rparr>"
    by (blast dest: products_handle_Server_exec)
  with assms(2) show ?thesis
    by (simp add: inserts_in_flight_def length_filter_update_same)
next
  case (Deliver i)
  with assms(1) obtain r rep where i: "i < length (pending S)" and r: "pending S ! i = (r, Some rep)"
    and d: "deliver r rep (S\<lparr>pending := remove_at i (pending S)\<rparr>) = Some S'"
    by (blast dest: products_handle_Deliver)
  from d show ?thesis
    using inserts_in_flight_remove_at [OF i] assms(2) r
    by (cases rule: deliver_SomeE)
       (auto simp: inserts_in_flight_def fetch_data_def update_form_def Let_def split: option.splits if_splits)
qed (auto simp: inserts_in_flight_def update_form_def Let_def split: if_splits)

lemma products_handle_Server_exec_fst:
  "products_handle (Server_exec i err) S = Some S' \<Longrightarrow>
     map fst (pending S') = map fst (pending S) \<and> page S' = page S"
  by (drule products_handle_Server_exec) auto

lemma fst_remove_at_in_flight:
  "i < length xs \<Longrightarrow> q \<in> set (map fst xs) \<Longrightarrow> fst (xs ! i) \<noteq> q \<Longrightarrow>
     q \<in> set (map fst (remove_at i xs))"
  by (auto intro!: rev_image_eqI in_set_remove_at)

lemma loading_inv_step:
  assumes "products_handle e S = Some S'"
    and "pp_loading (page S) \<longrightarrow> fetch_in_flight S"
  shows "pp_loading (page S') \<longrightarrow> fetch_in_flight S'"
  using assms
proof (cases e)
  case (Server_exec i err)
  with assms show ?thesis by (simp add: fetch_in_flight_def products_handle_Server_exec_fst)
next
  case (Deliver i)
  with assms(1) obtain r rep where i: "i < length (pending S)" and r: "pending S ! i = (r, Some rep)"
    and d: "deliver r rep (S\<lparr>pending := remove_at i (pending S)\<rparr>) = Some S'"
    by (blast dest: products_handle_Deliver)
  have keep: "q \<in> set (map fst (pending S)) \<Longrightarrow> r \<noteq> q \<Longrightarrow> q \<in> set (map fst (remove_at i (pending S)))"
    for q using fst_remove_at_in_flight [OF i] r by simp
  from d show ?thesis
    using assms(2) keep [of Get_brands] keep [of Get_products]
    by (cases rule: deliver_SomeE)
       (auto simp: fetch_in_flight_def fetch_data_def update_form_def Let_def split: option.splits)
qed (auto simp: fetch_in_flight_def update_form_def Let_def split: if_splits)

lemma deliver_server: "deliver r rep S = Some S' \<Longrightarrow> server S' = server S"
  by (cases rule: deliver_SomeE) (auto simp: fetch_data_def update_form_def Let_def split: option.splits)

lemma deliver_pending:
  "deliver r rep S = Some S' \<Longrightarrow>
     \<exists>new. pending S' = pending S @ new \<and> (\<forall>q \<in> set (map fst new). q = Get_brands \<or> q = Get_products)"
  by (cases rule: deliver_SomeE) (auto simp: fetch_data_def update_form_def Let_def split: option.splits)

lemma products_handle_Deliver_sub:
  assumes "products_handle (Deliver i) S = Some S'"
  shows "\<exists>new. set (pending S') \<subseteq> set (pending S) \<union> set new
           \<and> (\<forall>q \<in> set (map fst new). q = Get_brands \<or> q = Get_products) \<and> server S' = server S"
proof -
  from assms obtain r rep where "i < length (pending S)"
    and d: "deliver r rep (S\<lparr>pending := remove_at i (pending S)\<rparr>) = Some S'"
    by (blast dest: products_handle_Deliver)
  moreover obtain new where "pending S' = remove_at i (pending S) @ new"
    and "\<forall>q \<in> set (map fst new). q = Get_brands \<or> q = Get_products"
    using deliver_pending [OF d] by auto
  ultimately show ?thesis
    using set_remove_at [of i "pending S"] deliver_server [OF d] by (intro exI [of _ new]) auto
qed

lemma suggestions_inv_step:
  assumes "products_handle e S = Some S'"
    and "pp_suggestions (page S) = extract_suggestions (pp_products (page S))"
  shows "pp_suggestions (page S') = extract_suggestions (pp_products (page S'))"
  using assms
proof (cases e)
  case (Server_exec i err)
  with assms show ?thesis by (simp add: products_handle_Server_exec_fst)
next
  case (Deliver i)
  with assms(1) obtain r rep where
    d: "deliver r rep (S\<lparr>pending := remove_at i (pending S)\<rparr>) = Some S'"
    by (blast dest: products_handle_Deliver)
  from d show ?thesis
    using assms(2)
    by (cases rule: deliver_SomeE)
       (auto simp: fetch_data_def update_form_def Let_def split: option.splits)
qed (auto simp: update_form_def Let_def split: if_splits)

lemma written_by_form_exec:
  assumes "server_exec q err db = (rep, db')"
    and "\<forall>row fd. q = Insert_product row fd \<longrightarrow> row = clean_data fd \<and> form_valid fd"
    and "\<forall>p \<in> set (db_products db). P p \<or> written_by_form (product_row p)"
  shows "\<forall>p \<in> set (db_products db'). P p \<or> written_by_form (product_row p)"
  using assms
  by (cases q) (auto simp: written_by_form_def split: option.splits)

lemma inserts_ok_Server_exec:
  "products_handle (Server_exec i err) S = Some S' \<Longrightarrow> inserts_ok Q S' = inserts_ok Q S"
  by (simp add: inserts_ok_def products_handle_Server_exec_fst)

lemma inserts_ok_Deliver:
  assumes "products_handle (Deliver i) S = Some S'" and "inserts_ok Q S"
  shows "inserts_ok Q S'"
proof -
  from assms(1) obtain new where "set (pending S') \<subseteq> set (pending S) \<union> set new"
    and "\<forall>q \<in> set (map fst new). q = Get_brands \<or> q = Get_products"
    by (blast dest: products_handle_Deliver_sub)
  with assms(2) show ?thesis by (fastforce simp: inserts_ok_def list_all_iff)
qed

lemma inserts_ok_nth:
  "inserts_ok Q S \<Longrightarrow> i < length (pending S) \<Longrightarrow> fst (pending S ! i) = Insert_product row fd \<Longrightarrow>
     Q row fd"
proof -
  assume ok: "inserts_ok Q S" and i: "i < length (pending S)"
    and r: "fst (pending S ! i) = Insert_product row fd"
  have "fst (pending S ! i) \<in> fst ` set (pending S)" by (rule imageI [OF nth_mem [OF i]])
  with ok have "case fst (pending S ! i) of Insert_product row fd \<Rightarrow> Q row fd | _ \<Rightarrow> True"
    unfolding inserts_ok_def list_all_iff set_map by (rule bspec)
  with r show ?thesis by simp
qed

lemma clean_inv_step:
  assumes "products_handle e S = Some S'"
    and "inserts_ok (\<lambda>row fd. row = clean_data fd \<and> form_valid fd) S"
    and "\<forall>p \<in> set (db_products (server S)). P p \<or> written_by_form (product_row p)"
  shows "inserts_ok (\<lambda>row fd. row = clean_data fd \<and> form_valid fd) S'
    \<and> (\<forall>p \<in> set (db_products (server S')). P p \<or> written_by_form (product_row p))"
  using assms
proof (cases e)
  case (Server_exec i err)
  with assms(1) obtain rep db where i: "i < length (pending S)"
    and ex: "server_exec (fst (pending S ! i)) err (server S) = (rep, db)"
    and S': "S' = S\<lparr>pending := (pending S)[i := (fst (pending S ! i), Some rep)], server := db\<rparr>"
    by (blast dest: products_handle_Server_exec)
  have "\<forall>row fd. fst (pending S ! i) = Insert_product row fd \<longrightarrow> row = clean_data fd \<and> form_valid fd"
    using inserts_ok_nth [OF assms(2) i] by blast
  from written_by_form_exec [OF ex this assms(3)] assms(1,2) Server_exec show ?thesis
    by (simp add: S' inserts_ok_Server_exec)
next
  case (Deliver i)
  with assms(1) have "server S' = server S"
    by (blast dest: products_handle_Deliver_sub)
  with assms Deliver show ?thesis by (simp add: inserts_ok_Deliver)
qed (auto simp: inserts_ok_def update_form_def Let_def split: if_splits)

lemma form_inv_step:
  assumes "products_handle e S = Some S'"
    and "form_consistent (formData (page S))"
    and "inserts_ok (\<lambda>row fd. form_consistent fd) S"
  shows "form_consistent (formData (page S')) \<and> inserts_ok (\<lambda>row fd. form_consistent fd) S'"
  using assms
proof (cases e)
  case (Server_exec i err)
  with assms show ?thesis by (simp add: products_handle_Server_exec_fst inserts_ok_Server_exec)
next
  case (Deliver i)
  with assms(1) obtain r rep where i: "i < length (pending S)" and r: "pending S ! i = (r, Some rep)"
    and d: "deliver r rep (S\<lparr>pending := remove_at i (pending S)\<rparr>) = Some S'"
    by (blast dest: products_handle_Deliver)
  have captured: "\<forall>row fd. r = Insert_product row fd \<longrightarrow> form_consistent fd"
    using inserts_ok_nth [OF assms(3) i] r by simp
  from d have "form_consistent (formData (page S'))"
    using assms(2) captured
    by (cases rule: deliver_SomeE)
       (auto simp: fetch_data_def update_form_def form_after_insert_def form_consistent_def
          position_ok_def position_options_def Let_def split: option.splits)
  with inserts_ok_Deliver [OF assms(1) [unfolded Deliver] assms(3)] show ?thesis by simp
next
  case (Category_selected v)
  with assms show ?thesis
    by (auto simp: update_form_def handle_category_change_def form_consistent_def position_ok_def
        position_options_def category_options_def inserts_ok_def split: if_splits)
next
  case (Position_selected v)
  with assms show ?thesis
    by (auto simp: update_form_def form_consistent_def position_ok_def inserts_ok_def split: if_splits)
qed (auto simp: update_form_def form_consistent_def position_ok_def inserts_ok_def Let_def split: if_splits)

lemma products_run_reachable:
  "products_reachable db0 S \<Longrightarrow> products_run es S = Some S' \<Longrightarrow> products_reachable db0 S'"
proof (induction es arbitrary: S)
  case Nil
  then show ?case by simp
next
  case (Cons e es)
  then show ?case by (auto split: option.splits intro: products_reachable.step)
qed

lemma products_run_start_reachable:
  "products_run es (products_start db0) = Some S' \<Longrightarrow> products_reachable db0 S'"
  by (rule products_run_reachable [OF products_reachable.start])

lemma products_loading_inv:
  "products_reachable db0 S \<Longrightarrow> pp_loading (page S) \<longrightarrow> fetch_in_flight S"
proof (induction rule: products_reachable.induct)
  case start
  then show ?case by (simp add: products_start_def fetch_data_def fetch_in_flight_def)
next
  case (step S e S')
  show ?case by (rule loading_inv_step [OF step.hyps(2) step.IH])
qed

lemma products_suggestions_inv:
  "products_reachable db0 S \<Longrightarrow> pp_suggestions (page S) = extract_suggestions (pp_products (page S))"
proof (induction rule: products_reachable.induct)
  case start
  then show ?case
    by (simp add: products_start_def fetch_data_def products_page_init_def extract_suggestions_def
        unique_sorted_def)
next
  case (step S e S')
  show ?case by (rule suggestions_inv_step [OF step.hyps(2) step.IH])
qed

lemma products_clean_inv:
  "products_reachable db0 S \<Longrightarrow>
     inserts_ok (\<lambda>row fd. row = clean_data fd \<and> form_valid fd) S \<and>
     (\<forall>p \<in> set (db_products (server S)). p \<in> set (db_products db0) \<or> written_by_form (product_row p))"
proof (induction rule: products_reachable.induct)
  case start
  then show ?case by (simp add: products_start_def fetch_data_def inserts_ok_def)
next
  case (step S e S')
  then show ?case using clean_inv_step by blast
qed

lemma products_form_inv:
  "products_reachable db0 S \<Longrightarrow>
     form_consistent (formData (page S)) \<and> inserts_ok (\<lambda>row fd. form_consistent fd) S"
proof (induction rule: products_reachable.induct)
  case start
  then show ?case
    by (simp add: products_start_def fetch_data_def inserts_ok_def products_page_init_def form_init_def
        form_consistent_def position_ok_def position_options_def category_options_def)
next
  case (step S e S')
  then show ?case using form_inv_step by blast
qed

lemma written_by_form_trimmed:
  "written_by_form row \<Longrightarrow>
     js_trim (f_car_make row) = f_car_make row \<and> js_trim (f_car_model row) = f_car_model row \<and>
     js_trim (f_product_variant row) = f_product_variant row \<and> brand_id row \<noteq> []"
  by (auto simp: written_by_form_def clean_data_def form_valid_def js_trim_idem)

lemmas products_eval = products_start_def fetch_data_def products_page_init_def form_init_def
  update_form_def category_options_def position_options_def form_valid_def clean_data_def
  form_after_insert_def list_product_def extract_suggestions_def handle_category_change_def
  remove_at_def js_trim_def is_js_space_def unique_sorted_def js_set_values_def db_kyb_def
  position_ok_def char_eval Let_def

text \<open>
  C25. Every product the page adds to the database has a selected brand and its make,
  model and variant trimmed: \<open>handleSubmit\<close> sends \<open>cleanData\<close> of a form the
  browser accepted, whatever the order in which requests are executed and answered.
\<close>

theorem products_rows_trimmed:
  assumes "products_reachable db0 S"
    and "p \<in> set (db_products (server S))" and "p \<notin> set (db_products db0)"
  shows "js_trim (f_car_make (product_row p)) = f_car_make (product_row p) \<and>
    js_trim (f_car_model (product_row p)) = f_car_model (product_row p) \<and>
    js_trim (f_product_variant (product_row p)) = f_product_variant (product_row p) \<and>
    brand_id (product_row p) \<noteq> []"
  using products_clean_inv [OF assms(1)] assms(2,3) by (blast dest: written_by_form_trimmed)

theorem products_rows_trimmed_witness:
  "\<exists>S. products_run [Server_exec 0 None, Deliver 0, Server_exec 0 None, Deliver 0,
        Brand_selected ''b1'', Make_typed '' Honda '', Model_typed ''City'', Variant_typed ''Standard'',
        Submit, Server_exec 0 None] (products_start db_kyb) = Some S \<and>
     (\<exists>p \<in> set (db_products (server S)). p \<notin> set (db_products db_kyb) \<and>
        f_car_make (product_row p) = ''Honda'' \<and>
        js_trim (f_car_make (product_row p)) = f_car_make (product_row p) \<and>
        js_trim (f_car_model (product_row p)) = f_car_model (product_row p) \<and>
        js_trim (f_product_variant (product_row p)) = f_product_variant (product_row p) \<and>
        brand_id (product_row p) \<noteq> [])"
proof -
  obtain S where run: "products_run [Server_exec 0 None, Deliver 0, Server_exec 0 None, Deliver 0,
        Brand_selected ''b1'', Make_typed '' Honda '', Model_typed ''City'', Variant_typed ''Standard'',
        Submit, Server_exec 0 None] (products_start db_kyb) = Some S"
    and p: "\<exists>p \<in> set (db_products (server S)). p \<notin> set (db_products db_kyb) \<and>
        f_car_make (product_row p) = ''Honda''"
    by (simp add: products_eval)
  have r: "products_reachable db_kyb S" by (rule products_run_start_reachable [OF run])
  from p obtain p where "p \<in> set (db_products (server S))" "p \<notin> set (db_products db_kyb)"
    "f_car_make (product_row p) = ''Honda''" by blast
  with products_rows_trimmed [OF r] run show ?thesis by blast
qed

text \<open>
  C26. After a coil spring is saved, the form keeps the category \<open>Coil Spring\<close> but
  \<open>handleSubmit\<close> resets the position to \<open>Front (2 pcs)\<close>, which the position select
  does not offer for that category; a second save then writes a coil spring with position
  \<open>Front (2 pcs)\<close> to the database.
\<close>

theorem products_coil_spring_front:
  "\<exists>S. products_reachable db_kyb S \<and>
     f_category (formData (page S)) = ''Coil Spring'' \<and> \<not> position_ok (formData (page S)) \<and>
     (\<exists>p \<in> set (db_products (server S)).
        f_category (product_row p) = ''Coil Spring'' \<and> f_position (product_row p) = ''Front (2 pcs)'' \<and>
        \<not> position_ok (product_row p))"
proof -
  obtain S where run: "products_run [Server_exec 0 None, Deliver 0, Server_exec 0 None, Deliver 0,
        Brand_selected ''b1'', Make_typed ''Honda'', Model_typed ''City'', Variant_typed ''Standard'',
        Category_selected ''Coil Spring'', Submit, Server_exec 0 None, Deliver 0, Submit, Server_exec 1 None]
        (products_start db_kyb) = Some S"
    and bad: "f_category (formData (page S)) = ''Coil Spring'' \<and> \<not> position_ok (formData (page S)) \<and>
     (\<exists>p \<in> set (db_products (server S)).
        f_category (product_row p) = ''Coil Spring'' \<and> f_position (product_row p) = ''Front (2 pcs)'' \<and>
        \<not> position_ok (product_row p))"
    by (simp add: products_eval)
  with products_run_start_reachable [OF run] show ?thesis by blast
qed

text \<open>
  C27. For a shock absorber the form always holds a position its select offers, and the
  category is always one of the two options: every change of category goes through
  \<open>handleCategoryChange\<close> and the reset after a save picks \<open>Front (2 pcs)\<close>.
\<close>

theorem products_form_consistent:
  "products_reachable db0 S \<Longrightarrow> form_consistent (formData (page S))"
  using products_form_inv by blast

theorem products_form_consistent_witness:
  "\<exists>S. products_run [Category_selected ''Shock Absorber'', Position_selected ''Rear (2 pcs)'']
        (products_start db_kyb) = Some S \<and>
     f_position (formData (page S)) = ''Rear (2 pcs)'' \<and> form_consistent (formData (page S))"
proof -
  obtain S where run: "products_run [Category_selected ''Shock Absorber'', Position_selected ''Rear (2 pcs)'']
        (products_start db_kyb) = Some S" and pos: "f_position (formData (page S)) = ''Rear (2 pcs)''"
    by (simp add: products_eval)
  with products_form_consistent [OF products_run_start_reachable [OF run]] show ?thesis by blast
qed

text \<open>
  C28. \<open>handleCategoryChange\<close> stores the chosen category with a position that the
  position select offers for it.
\<close>

theorem handle_category_change_position:
  "v \<in> set category_options \<Longrightarrow>
     f_category (handle_category_change v fd) = v \<and> position_ok (handle_category_change v fd)"
  by (auto simp: handle_category_change_def category_options_def position_ok_def position_options_def)

theorem handle_category_change_position_witness:
  "''Coil Spring'' \<in> set category_options \<and>
   f_position (handle_category_change ''Coil Spring'' form_init) = ''Carset (4 pcs)'' \<and>
   position_ok (handle_category_change ''Coil Spring'' form_init)"
proof -
  have v: "''Coil Spring'' \<in> set category_options" by (simp add: category_options_def)
  have "f_position (handle_category_change ''Coil Spring'' form_init) = ''Carset (4 pcs)''"
    by (simp add: handle_category_change_def)
  with v handle_category_change_position [OF v, of form_init] show ?thesis by blast
qed

text \<open>
  C29. The page has an insert in flight exactly when it shows \<open>Saving...\<close>, and never
  more than one: the submit button is disabled from the submit until the answer arrives.
\<close>

theorem products_single_submit:
  "products_reachable db0 S \<Longrightarrow> inserts_in_flight S = (if pp_submitting (page S) then 1 else 0)"
proof (induction rule: products_reachable.induct)
  case start
  then show ?case by (simp add: products_start_def fetch_data_def products_page_init_def inserts_in_flight_def)
next
  case (step S e S')
  show ?case by (rule submit_inv_step [OF step.hyps(2) step.IH])
qed

theorem products_single_submit_witness:
  "\<exists>S. products_run [Server_exec 0 None, Deliver 0, Brand_selected ''b1'', Make_typed ''Honda'',
        Model_typed ''City'', Variant_typed ''Standard'', Submit, Submit] (products_start db_kyb) = Some S \<and>
     pp_submitting (page S) \<and> inserts_in_flight S = 1"
proof -
  obtain S where run: "products_run [Server_exec 0 None, Deliver 0, Brand_selected ''b1'', Make_typed ''Honda'',
        Model_typed ''City'', Variant_typed ''Standard'', Submit, Submit] (products_start db_kyb) = Some S"
    and sub: "pp_submitting (page S)"
    by (simp add: products_eval)
  with products_single_submit [OF products_run_start_reachable [OF run]] show ?thesis by simp
qed

text \<open>
  C30. Once no fetch is in flight the table is not stuck on \<open>Loading...\<close>: every run of
  \<open>fetchData\<close> ends with \<open>setLoading(false)\<close>, whether the products query fails or not.
\<close>

theorem products_loading_clears:
  "products_reachable db0 S \<Longrightarrow> \<not> fetch_in_flight S \<Longrightarrow> \<not> pp_loading (page S)"
  using products_loading_inv by blast

theorem products_loading_clears_witness:
  "\<exists>S. products_run [Server_exec 0 None, Deliver 0, Server_exec 0 (Some ''timeout''), Deliver 0]
        (products_start db_kyb) = Some S \<and>
     \<not> fetch_in_flight S \<and> \<not> pp_loading (page S) \<and> render_products_table (page S) = No_products_yet"
proof -
  obtain S where run: "products_run [Server_exec 0 None, Deliver 0, Server_exec 0 (Some ''timeout''), Deliver 0]
        (products_start db_kyb) = Some S" and idle: "\<not> fetch_in_flight S"
    and tbl: "pp_products (page S) = []"
    by (simp add: products_eval fetch_in_flight_def)
  have "\<not> pp_loading (page S)"
    using products_loading_clears [OF products_run_start_reachable [OF run] idle] .
  with run idle tbl show ?thesis by (simp add: render_products_table_def)
qed

text \<open>
  C31. The suggestion lists offered under the make, model and variant inputs are always
  the sorted distinct values of the products the table shows.
\<close>

theorem products_suggestions_sorted:
  assumes "products_reachable db0 S"
  shows "makes (pp_suggestions (page S)) =
           sorted_list_of_set ((\<lambda>p. f_car_make (product_row (lp_product p))) ` set (pp_products (page S))) \<and>
         models (pp_suggestions (page S)) =
           sorted_list_of_set ((\<lambda>p. f_car_model (product_row (lp_product p))) ` set (pp_products (page S))) \<and>
         variants (pp_suggestions (page S)) =
           sorted_list_of_set ((\<lambda>p. f_product_variant (product_row (lp_product p))) ` set (pp_products (page S)))"
  using products_suggestions_inv [OF assms]
  by (simp add: extract_suggestions_def unique_sorted_eq image_image)

theorem products_suggestions_sorted_witness:
  "\<exists>S. products_run [Server_exec 0 None, Deliver 0, Brand_selected ''b1'', Make_typed ''Honda'',
        Model_typed ''City'', Variant_typed ''Standard'', Submit, Server_exec 1 None, Deliver 1,
        Server_exec 0 None, Deliver 0] (products_start db_kyb) = Some S \<and>
     pp_products (page S) \<noteq> [] \<and>
     makes (pp_suggestions (page S)) =
       sorted_list_of_set ((\<lambda>p. f_car_make (product_row (lp_product p))) ` set (pp_products (page S)))"
proof -
  obtain S where run: "products_run [Server_exec 0 None, Deliver 0, Brand_selected ''b1'', Make_typed ''Honda'',
        Model_typed ''City'', Variant_typed ''Standard'', Submit, Server_exec 1 None, Deliver 1,
        Server_exec 0 None, Deliver 0] (products_start db_kyb) = Some S"
    and ne: "pp_products (page S) \<noteq> []"
    by (simp add: products_eval)
  with products_suggestions_sorted [OF products_run_start_reachable [OF run]] show ?thesis by blast
qed

text \<open>
  C32. Fetches started by different handlers overlap, and the answer of an older one may
  arrive last: the page can end with no request in flight and not loading while its table
  misses a product the database holds.
\<close>

theorem products_stale_list:
  "\<exists>S. products_reachable db_kyb S \<and> pending S = [] \<and> \<not> pp_loading (page S) \<and>
     render_products_table (page S) = No_products_yet \<and> db_products (server S) \<noteq> []"
proof -
  obtain S where run: "products_run [Server_exec 0 None, Deliver 0,
        Brand_selected ''b1'', Make_typed ''Honda'', Model_typed ''City'', Variant_typed ''Standard'',
        Submit, Server_exec 0 None, Server_exec 1 None, Deliver 1,
        Server_exec 1 None, Deliver 1, Server_exec 1 None, Deliver 1, Deliver 0]
        (products_start db_kyb) = Some S"
    and stale: "pending S = [] \<and> \<not> pp_loading (page S) \<and>
     render_products_table (page S) = No_products_yet \<and> db_products (server S) \<noteq> []"
    by (simp add: products_eval render_products_table_def)
  with products_run_start_reachable [OF run] show ?thesis by blast
qed

text \<open>
  C33. The \<open>required\<close> check runs before the trim: a make of blanks passes the browser's
  check and is written as the empty string.
\<close>

theorem products_blank_make:
  "\<exists>S. products_reachable db_kyb S \<and>
     (\<exists>p \<in> set (db_products (server S)). f_car_make (product_row p) = [] \<and> brand_id (product_row p) = ''b1'')"
proof -
  obtain S where run: "products_run [Server_exec 0 None, Deliver 0,
        Brand_selected ''b1'', Make_typed ''  '', Model_typed ''City'', Variant_typed ''Standard'',
        Submit, Server_exec 1 None] (products_start db_kyb) = Some S"
    and blank: "\<exists>p \<in> set (db_products (server S)). f_car_make (product_row p) = [] \<and> brand_id (product_row p) = ''b1''"
    by (simp add: products_eval)
  with products_run_start_reachable [OF run] show ?thesis by blast
qed

text \<open>\<open>handleSubmit\<close> resets the form from the \<open>formData\<close> it closed over: a make typed
  while the insert is in flight is replaced by the one submitted.\<close>

theorem products_edit_lost:
  "\<exists>S. products_reachable db_kyb S \<and> \<not> pp_submitting (page S) \<and> f_car_make (formData (page S)) = ''Honda''
     \<and> (\<exists>S0. products_reachable db_kyb S0 \<and> pp_submitting (page S0) \<and>
            f_car_make (formData (page S0)) = ''Toyota'' \<and> products_run [Server_exec 1 None, Deliver 1] S0 = Some S)"
proof -
  obtain S0 where run0: "products_run [Server_exec 0 None, Deliver 0,
        Brand_selected ''b1'', Make_typed ''Honda'', Model_typed ''City'', Variant_typed ''Standard'',
        Submit, Make_typed ''Toyota''] (products_start db_kyb) = Some S0"
    and s0: "pp_submitting (page S0) \<and> f_car_make (formData (page S0)) = ''Toyota''"
    and later: "\<exists>S. products_run [Server_exec 1 None, Deliver 1] S0 = Some S \<and>
        \<not> pp_submitting (page S) \<and> f_car_make (formData (page S)) = ''Honda''"
    by (simp add: products_eval)
  have r0: "products_reachable db_kyb S0" by (rule products_run_start_reachable [OF run0])
  from later obtain S where run: "products_run [Server_exec 1 None, Deliver 1] S0 = Some S"
    and s: "\<not> pp_submitting (page S) \<and> f_car_make (formData (page S)) = ''Honda''" by blast
  have "products_reachable db_kyb S" by (rule products_run_reachable [OF r0 run])
  with r0 run s0 s show ?thesis by blast
qed

end
