(* ===== verification/Admin_Brands.thy ===== *)
theory Admin_Brands
  imports Admin_Products
begin

text \<open>
  The brand manager of \<open>src/app/admin/brands/page.js\<close>, with its requests in flight as
  on the products page: \<open>fetchBrands\<close> at mount and after each change,
  \<open>handleAdd\<close> with its trim guard and its two error messages, \<open>handleDelete\<close>
  behind \<open>confirm\<close>. The database's \<open>brands\<close> table has a unique name, whose
  violation is reported with code \<open>23505\<close>.
\<close>

section \<open>State\<close>

record brands_page =
  bp_brands :: "brand_row list"
  newBrand :: string
  bp_loading :: bool
  bp_submitting :: bool

definition brands_page_init :: brands_page where
  "brands_page_init = \<lparr>bp_brands = [], newBrand = [], bp_loading = True, bp_submitting = False\<rparr>"

section \<open>Requests and the database\<close>

text \<open>A database error: its code and message.\<close>

record db_error =
  err_code :: string
  err_message :: string

datatype brand_request = Fetch_brands | Insert_brand string | Delete_brand string

datatype brand_reply = Brands_list "brand_row list option" | Brand_write "db_error option"

record brands_db =
  bt_rows :: "brand_row list"
  bt_next :: nat

text \<open>The database: the unique index on \<open>name\<close> refuses a second brand of the same
  name; \<open>err\<close> is any other failure. A new row gets a fresh id.\<close>

fun brands_exec :: "brand_request \<Rightarrow> db_error option \<Rightarrow> brands_db \<Rightarrow> brand_reply \<times> brands_db" where
  "brands_exec Fetch_brands err db =
     (Brands_list (if err = None then Some (sort_key brand_row_name (bt_rows db)) else None), db)"
| "brands_exec (Insert_brand n) err db =
     (if err \<noteq> None then (Brand_write err, db)
      else if n \<in> set (map brand_row_name (bt_rows db))
      then (Brand_write (Some \<lparr>err_code = ''23505'', err_message = ''duplicate key value''\<rparr>), db)
      else (Brand_write None,
            db\<lparr>bt_rows := bt_rows db @ [\<lparr>brand_row_id = replicate (Suc (bt_next db)) CHR ''1'', brand_row_name = n\<rparr>],
               bt_next := Suc (bt_next db)\<rparr>))"
| "brands_exec (Delete_brand i) err db =
     (if err \<noteq> None then (Brand_write err, db)
      else (Brand_write None, db\<lparr>bt_rows := filter (\<lambda>b. brand_row_id b \<noteq> i) (bt_rows db)\<rparr>))"

record brands_sys =
  bpage :: brands_page
  bpending :: "(brand_request \<times> brand_reply option) list"
  bserver :: brands_db
  balerts :: "string list"

text \<open>\<open>fetchBrands\<close> sends its query without touching \<open>loading\<close>.\<close>

definition fetch_brands :: "brands_sys \<Rightarrow> brands_sys" where
  "fetch_brands S = S\<lparr>bpending := bpending S @ [(Fetch_brands, None)]\<rparr>"

fun brands_deliver :: "brand_request \<Rightarrow> brand_reply \<Rightarrow> brands_sys \<Rightarrow> brands_sys option" where
  "brands_deliver Fetch_brands (Brands_list d) S =
     Some (S\<lparr>bpage := (case d of None \<Rightarrow> bpage S | Some bs \<Rightarrow> (bpage S)\<lparr>bp_brands := bs\<rparr>)
                       \<lparr>bp_loading := False\<rparr>\<rparr>)"
| "brands_deliver (Insert_brand n) (Brand_write err) S =
     (let S1 = (case err of
                  Some e \<Rightarrow>
                    S\<lparr>balerts := balerts S @
                       [if err_code e = ''23505'' then ''This brand already exists.''
                        else ''Error adding brand: '' @ err_message e]\<rparr>
                | None \<Rightarrow> fetch_brands (S\<lparr>bpage := (bpage S)\<lparr>newBrand := []\<rparr>\<rparr>))
      in Some (S1\<lparr>bpage := (bpage S1)\<lparr>bp_submitting := False\<rparr>\<rparr>))"
| "brands_deliver (Delete_brand i) (Brand_write err) S =
     (case err of
        Some e \<Rightarrow> Some (S\<lparr>balerts := balerts S @ [''Error deleting: '' @ err_message e]\<rparr>)
      | None \<Rightarrow> Some (fetch_brands S))"
| "brands_deliver _ _ S = None"

datatype brands_event =
    Brand_typed string
  | Add_brand
  | Delete_clicked_brand nat bool
  | Brands_exec nat "db_error option"
  | Brands_deliver nat

text \<open>The input's \<open>required\<close> blocks an empty submission; \<open>handleAdd\<close> returns early on
  a name of blanks, before \<open>setSubmitting(true)\<close>. The Delete button of row \<open>i\<close>
  exists once the list is loaded; \<open>Delete_clicked_brand i ok\<close> carries the answer to
  \<open>confirm\<close>.\<close>

fun brands_handle :: "brands_event \<Rightarrow> brands_sys \<Rightarrow> brands_sys option" where
  "brands_handle (Brand_typed v) S = Some (S\<lparr>bpage := (bpage S)\<lparr>newBrand := v\<rparr>\<rparr>)"
| "brands_handle Add_brand S =
     (if bp_submitting (bpage S) \<or> newBrand (bpage S) = [] \<or> js_trim (newBrand (bpage S)) = [] then Some S
      else Some (S\<lparr>bpage := (bpage S)\<lparr>bp_submitting := True\<rparr>,
                   bpending := bpending S @ [(Insert_brand (js_trim (newBrand (bpage S))), None)]\<rparr>))"
| "brands_handle (Delete_clicked_brand i ok) S =
     (if bp_loading (bpage S) \<or> length (bp_brands (bpage S)) \<le> i then None
      else if ok then Some (S\<lparr>bpending := bpending S @ [(Delete_brand (brand_row_id (bp_brands (bpage S) ! i)), None)]\<rparr>)
      else Some S)"
| "brands_handle (Brands_exec i err) S =
     (if i < length (bpending S) \<and> snd (bpending S ! i) = None
      then (let r = fst (bpending S ! i); (rep, db) = brands_exec r err (bserver S)
            in Some (S\<lparr>bpending := (bpending S)[i := (r, Some rep)], bserver := db\<rparr>))
      else None)"
| "brands_handle (Brands_deliver i) S =
     (if i < length (bpending S)
      then (case bpending S ! i of
              (r, Some rep) \<Rightarrow> brands_deliver r rep (S\<lparr>bpending := remove_at i (bpending S)\<rparr>)
            | (r, None) \<Rightarrow> None)
      else None)"

definition brands_start :: "brands_db \<Rightarrow> brands_sys" where
  "brands_start db = fetch_brands \<lparr>bpage = brands_page_init, bpending = [], bserver = db, balerts = []\<rparr>"

inductive brands_reachable :: "brands_db \<Rightarrow> brands_sys \<Rightarrow> bool" for db0 where
  start: "brands_reachable db0 (brands_start db0)"
| step: "brands_reachable db0 S \<Longrightarrow> brands_handle e S = Some S' \<Longrightarrow> brands_reachable db0 S'"

section \<open>The brand list\<close>

datatype brands_view = Loading_brands | No_brands | Brand_lines "(string \<times> string) list"

definition render_brands :: "brands_page \<Rightarrow> brands_view" where
  "render_brands s =
     (if bp_loading s then Loading_brands
      else if bp_brands s = [] then No_brands
      else Brand_lines (map (\<lambda>b. (brand_row_name b, brand_row_id b)) (bp_brands s)))"

section \<open>Lemmas\<close>

fun_cases brands_deliver_SomeE: "brands_deliver r rep S = Some S'"

lemma brands_handle_exec:
  "brands_handle (Brands_exec i err) S = Some S' \<Longrightarrow>
     \<exists>rep db. i < length (bpending S) \<and>
       brands_exec (fst (bpending S ! i)) err (bserver S) = (rep, db) \<and>
       S' = S\<lparr>bpending := (bpending S)[i := (fst (bpending S ! i), Some rep)], bserver := db\<rparr>"
  by (auto simp: Let_def split: if_splits prod.splits)

lemma brands_handle_deliver_server:
  "brands_handle (Brands_deliver i) S = Some S' \<Longrightarrow>
     bserver S' = bserver S \<and> set (map fst (bpending S')) \<subseteq> set (map fst (bpending S)) \<union> {Fetch_brands}"
proof -
  assume h: "brands_handle (Brands_deliver i) S = Some S'"
  then obtain r rep where i: "i < length (bpending S)" and r: "bpending S ! i = (r, Some rep)"
    and d: "brands_deliver r rep (S\<lparr>bpending := remove_at i (bpending S)\<rparr>) = Some S'"
    by (auto split: if_splits prod.splits option.splits)
  have sub: "set (remove_at i (bpending S)) \<subseteq> set (bpending S)" by (rule set_remove_at)
  from d show ?thesis
    using sub by (cases rule: brands_deliver_SomeE)
      (auto simp: fetch_brands_def Let_def split: option.splits intro: rev_image_eqI)
qed

text \<open>Every brand the page adds has a name that is not empty and has no white space at
  either end.\<close>

lemma brands_names_trimmed:
  "brands_reachable db0 S \<Longrightarrow>
     (\<forall>q \<in> set (map fst (bpending S)). \<forall>n. q = Insert_brand n \<longrightarrow> n \<noteq> [] \<and> js_trim n = n) \<and>
     (\<forall>b \<in> set (bt_rows (bserver S)). b \<in> set (bt_rows db0) \<or>
         (brand_row_name b \<noteq> [] \<and> js_trim (brand_row_name b) = brand_row_name b))"
proof (induction rule: brands_reachable.induct)
  case start
  then show ?case by (simp add: brands_start_def fetch_brands_def)
next
  case (step S e S')
  show ?case
  proof (cases e)
    case (Brands_exec i err)
    with step.hyps(2) obtain rep db where i: "i < length (bpending S)"
      and ex: "brands_exec (fst (bpending S ! i)) err (bserver S) = (rep, db)"
      and S': "S' = S\<lparr>bpending := (bpending S)[i := (fst (bpending S ! i), Some rep)], bserver := db\<rparr>"
      by (blast dest: brands_handle_exec)
    have q: "fst (bpending S ! i) \<in> set (map fst (bpending S))" using i by simp
    have "map fst (bpending S') = map fst (bpending S)" using i by (simp add: S')
    moreover have "\<forall>b \<in> set (bt_rows db). b \<in> set (bt_rows db0) \<or>
         (brand_row_name b \<noteq> [] \<and> js_trim (brand_row_name b) = brand_row_name b)"
      using ex step.IH q by (cases "fst (bpending S ! i)") (auto split: if_splits)
    ultimately show ?thesis using step.IH by (simp add: S')
  next
    case (Brands_deliver i)
    with step.hyps(2) brands_handle_deliver_server step.IH show ?thesis by fastforce
  qed (use step in \<open>auto simp: js_trim_idem split: if_splits\<close>)
qed

end
