(* ===== verification/Products_Service.thy ===== *)
theory Products_Service
  imports Admin_Products
begin

text \<open>
  The product manager of \<open>Admin_Products\<close> under in-order service: the database
  executes the page's requests in the order they were sent and each answer reaches the
  page before the next request is executed (no reordering, as with a single connection
  that is never overtaken). Writes may fail; fetches do not, since after a failed
  products query \<open>fetchData\<close> keeps the old list and nothing retries it. Under this
  service the table converges: serving the requests in flight always ends, and then the
  page shows exactly the products of the database. \<open>Admin_Products.products_stale_list\<close>
  shows that without the ordering it does not.
\<close>

section \<open>Service in order\<close>

text \<open>The events of the user, as opposed to those of the database and the network.\<close>

fun user_event :: "products_event \<Rightarrow> bool" where
  "user_event (Server_exec i err) = False"
| "user_event (Deliver i) = False"
| "user_event _ = True"

fun is_fetch :: "request \<Rightarrow> bool" where
  "is_fetch Get_brands = True"
| "is_fetch Get_products = True"
| "is_fetch _ = False"

text \<open>The oldest request in flight is executed and its answer delivered at once.\<close>

definition serve_first :: "string option \<Rightarrow> products_sys \<Rightarrow> products_sys option" where
  "serve_first err S =
     (case products_handle (Server_exec 0 err) S of
        None \<Rightarrow> None
      | Some S1 \<Rightarrow> products_handle (Deliver 0) S1)"

datatype fifo_event = User products_event | Serve "string option"

fun fifo_step :: "fifo_event \<Rightarrow> products_sys \<Rightarrow> products_sys option" where
  "fifo_step (User e) S = (if user_event e then products_handle e S else None)"
| "fifo_step (Serve err) S =
     (case pending S of
        [] \<Rightarrow> None
      | q # qs \<Rightarrow> if is_fetch (fst q) \<and> err \<noteq> None then None else serve_first err S)"

inductive products_fifo :: "products_db \<Rightarrow> products_sys \<Rightarrow> bool" for db0 where
  start: "products_fifo db0 (products_start db0)"
| step: "products_fifo db0 S \<Longrightarrow> fifo_step e S = Some S' \<Longrightarrow> products_fifo db0 S'"

fun fifo_run :: "fifo_event list \<Rightarrow> products_sys \<Rightarrow> products_sys option" where
  "fifo_run [] S = Some S"
| "fifo_run (e # es) S = (case fifo_step e S of None \<Rightarrow> None | Some S' \<Rightarrow> fifo_run es S')"

text \<open>Serving the requests in flight, oldest first and without errors, with \<open>n\<close> steps
  of fuel; \<open>None\<close> when the fuel runs out first.\<close>

fun products_drain :: "nat \<Rightarrow> products_sys \<Rightarrow> products_sys option" where
  "products_drain 0 S = (if pending S = [] then Some S else None)"
| "products_drain (Suc n) S =
     (if pending S = [] then Some S
      else case serve_first None S of None \<Rightarrow> None | Some S' \<Rightarrow> products_drain n S')"

section \<open>Invariant and measure\<close>

text \<open>The table lists the database as a products query would now return it.\<close>

definition table_fresh :: "products_sys \<Rightarrow> bool" where
  "table_fresh S = (pp_products (page S) = map (list_product (server S)) (db_products (server S)))"

text \<open>Under in-order service no request in flight has an answer yet; the table is
  fresh unless a fetch is on its way; the page is loading only while a fetch is.\<close>

definition fifo_inv :: "products_sys \<Rightarrow> bool" where
  "fifo_inv S =
     (list_all (\<lambda>x. snd x = None) (pending S) \<and> (table_fresh S \<or> fetch_in_flight S) \<and>
      (pp_loading (page S) \<longrightarrow> fetch_in_flight S))"

text \<open>The work left: a write still causes a brands and a products query, a brands
  query still causes a products query.\<close>

fun req_weight :: "request \<Rightarrow> nat" where
  "req_weight Get_products = 1"
| "req_weight Get_brands = 2"
| "req_weight (Insert_product row fd) = 3"
| "req_weight (Delete_product i) = 3"

definition pending_weight :: "products_sys \<Rightarrow> nat" where
  "pending_weight S = sum_list (map (\<lambda>x. req_weight (fst x)) (pending S))"

section \<open>Lemmas\<close>

lemma serve_first_Cons:
  "pending S = (r, None) # qs \<Longrightarrow>
     serve_first err S =
       (case server_exec r err (server S) of
          (rep, db) \<Rightarrow> deliver r rep (S\<lparr>server := db, pending := qs\<rparr>))"
  by (simp add: serve_first_def remove_at_def split: prod.split)

lemma user_event_step:
  assumes "user_event e" and "products_handle e S = Some S'"
  shows "server S' = server S \<and> pp_products (page S') = pp_products (page S) \<and>
    pp_loading (page S') = pp_loading (page S) \<and>
    (\<exists>new. pending S' = pending S @ new \<and> list_all (\<lambda>x. snd x = None) new)"
  using assms by (cases e) (auto simp: update_form_def Let_def split: if_splits)

lemma fetch_in_flight_append:
  "pending S' = pending S @ new \<Longrightarrow> fetch_in_flight S \<Longrightarrow> fetch_in_flight S'"
  by (auto simp: fetch_in_flight_def)

lemma fetch_in_flight_Cons:
  "pending S = (r, None) # qs \<Longrightarrow> \<not> is_fetch r \<Longrightarrow> pending S' = qs \<Longrightarrow> fetch_in_flight S \<Longrightarrow>
     fetch_in_flight S'"
  by (cases r) (auto simp: fetch_in_flight_def)

lemma fifo_inv_user:
  assumes "fifo_inv S" and "user_event e" and "products_handle e S = Some S'"
  shows "fifo_inv S'"
proof -
  obtain new where eq: "server S' = server S" "pp_products (page S') = pp_products (page S)"
    "pp_loading (page S') = pp_loading (page S)" and p: "pending S' = pending S @ new"
    and new: "list_all (\<lambda>x. snd x = None) new"
    using user_event_step [OF assms(2,3)] by blast
  from assms(1) show ?thesis
    using fetch_in_flight_append [OF p] eq p new by (auto simp: fifo_inv_def table_fresh_def)
qed

lemma fifo_inv_serve:
  assumes "fifo_inv S" and "pending S = q # qs" and "is_fetch (fst q) \<longrightarrow> err = None"
    and "serve_first err S = Some S'"
  shows "fifo_inv S'"
proof -
  obtain r where p: "pending S = (r, None) # qs"
    using assms(1,2) by (cases q) (simp add: fifo_inv_def)
  have qs: "list_all (\<lambda>x. snd x = None) qs" using assms(1) p by (simp add: fifo_inv_def)
  have served: "(case server_exec r err (server S) of
                   (rep, db) \<Rightarrow> deliver r rep (S\<lparr>server := db, pending := qs\<rparr>)) = Some S'"
    using serve_first_Cons [OF p, of err] assms(4) by simp
  show ?thesis
  proof (cases "is_fetch r")
    case True
    have "q = (r, None)" using assms(2) p by simp
    with assms(3) True have "err = None" by simp
    with True served qs show ?thesis
      by (cases r) (auto simp: fifo_inv_def table_fresh_def fetch_in_flight_def)
  next
    case False
    with served qs assms(1) p show ?thesis
      by (cases r; cases err)
         (auto simp: fifo_inv_def table_fresh_def fetch_in_flight_def fetch_data_def update_form_def Let_def)
  qed
qed

lemma fifo_run_fifo:
  "products_fifo db0 S \<Longrightarrow> fifo_run es S = Some S' \<Longrightarrow> products_fifo db0 S'"
proof (induction es arbitrary: S)
  case Nil
  then show ?case by simp
next
  case (Cons e es)
  then show ?case by (auto split: option.splits intro: products_fifo.step)
qed

lemma fifo_inv_step:
  "fifo_inv S \<Longrightarrow> fifo_step e S = Some S' \<Longrightarrow> fifo_inv S'"
proof (cases e)
  case (User u)
  then show "fifo_inv S \<Longrightarrow> fifo_step e S = Some S' \<Longrightarrow> fifo_inv S'"
    by (auto intro: fifo_inv_user split: if_splits)
next
  case (Serve err)
  then show "fifo_inv S \<Longrightarrow> fifo_step e S = Some S' \<Longrightarrow> fifo_inv S'"
    by (auto intro: fifo_inv_serve split: list.splits if_splits)
qed

lemma products_fifo_inv: "products_fifo db0 S \<Longrightarrow> fifo_inv S"
proof (induction rule: products_fifo.induct)
  case start
  then show ?case
    by (simp add: fifo_inv_def products_start_def fetch_data_def fetch_in_flight_def)
next
  case (step S e S')
  show ?case by (rule fifo_inv_step [OF step.IH step.hyps(2)])
qed

text \<open>In-order service is one of the schedules of \<open>products_reachable\<close>.\<close>

lemma products_fifo_reachable: "products_fifo db0 S \<Longrightarrow> products_reachable db0 S"
proof (induction rule: products_fifo.induct)
  case start
  then show ?case by (rule products_reachable.start)
next
  case (step S e S')
  show ?case
  proof (cases e)
    case (User u)
    with step show ?thesis by (auto intro: products_reachable.step split: if_splits)
  next
    case (Serve err)
    with step.hyps(2) have "serve_first err S = Some S'" by (auto split: list.splits if_splits)
    then obtain S1 where "products_handle (Server_exec 0 err) S = Some S1"
      and "products_handle (Deliver 0) S1 = Some S'"
      unfolding serve_first_def by (auto split: option.splits simp del: products_handle.simps)
    with step.IH show ?thesis by (blast intro: products_reachable.step)
  qed
qed

lemma req_weight_pos [simp]: "req_weight r \<noteq> 0"
  by (cases r) simp_all

lemma serve_first_weight:
  assumes "fifo_inv S" and "pending S \<noteq> []"
  shows "\<exists>S'. serve_first None S = Some S' \<and> Suc (pending_weight S') = pending_weight S"
proof -
  obtain r qs where p: "pending S = (r, None) # qs"
    using assms by (cases "pending S") (auto simp: fifo_inv_def)
  show ?thesis
    by (cases r) (simp_all add: serve_first_Cons [OF p] pending_weight_def p fetch_data_def
        update_form_def Let_def)
qed

lemma products_drain_total:
  "fifo_inv S \<Longrightarrow> pending_weight S \<le> n \<Longrightarrow>
     \<exists>S'. products_drain n S = Some S' \<and> pending S' = [] \<and> fifo_inv S'"
proof (induction n arbitrary: S)
  case 0
  then have "pending S = []"
    by (cases "pending S") (auto simp: pending_weight_def)
  with 0 show ?case by simp
next
  case (Suc n)
  show ?case
  proof (cases "pending S = []")
    case True
    with Suc.prems show ?thesis by simp
  next
    case False
    then obtain S1 where s: "serve_first None S = Some S1"
      and w: "Suc (pending_weight S1) = pending_weight S"
      using serve_first_weight [OF Suc.prems(1)] by blast
    obtain q qs where p: "pending S = q # qs" using False by (cases "pending S") auto
    have "fifo_inv S1" by (rule fifo_inv_serve [OF Suc.prems(1) p _ s]) simp
    moreover have "pending_weight S1 \<le> n" using w Suc.prems(2) by simp
    ultimately show ?thesis using Suc.IH False s by simp
  qed
qed

lemma fifo_inv_quiet:
  "fifo_inv S \<Longrightarrow> pending S = [] \<Longrightarrow> table_fresh S \<and> \<not> pp_loading (page S)"
  by (simp add: fifo_inv_def fetch_in_flight_def)

text \<open>
  C8. Served in order, with writes that may fail and fetches that do not, the product
  table converges: from every state, serving the requests in flight ends (with fuel
  the weight of the requests in flight), and then the page is not loading and lists
  exactly the products of the database, with their brands.
\<close>

theorem products_fifo_converges:
  assumes "products_fifo db0 S"
  shows "\<exists>n S'. products_drain n S = Some S' \<and> pending S' = [] \<and> \<not> pp_loading (page S') \<and>
           pp_products (page S') = map (list_product (server S')) (db_products (server S'))"
proof -
  obtain S' where "products_drain (pending_weight S) S = Some S'" and "pending S' = []"
    and "fifo_inv S'"
    using products_drain_total [OF products_fifo_inv [OF assms] order_refl] by blast
  then show ?thesis using fifo_inv_quiet [of S'] by (auto simp: table_fresh_def)
qed

lemmas fifo_eval = products_eval serve_first_def

theorem products_fifo_converges_witness:
  "\<exists>S. fifo_run [Serve None, Serve None, User (Brand_selected ''b1''), User (Make_typed ''Honda''),
        User (Model_typed ''City''), User (Variant_typed ''Standard''), User Submit]
        (products_start db_kyb) = Some S \<and> pp_submitting (page S) \<and>
     (\<exists>n S'. products_drain n S = Some S' \<and> pending S' = [] \<and> \<not> pp_loading (page S') \<and>
        pp_products (page S') = map (list_product (server S')) (db_products (server S')))"
proof -
  obtain S where run: "fifo_run [Serve None, Serve None, User (Brand_selected ''b1''), User (Make_typed ''Honda''),
        User (Model_typed ''City''), User (Variant_typed ''Standard''), User Submit]
        (products_start db_kyb) = Some S" and sub: "pp_submitting (page S)"
    by (simp add: fifo_eval)
  have "products_fifo db_kyb S"
    by (rule fifo_run_fifo [OF products_fifo.start run])
  with products_fifo_converges [of db_kyb S] run sub show ?thesis by blast
qed

end
