(* ===== verification/Admin_Prices.thy ===== *)
theory Admin_Prices
  imports Samples
begin

text \<open>
  The price editor of \<open>src/app/admin/prices/page.js\<close>. As for the products page, every
  \<open>await\<close> is a request in flight that the database executes and the page receives in
  any order. The database holds the products, one price row per product (the upsert's
  \<open>onConflict: 'product_id'\<close> needs that key to be unique), the history and the
  session; \<open>db_upserts\<close> records each upsert with the row it replaced, so that the
  history can be compared with what really happened.
\<close>

section \<open>Data\<close>

text \<open>A row of \<open>select(`*, brands (name), prices (*)`)\<close>.\<close>

record price_product =
  pr_id :: nat
  pr_item :: product

text \<open>\<open>getPriceObj\<close>: a \<open>null\<close> embedding, an empty array, the first row of an
  array, or the embedded object.\<close>

fun get_price_obj :: "embedded_prices \<Rightarrow> price option" where
  "get_price_obj PNull = None"
| "get_price_obj (PArray []) = None"
| "get_price_obj (PArray (x # xs)) = Some x"
| "get_price_obj (PObj pr) = Some pr"

text \<open>\<open>getPriceObj(p) || {}\<close>: the empty object reads \<open>undefined\<close> for every tier.\<close>

definition empty_price :: price where
  "empty_price =
     \<lparr>price_distributor = None, price_agent = None, price_workshop = None, price_retail = None,
      price_online = None\<rparr>"

definition price_or_empty :: "price option \<Rightarrow> price" where
  "price_or_empty c = (case c of None \<Rightarrow> empty_price | Some pr \<Rightarrow> pr)"

text \<open>\<open>v || 0\<close> for an amount.\<close>

definition or_zero :: "rat option \<Rightarrow> rat" where
  "or_zero v = (case v of None \<Rightarrow> 0 | Some x \<Rightarrow> x)"

text \<open>The \<open>prices\<close> state: the value of each number input, \<open>None\<close> when the input is
  empty. \<open>openEditModal\<close> stores numbers and \<open>onChange\<close> stores the input's string,
  which a number input keeps either empty or the notation of a number.\<close>

record price_form =
  f_distributor :: "rat option"
  f_agent :: "rat option"
  f_workshop :: "rat option"
  f_retail :: "rat option"
  f_online :: "rat option"

definition price_form_init :: price_form where
  "price_form_init =
     \<lparr>f_distributor = Some 0, f_agent = Some 0, f_workshop = Some 0, f_retail = Some 0,
      f_online = Some 0\<rparr>"

fun form_field :: "price_form \<Rightarrow> tier_key \<Rightarrow> rat option" where
  "form_field f Price_distributor = f_distributor f"
| "form_field f Price_agent = f_agent f"
| "form_field f Price_workshop = f_workshop f"
| "form_field f Price_retail = f_retail f"
| "form_field f Price_online = f_online f"

fun set_form_field :: "tier_key \<Rightarrow> rat option \<Rightarrow> price_form \<Rightarrow> price_form" where
  "set_form_field Price_distributor v f = f\<lparr>f_distributor := v\<rparr>"
| "set_form_field Price_agent v f = f\<lparr>f_agent := v\<rparr>"
| "set_form_field Price_workshop v f = f\<lparr>f_workshop := v\<rparr>"
| "set_form_field Price_retail v f = f\<lparr>f_retail := v\<rparr>"
| "set_form_field Price_online v f = f\<lparr>f_online := v\<rparr>"

definition all_tiers :: "tier_key list" where
  "all_tiers = [Price_distributor, Price_agent, Price_workshop, Price_retail, Price_online]"

text \<open>\<open>openEditModal\<close>: each input shows \<open>currentPriceObj.price_x || 0\<close>.\<close>

definition edit_form :: "price option \<Rightarrow> price_form" where
  "edit_form c =
     (let cur = price_or_empty c
      in \<lparr>f_distributor = Some (or_zero (price_distributor cur)),
          f_agent = Some (or_zero (price_agent cur)),
          f_workshop = Some (or_zero (price_workshop cur)),
          f_retail = Some (or_zero (price_retail cur)),
          f_online = Some (or_zero (price_online cur))\<rparr>)"

text \<open>The browser's check of the form: \<open>step="0.01"\<close> on every input and
  \<open>required\<close> on the retail input.\<close>

definition step_ok :: "rat option \<Rightarrow> bool" where
  "step_ok v = (case v of None \<Rightarrow> True | Some x \<Rightarrow> snd (quotient_of (x * 100)) = 1)"

definition price_form_valid :: "price_form \<Rightarrow> bool" where
  "price_form_valid f = (f_retail f \<noteq> None \<and> list_all (\<lambda>t. step_ok (form_field f t)) all_tiers)"

record prices_page =
  pg_products :: "price_product list"
  pg_loading :: bool
  isEditing :: bool
  currentProduct :: "price_product option"
  saving :: bool
  pg_form :: price_form

definition prices_page_init :: prices_page where
  "prices_page_init =
     \<lparr>pg_products = [], pg_loading = True, isEditing = False, currentProduct = None,
      saving = False, pg_form = price_form_init\<rparr>"

section \<open>Requests and the database\<close>

record history_entry =
  h_product :: nat
  changed_by :: "string option"
  old_prices :: price
  new_prices :: price

text \<open>The awaited calls: the products query, the upsert (with the product id, the
  body and the \<open>oldPrices\<close> of \<open>handleSave\<close>), \<open>getSession\<close>, the history insert.\<close>

datatype price_request =
    Get_price_products
  | Upsert_price nat price_form price
  | Get_session nat price price
  | Insert_history history_entry

datatype price_reply =
    Price_products_reply "price_product list option"
  | Upsert_reply "string + price"
  | Session_reply "string option"
  | History_reply "string option"

record prices_db =
  db_items :: "(nat \<times> product) list"
  db_prices :: "nat \<Rightarrow> price option"
  db_history :: "history_entry list"
  db_session :: "string option"
  one_to_one :: bool
  db_upserts :: "(nat \<times> price option \<times> price) list"

text \<open>How PostgREST embeds the price row: an object or \<open>null\<close> for a one-to-one
  relationship, an array otherwise.\<close>

definition embed_prices :: "bool \<Rightarrow> price option \<Rightarrow> embedded_prices" where
  "embed_prices one c =
     (if one then (case c of None \<Rightarrow> PNull | Some pr \<Rightarrow> PObj pr)
      else PArray (case c of None \<Rightarrow> [] | Some pr \<Rightarrow> [pr]))"

definition read_products :: "prices_db \<Rightarrow> price_product list" where
  "read_products db =
     map (\<lambda>(i, it). \<lparr>pr_id = i, pr_item = it\<lparr>prices := embed_prices (one_to_one db) (db_prices db i)\<rparr>\<rparr>)
       (db_items db)"

text \<open>The row an upsert writes; an empty input is the string \<open>''\<close>, which the
  database refuses as a \<open>numeric\<close>.\<close>

definition numeric_error :: string where
  "numeric_error = ''invalid input syntax for type numeric: \"\"''"

definition form_row :: "price_form \<Rightarrow> price option" where
  "form_row f =
     (if list_all (\<lambda>t. form_field f t \<noteq> None) all_tiers
      then Some \<lparr>price_distributor = f_distributor f, price_agent = f_agent f,
                 price_workshop = f_workshop f, price_retail = f_retail f, price_online = f_online f\<rparr>
      else None)"

fun prices_exec :: "price_request \<Rightarrow> string option \<Rightarrow> prices_db \<Rightarrow> price_reply \<times> prices_db" where
  "prices_exec Get_price_products err db =
     (Price_products_reply (if err = None then Some (read_products db) else None), db)"
| "prices_exec (Upsert_price pid body old) err db =
     (case err of
        Some msg \<Rightarrow> (Upsert_reply (Inl msg), db)
      | None \<Rightarrow>
          (case form_row body of
             None \<Rightarrow> (Upsert_reply (Inl numeric_error), db)
           | Some row \<Rightarrow>
               (Upsert_reply (Inr row),
                db\<lparr>db_prices := (db_prices db)(pid := Some row),
                   db_upserts := db_upserts db @ [(pid, db_prices db pid, row)]\<rparr>)))"
| "prices_exec (Get_session pid old row) err db = (Session_reply (db_session db), db)"
| "prices_exec (Insert_history h) err db =
     (case err of
        Some msg \<Rightarrow> (History_reply (Some msg), db)
      | None \<Rightarrow> (History_reply None, db\<lparr>db_history := db_history db @ [h]\<rparr>))"

section \<open>The page as a state machine\<close>

record prices_sys =
  ppage :: prices_page
  ppending :: "(price_request \<times> price_reply option) list"
  pserver :: prices_db
  palerts :: "string list"

text \<open>\<open>fetchProducts\<close> up to its \<open>await\<close>.\<close>

definition fetch_products :: "prices_sys \<Rightarrow> prices_sys" where
  "fetch_products S =
     S\<lparr>ppage := (ppage S)\<lparr>pg_loading := True\<rparr>, ppending := ppending S @ [(Get_price_products, None)]\<rparr>"

definition update_ppage :: "(prices_page \<Rightarrow> prices_page) \<Rightarrow> prices_sys \<Rightarrow> prices_sys" where
  "update_ppage f S = S\<lparr>ppage := f (ppage S)\<rparr>"

text \<open>The code after each \<open>await\<close>: the rest of \<open>fetchProducts\<close>, and the three
  continuations of \<open>handleSave\<close>; the result of the history insert is not looked at.\<close>

fun prices_deliver :: "price_request \<Rightarrow> price_reply \<Rightarrow> prices_sys \<Rightarrow> prices_sys option" where
  "prices_deliver Get_price_products (Price_products_reply d) S =
     Some (update_ppage (\<lambda>pg. (case d of None \<Rightarrow> pg | Some ps \<Rightarrow> pg\<lparr>pg_products := ps\<rparr>)\<lparr>pg_loading := False\<rparr>) S)"
| "prices_deliver (Upsert_price pid body old) (Upsert_reply r) S =
     (case r of
        Inl msg \<Rightarrow>
          Some (update_ppage (\<lambda>pg. pg\<lparr>saving := False\<rparr>)
                 (S\<lparr>palerts := palerts S @ [''Error saving prices: '' @ msg]\<rparr>))
      | Inr newPriceData \<Rightarrow>
          Some (S\<lparr>ppending := ppending S @ [(Get_session pid old newPriceData, None)]\<rparr>))"
| "prices_deliver (Get_session pid old row) (Session_reply session) S =
     Some (S\<lparr>ppending := ppending S @
             [(Insert_history \<lparr>h_product = pid, changed_by = session, old_prices = old, new_prices = row\<rparr>,
               None)]\<rparr>)"
| "prices_deliver (Insert_history h) (History_reply r) S =
     Some (fetch_products (update_ppage (\<lambda>pg. pg\<lparr>isEditing := False, saving := False\<rparr>) S))"
| "prices_deliver _ _ S = None"

datatype prices_event =
    Open_edit nat
  | Cancel_edit
  | Price_typed tier_key "rat option"
  | Confirm_prices
  | Prices_exec nat "string option"
  | Prices_deliver nat

text \<open>One event; \<open>None\<close> when it cannot happen: the Update button of row \<open>i\<close> exists
  only once the list is loaded, the modal's inputs and buttons only while it is open,
  and only a request in flight is executed or answered. A submit while \<open>saving\<close> (the
  button disabled) or of a form the browser rejects does nothing. \<open>handleSave\<close> sets
  \<open>saving\<close> before it reads \<open>currentProduct.id\<close>.\<close>

fun prices_handle :: "prices_event \<Rightarrow> prices_sys \<Rightarrow> prices_sys option" where
  "prices_handle (Open_edit i) S =
     (if pg_loading (ppage S) \<or> length (pg_products (ppage S)) \<le> i then None
      else (let p = pg_products (ppage S) ! i
            in Some (update_ppage (\<lambda>pg. pg\<lparr>currentProduct := Some p,
                       pg_form := edit_form (get_price_obj (prices (pr_item p))), isEditing := True\<rparr>) S)))"
| "prices_handle Cancel_edit S =
     (if isEditing (ppage S) then Some (update_ppage (\<lambda>pg. pg\<lparr>isEditing := False\<rparr>) S) else None)"
| "prices_handle (Price_typed t v) S =
     (if isEditing (ppage S)
      then Some (update_ppage (\<lambda>pg. pg\<lparr>pg_form := set_form_field t v (pg_form pg)\<rparr>) S) else None)"
| "prices_handle Confirm_prices S =
     (if \<not> isEditing (ppage S) then None
      else if saving (ppage S) \<or> \<not> price_form_valid (pg_form (ppage S)) then Some S
      else (let S1 = update_ppage (\<lambda>pg. pg\<lparr>saving := True\<rparr>) S
            in case currentProduct (ppage S) of
                 None \<Rightarrow> Some S1
               | Some p \<Rightarrow>
                   Some (S1\<lparr>ppending := ppending S1 @
                     [(Upsert_price (pr_id p) (pg_form (ppage S))
                        (price_or_empty (get_price_obj (prices (pr_item p)))), None)]\<rparr>)))"
| "prices_handle (Prices_exec i err) S =
     (if i < length (ppending S) \<and> snd (ppending S ! i) = None
      then (let r = fst (ppending S ! i); (rep, db) = prices_exec r err (pserver S)
            in Some (S\<lparr>ppending := (ppending S)[i := (r, Some rep)], pserver := db\<rparr>))
      else None)"
| "prices_handle (Prices_deliver i) S =
     (if i < length (ppending S)
      then (case ppending S ! i of
              (r, Some rep) \<Rightarrow> prices_deliver r rep (S\<lparr>ppending := remove_at i (ppending S)\<rparr>)
            | (r, None) \<Rightarrow> None)
      else None)"

definition prices_start :: "prices_db \<Rightarrow> prices_sys" where
  "prices_start db =
     fetch_products \<lparr>ppage = prices_page_init, ppending = [], pserver = db, palerts = []\<rparr>"

inductive prices_reachable :: "prices_db \<Rightarrow> prices_sys \<Rightarrow> bool" for db0 where
  start: "prices_reachable db0 (prices_start db0)"
| step: "prices_reachable db0 S \<Longrightarrow> prices_handle e S = Some S' \<Longrightarrow> prices_reachable db0 S'"

fun prices_run :: "prices_event list \<Rightarrow> prices_sys \<Rightarrow> prices_sys option" where
  "prices_run [] S = Some S"
| "prices_run (e # es) S =
     (case prices_handle e S of None \<Rightarrow> None | Some S' \<Rightarrow> prices_run es S')"

text \<open>Runs in which no products query fails.\<close>

definition fetch_fails :: "prices_event \<Rightarrow> prices_sys \<Rightarrow> bool" where
  "fetch_fails e S =
     (case e of
        Prices_exec i (Some m) \<Rightarrow> i < length (ppending S) \<and> fst (ppending S ! i) = Get_price_products
      | _ \<Rightarrow> False)"

inductive prices_reliable :: "prices_db \<Rightarrow> prices_sys \<Rightarrow> bool" for db0 where
  start: "prices_reliable db0 (prices_start db0)"
| step: "prices_reliable db0 S \<Longrightarrow> prices_handle e S = Some S' \<Longrightarrow> \<not> fetch_fails e S \<Longrightarrow>
         prices_reliable db0 S'"

fun prices_rrun :: "prices_event list \<Rightarrow> prices_sys \<Rightarrow> prices_sys option" where
  "prices_rrun [] S = Some S"
| "prices_rrun (e # es) S =
     (if fetch_fails e S then None
      else case prices_handle e S of None \<Rightarrow> None | Some S' \<Rightarrow> prices_rrun es S')"

text \<open>The list shows the database's price row of each product.\<close>

definition fresh_list :: "prices_db \<Rightarrow> price_product list \<Rightarrow> bool" where
  "fresh_list db ps = (\<forall>p \<in> set ps. get_price_obj (prices (pr_item p)) = db_prices db (pr_id p))"

text \<open>An upsert of \<open>row\<close> for product \<open>pid\<close> replaced the row \<open>old\<close> reads as.\<close>

definition upserted :: "prices_db \<Rightarrow> nat \<Rightarrow> price \<Rightarrow> price \<Rightarrow> bool" where
  "upserted db pid old row =
     ((pid, old, row) \<in> set (map (\<lambda>(p, o0, r). (p, price_or_empty o0, r)) (db_upserts db)))"

text \<open>What each state of the single request in flight guarantees.\<close>

fun pending_ok :: "prices_db \<Rightarrow> prices_page \<Rightarrow> (price_request \<times> price_reply option) list \<Rightarrow> bool" where
  "pending_ok db pg [] = (\<not> pg_loading pg \<and> \<not> saving pg \<and> fresh_list db (pg_products pg))"
| "pending_ok db pg [(Get_price_products, rep)] =
     (pg_loading pg \<and> \<not> saving pg \<and> \<not> isEditing pg \<and>
      (rep = None \<or> (\<exists>ps. rep = Some (Price_products_reply (Some ps)) \<and> fresh_list db ps)))"
| "pending_ok db pg [(Upsert_price pid body old, None)] =
     (saving pg \<and> \<not> pg_loading pg \<and> fresh_list db (pg_products pg) \<and> old = price_or_empty (db_prices db pid))"
| "pending_ok db pg [(Upsert_price pid body old, Some rep)] =
     (saving pg \<and> \<not> pg_loading pg \<and>
      (case rep of
         Upsert_reply (Inl m) \<Rightarrow> fresh_list db (pg_products pg)
       | Upsert_reply (Inr row) \<Rightarrow> upserted db pid old row
       | _ \<Rightarrow> False))"
| "pending_ok db pg [(Get_session pid old row, rep)] =
     (saving pg \<and> \<not> pg_loading pg \<and> upserted db pid old row \<and>
      (rep = None \<or> (\<exists>s. rep = Some (Session_reply s))))"
| "pending_ok db pg [(Insert_history h, rep)] =
     (saving pg \<and> \<not> pg_loading pg \<and> upserted db (h_product h) (old_prices h) (new_prices h) \<and>
      (rep = None \<or> (\<exists>r. rep = Some (History_reply r))))"
| "pending_ok db pg _ = False"

definition prices_inv :: "prices_db \<Rightarrow> prices_sys \<Rightarrow> bool" where
  "prices_inv db0 S =
     (pending_ok (pserver S) (ppage S) (ppending S) \<and>
      (isEditing (ppage S) \<longrightarrow> (\<exists>p. currentProduct (ppage S) = Some p \<and> p \<in> set (pg_products (ppage S)))) \<and>
      (\<exists>new. db_history (pserver S) = db_history db0 @ new \<and>
         (\<forall>h \<in> set new. upserted (pserver S) (h_product h) (old_prices h) (new_prices h))))"

text \<open>A database with the sample product at retail price 120, embedded one-to-one.\<close>

definition prices_db_city :: prices_db where
  "prices_db_city =
     \<lparr>db_items = [(1, city_kyb)], db_prices = (\<lambda>_. None)(1 := Some (retail_only 120)),
      db_history = [], db_session = Some ''admin'', one_to_one = True, db_upserts = []\<rparr>"

section \<open>The price table\<close>

text \<open>The \<open>Current Retail\<close> column: \<open>RM ${priceObj.price_retail}\<close> or
  \<open>Not Set\<close>; a row without a retail amount prints \<open>RM null\<close>.\<close>

datatype retail_label = RM "rat option" | Not_set

definition current_retail :: "price_product \<Rightarrow> retail_label" where
  "current_retail p =
     (case get_price_obj (prices (pr_item p)) of None \<Rightarrow> Not_set | Some pr \<Rightarrow> RM (price_retail pr))"

section \<open>Lemmas\<close>

fun_cases prices_deliver_SomeE: "prices_deliver r rep S = Some S'"

lemma get_price_obj_embed [simp]: "get_price_obj (embed_prices one c) = c"
  by (cases c) (simp_all add: embed_prices_def)

lemma fresh_read_products: "fresh_list db (read_products db)"
  by (auto simp: fresh_list_def read_products_def)

lemma upserted_append:
  "upserted db pid old row \<Longrightarrow> db_upserts db' = db_upserts db @ ups \<Longrightarrow> upserted db' pid old row"
  by (simp add: upserted_def)

lemma pending_ok_length: "pending_ok db pg xs \<Longrightarrow> length xs \<le> 1"
  by (induction db pg xs rule: pending_ok.induct) auto

lemma pending_ok_frame:
  "pending_ok db pg xs \<Longrightarrow> pg_loading pg' = pg_loading pg \<Longrightarrow> saving pg' = saving pg \<Longrightarrow>
     pg_products pg' = pg_products pg \<Longrightarrow> (isEditing pg' \<longrightarrow> \<not> pg_loading pg) \<Longrightarrow>
     pending_ok db pg' xs"
  by (induction db pg xs rule: pending_ok.induct) (auto split: price_reply.splits sum.splits)

lemma pending_ok_editing_idle:
  "pending_ok db pg xs \<Longrightarrow> isEditing pg \<Longrightarrow> \<not> saving pg \<Longrightarrow> xs = []"
  by (induction db pg xs rule: pending_ok.induct) auto

lemma pending_ok_editing_loading: "pending_ok db pg xs \<Longrightarrow> isEditing pg \<Longrightarrow> \<not> pg_loading pg"
  by (induction db pg xs rule: pending_ok.induct) auto

lemma prices_handle_exec:
  "prices_handle (Prices_exec i err) S = Some S' \<Longrightarrow>
     \<exists>rep db. i < length (ppending S) \<and> snd (ppending S ! i) = None \<and>
       prices_exec (fst (ppending S ! i)) err (pserver S) = (rep, db) \<and>
       S' = S\<lparr>ppending := (ppending S)[i := (fst (ppending S ! i), Some rep)], pserver := db\<rparr>"
  by (auto simp: Let_def split: if_splits prod.splits)

lemma prices_handle_deliver:
  "prices_handle (Prices_deliver i) S = Some S' \<Longrightarrow>
     \<exists>r rep. i < length (ppending S) \<and> ppending S ! i = (r, Some rep) \<and>
       prices_deliver r rep (S\<lparr>ppending := remove_at i (ppending S)\<rparr>) = Some S'"
  by (auto split: if_splits prod.splits option.splits)

lemma single_pending:
  assumes "pending_ok db pg xs" and "i < length xs"
  shows "i = 0 \<and> xs = [xs ! 0]"
proof -
  from pending_ok_length [OF assms(1)] assms(2) have "length xs = 1" by simp
  with assms(2) show ?thesis by (cases xs) auto
qed

lemma prices_inv_exec:
  assumes h: "prices_handle (Prices_exec i err) S = Some S'"
    and nf: "\<not> fetch_fails (Prices_exec i err) S" and inv: "prices_inv db0 S"
  shows "prices_inv db0 S'"
proof -
  from h obtain rep db where i: "i < length (ppending S)" and none: "snd (ppending S ! i) = None"
    and ex: "prices_exec (fst (ppending S ! i)) err (pserver S) = (rep, db)"
    and S': "S' = S\<lparr>ppending := (ppending S)[i := (fst (ppending S ! i), Some rep)], pserver := db\<rparr>"
    by (blast dest: prices_handle_exec)
  from inv have ok: "pending_ok (pserver S) (ppage S) (ppending S)" by (simp add: prices_inv_def)
  from single_pending [OF ok i] obtain r where one: "ppending S = [(r, None)]" and i0: "i = 0"
    using none by (cases "ppending S ! 0") auto
  have nf': "r = Get_price_products \<Longrightarrow> err = None"
    using nf one i0 by (auto simp: fetch_fails_def split: option.splits)
  from inv obtain new where hist: "db_history (pserver S) = db_history db0 @ new"
    and hs: "\<forall>h \<in> set new. upserted (pserver S) (h_product h) (old_prices h) (new_prices h)"
    by (auto simp: prices_inv_def)
  show ?thesis
  proof (cases r)
    case Get_price_products
    with ex nf' ok one inv show ?thesis
      by (auto simp: S' i0 prices_inv_def fresh_read_products)
  next
    case (Upsert_price pid body old)
    with ok one have old: "old = price_or_empty (db_prices (pserver S) pid)" by simp
    show ?thesis
    proof (cases "err = None \<and> form_row body \<noteq> None")
      case True
      then obtain row where row: "form_row body = Some row" and e: "err = None" by auto
      have up: "upserted db pid old row" and more: "db_upserts db = db_upserts (pserver S) @ [(pid, db_prices (pserver S) pid, row)]"
        using ex Upsert_price row e old by (auto simp: one i0 upserted_def)
      have "\<forall>h \<in> set new. upserted db (h_product h) (old_prices h) (new_prices h)"
        using hs upserted_append [OF _ more] by blast
      with ex Upsert_price row e ok one inv up hist show ?thesis
        by (auto simp: S' i0 prices_inv_def)
    next
      case False
      with ex Upsert_price have "db = pserver S" and "rep \<in> Upsert_reply ` range Inl"
        by (auto simp: one i0 split: option.splits)
      with ok one inv Upsert_price show ?thesis
        by (auto simp: S' i0 prices_inv_def)
    qed
  next
    case (Get_session pid old row)
    with ex ok one inv show ?thesis
      by (auto simp: S' i0 prices_inv_def)
  next
    case (Insert_history h)
    with ok one have up: "upserted (pserver S) (h_product h) (old_prices h) (new_prices h)" by simp
    show ?thesis
    proof (cases err)
      case None
      with ex Insert_history have db: "db = pserver S\<lparr>db_history := db_history (pserver S) @ [h]\<rparr>"
        and rep: "rep = History_reply None" by (auto simp: one i0)
      have "db_history db = db_history db0 @ (new @ [h])" using hist db by simp
      moreover have "\<forall>h' \<in> set (new @ [h]). upserted db (h_product h') (old_prices h') (new_prices h')"
        using hs up db by (auto simp: upserted_def)
      ultimately show ?thesis using ok one inv Insert_history rep db
        by (auto simp: S' i0 prices_inv_def upserted_def)
    next
      case (Some m)
      with ex Insert_history ok one inv show ?thesis
        by (auto simp: S' i0 prices_inv_def)
    qed
  qed
qed

lemma prices_inv_deliver:
  assumes h: "prices_handle (Prices_deliver i) S = Some S'" and inv: "prices_inv db0 S"
  shows "prices_inv db0 S'"
proof -
  from h obtain r rep where i: "i < length (ppending S)" and r: "ppending S ! i = (r, Some rep)"
    and d: "prices_deliver r rep (S\<lparr>ppending := remove_at i (ppending S)\<rparr>) = Some S'"
    by (blast dest: prices_handle_deliver)
  from inv have ok: "pending_ok (pserver S) (ppage S) (ppending S)" by (simp add: prices_inv_def)
  from single_pending [OF ok i] r have one: "ppending S = [(r, Some rep)]" and i0: "i = 0" by auto
  have rest: "remove_at i (ppending S) = []" by (simp add: one i0 remove_at_def)
  from d show ?thesis
    using inv ok one rest
    by (cases rule: prices_deliver_SomeE)
       (auto simp: prices_inv_def fetch_products_def update_ppage_def split: sum.splits option.splits)
qed

lemma prices_inv_confirm:
  assumes h: "prices_handle Confirm_prices S = Some S'" and inv: "prices_inv db0 S"
  shows "prices_inv db0 S'"
proof (cases "saving (ppage S) \<or> \<not> price_form_valid (pg_form (ppage S))")
  case True
  with h inv show ?thesis by (auto split: if_splits)
next
  case False
  from h have ed: "isEditing (ppage S)" by (auto split: if_splits)
  from inv have ok: "pending_ok (pserver S) (ppage S) (ppending S)" by (simp add: prices_inv_def)
  from pending_ok_editing_idle [OF ok ed] False have idle: "ppending S = []" by simp
  from inv ed obtain p where cur: "currentProduct (ppage S) = Some p" and p: "p \<in> set (pg_products (ppage S))"
    by (auto simp: prices_inv_def)
  from ok idle p have "get_price_obj (prices (pr_item p)) = db_prices (pserver S) (pr_id p)"
    by (simp add: fresh_list_def)
  with h False ed cur idle ok inv show ?thesis
    by (auto simp: prices_inv_def update_ppage_def Let_def)
qed

lemma prices_inv_step:
  assumes "prices_handle e S = Some S'" and "\<not> fetch_fails e S" and inv: "prices_inv db0 S"
  shows "prices_inv db0 S'"
  using assms
proof (cases e)
  case Confirm_prices
  with assms show ?thesis using prices_inv_confirm by blast
next
  case (Prices_exec i err)
  with assms show ?thesis using prices_inv_exec by blast
next
  case (Prices_deliver i)
  with assms show ?thesis using prices_inv_deliver by blast
next
  case (Open_edit i)
  from inv have ok: "pending_ok (pserver S) (ppage S) (ppending S)" by (simp add: prices_inv_def)
  with Open_edit assms(1) inv show ?thesis
    by (auto simp: prices_inv_def update_ppage_def Let_def split: if_splits intro: pending_ok_frame)
next
  case (Price_typed t v)
  from inv have ok: "pending_ok (pserver S) (ppage S) (ppending S)" by (simp add: prices_inv_def)
  with Price_typed assms(1) inv show ?thesis
    by (auto simp: prices_inv_def update_ppage_def split: if_splits
        intro: pending_ok_frame dest: pending_ok_editing_loading)
qed (auto simp: prices_inv_def update_ppage_def split: if_splits intro: pending_ok_frame)

lemma prices_reliable_inv: "prices_reliable db0 S \<Longrightarrow> prices_inv db0 S"
proof (induction rule: prices_reliable.induct)
  case start
  then show ?case
    by (simp add: prices_start_def fetch_products_def prices_page_init_def prices_inv_def)
next
  case (step S e S')
  then show ?case using prices_inv_step by blast
qed

lemma prices_rrun_reliable:
  "prices_reliable db0 S \<Longrightarrow> prices_rrun es S = Some S' \<Longrightarrow> prices_reliable db0 S'"
proof (induction es arbitrary: S)
  case Nil
  then show ?case by simp
next
  case (Cons e es)
  then show ?case by (auto split: if_splits option.splits intro: prices_reliable.step)
qed

lemma prices_run_reachable:
  "prices_reachable db0 S \<Longrightarrow> prices_run es S = Some S' \<Longrightarrow> prices_reachable db0 S'"
proof (induction es arbitrary: S)
  case Nil
  then show ?case by simp
next
  case (Cons e es)
  then show ?case by (auto split: option.splits intro: prices_reachable.step)
qed

lemmas prices_eval = prices_start_def fetch_products_def prices_page_init_def price_form_init_def
  update_ppage_def read_products_def embed_prices_def edit_form_def price_or_empty_def or_zero_def
  price_form_valid_def step_ok_def all_tiers_def form_row_def empty_price_def fetch_fails_def
  remove_at_def prices_db_city_def sample_defs Let_def

text \<open>
  C34. As long as no products query fails, every history entry the page writes pairs
  the row its upsert wrote with the row that upsert replaced: the edit modal only opens
  on a list read after the last save, and at most one request is in flight.
\<close>

theorem prices_history_faithful:
  assumes "prices_reliable db0 S"
    and "h \<in> set (drop (length (db_history db0)) (db_history (pserver S)))"
  shows "\<exists>replaced. (h_product h, replaced, new_prices h) \<in> set (db_upserts (pserver S)) \<and>
           old_prices h = price_or_empty replaced"
proof -
  from prices_reliable_inv [OF assms(1)] obtain new where
    hist: "db_history (pserver S) = db_history db0 @ new"
    and up: "\<forall>h \<in> set new. upserted (pserver S) (h_product h) (old_prices h) (new_prices h)"
    by (auto simp: prices_inv_def)
  from assms(2) hist have "h \<in> set new" by simp
  with up show ?thesis by (force simp: upserted_def)
qed

theorem prices_history_faithful_witness:
  "\<exists>S. prices_rrun [Prices_exec 0 None, Prices_deliver 0, Open_edit 0, Price_typed Price_retail (Some 150),
        Confirm_prices, Prices_exec 0 None, Prices_deliver 0, Prices_exec 0 None, Prices_deliver 0,
        Prices_exec 0 None] (prices_start prices_db_city) = Some S \<and>
     (\<exists>h \<in> set (drop (length (db_history prices_db_city)) (db_history (pserver S))).
        old_prices h = retail_only 120 \<and> price_retail (new_prices h) = Some 150 \<and>
        (\<exists>replaced. (h_product h, replaced, new_prices h) \<in> set (db_upserts (pserver S)) \<and>
           old_prices h = price_or_empty replaced))"
proof -
  obtain S where run: "prices_rrun [Prices_exec 0 None, Prices_deliver 0, Open_edit 0, Price_typed Price_retail (Some 150),
        Confirm_prices, Prices_exec 0 None, Prices_deliver 0, Prices_exec 0 None, Prices_deliver 0,
        Prices_exec 0 None] (prices_start prices_db_city) = Some S"
    and h: "\<exists>h \<in> set (drop (length (db_history prices_db_city)) (db_history (pserver S))).
        old_prices h = retail_only 120 \<and> price_retail (new_prices h) = Some 150"
    by (simp add: prices_eval)
  have r: "prices_reliable prices_db_city S"
    by (rule prices_rrun_reliable [OF prices_reliable.start run])
  from h obtain h where "h \<in> set (drop (length (db_history prices_db_city)) (db_history (pserver S)))"
    and "old_prices h = retail_only 120 \<and> price_retail (new_prices h) = Some 150" by blast
  with prices_history_faithful [OF r] run show ?thesis by blast
qed

text \<open>
  C35. If the products query after a save fails, the list keeps the prices from before
  the save, the next edit of the product starts from them, and its history entry
  records as old prices a row that was no longer in the database.
\<close>

theorem prices_history_stale:
  "\<exists>S. prices_reachable prices_db_city S \<and>
     (\<exists>h \<in> set (db_history (pserver S)).
        \<not> (\<exists>replaced. (h_product h, replaced, new_prices h) \<in> set (db_upserts (pserver S)) \<and>
              old_prices h = price_or_empty replaced))"
proof -
  obtain S where run: "prices_run [Prices_exec 0 None, Prices_deliver 0, Open_edit 0,
        Price_typed Price_retail (Some 150), Confirm_prices, Prices_exec 0 None, Prices_deliver 0,
        Prices_exec 0 None, Prices_deliver 0, Prices_exec 0 None, Prices_deliver 0,
        Prices_exec 0 (Some ''network error''), Prices_deliver 0, Open_edit 0,
        Price_typed Price_retail (Some 170), Confirm_prices, Prices_exec 0 None, Prices_deliver 0,
        Prices_exec 0 None, Prices_deliver 0, Prices_exec 0 None] (prices_start prices_db_city) = Some S"
    and stale: "\<exists>h \<in> set (db_history (pserver S)).
        \<not> (\<exists>replaced. (h_product h, replaced, new_prices h) \<in> set (db_upserts (pserver S)) \<and>
              old_prices h = price_or_empty replaced)"
    by (simp add: prices_eval)
  with prices_run_reachable [OF prices_reachable.start run] show ?thesis by blast
qed

text \<open>
  C36. Clearing one of the optional inputs (distributor, agent, workshop, online) sends
  the empty string, which the database refuses: the save fails with an alert and the
  prices stay as they were.
\<close>

theorem prices_blank_field_fails:
  "\<exists>S. prices_reachable prices_db_city S \<and>
     f_distributor (pg_form (ppage S)) = None \<and> isEditing (ppage S) \<and> \<not> saving (ppage S) \<and>
     palerts S = [''Error saving prices: '' @ numeric_error] \<and>
     db_prices (pserver S) = db_prices prices_db_city \<and> ppending S = []"
proof -
  obtain S where run: "prices_run [Prices_exec 0 None, Prices_deliver 0, Open_edit 0,
        Price_typed Price_distributor None, Confirm_prices, Prices_exec 0 None, Prices_deliver 0]
        (prices_start prices_db_city) = Some S"
    and fails: "f_distributor (pg_form (ppage S)) = None \<and> isEditing (ppage S) \<and> \<not> saving (ppage S) \<and>
     palerts S = [''Error saving prices: '' @ numeric_error] \<and>
     db_prices (pserver S) = db_prices prices_db_city \<and> ppending S = []"
    by (simp add: prices_eval)
  with prices_run_reachable [OF prices_reachable.start run] show ?thesis by blast
qed

end
