(* ===== verification/Admin_History.thy ===== *)
theory Admin_History
  imports Admin_Prices
begin

text \<open>
  The price history page of \<open>src/app/admin/history/page.js\<close>: one query at mount for the
  last 50 entries of \<open>price_history\<close>, newest first, joined with their product, and a
  table whose last column lists the tiers an entry changed (\<open>renderChange\<close>).
\<close>

section \<open>State and query\<close>

text \<open>A row of the history query: the entry and the joined product, \<open>null\<close> when the
  product is gone.\<close>

record history_log =
  hl_entry :: history_entry
  hl_product :: "product option"

record history_page =
  logs :: "history_log list"
  hl_loading :: bool

definition history_init :: history_page where
  "history_init = \<lparr>logs = [], hl_loading = True\<rparr>"

text \<open>The query: entries are appended in time order, so \<open>order('changed_at',
  { ascending: false }).limit(50)\<close> returns the last 50 in reverse.\<close>

definition history_query :: "history_entry list \<Rightarrow> (nat \<Rightarrow> product option) \<Rightarrow> history_log list" where
  "history_query hist products =
     take 50 (map (\<lambda>h. \<lparr>hl_entry = h, hl_product = products (h_product h)\<rparr>) (rev hist))"

text \<open>\<open>fetchHistory\<close> after its \<open>await\<close>: \<open>None\<close> is an error.\<close>

definition history_loaded :: "history_log list option \<Rightarrow> history_page \<Rightarrow> history_page" where
  "history_loaded d s =
     (case d of None \<Rightarrow> s | Some ls \<Rightarrow> s\<lparr>logs := ls\<rparr>)\<lparr>hl_loading := False\<rparr>"

section \<open>Rendering\<close>

text \<open>\<open>renderChange(label, oldVal, newVal)\<close>: nothing when both are falsy or both
  equal, otherwise the label with \<open>oldVal || 0\<close> and \<open>newVal || 0\<close>.\<close>

definition render_change :: "string \<Rightarrow> rat option \<Rightarrow> rat option \<Rightarrow> (string \<times> rat \<times> rat) option" where
  "render_change label oldVal newVal =
     (if num_falsy oldVal \<and> num_falsy newVal then None
      else if oldVal = newVal then None
      else Some (label, or_zero oldVal, or_zero newVal))"

definition history_tiers :: "(string \<times> tier_key) list" where
  "history_tiers =
     [(''Retail'', Price_retail), (''Distributor'', Price_distributor), (''Agent'', Price_agent),
      (''Workshop'', Price_workshop), (''Online'', Price_online)]"

text \<open>The \<open>Changes Made\<close> cell: the five calls in order, \<open>null\<close> rendering nothing.\<close>

definition history_changes :: "price \<Rightarrow> price \<Rightarrow> (string \<times> rat \<times> rat) list" where
  "history_changes old new =
     concat (map (\<lambda>(l, t). case render_change l (price_field old t) (price_field new t) of
                             None \<Rightarrow> [] | Some c \<Rightarrow> [c]) history_tiers)"

record history_line =
  hl_brand :: "string option"
  hl_model :: "string option"
  hl_variant :: "string option"
  hl_position :: "string option"
  hl_changes :: "(string \<times> rat \<times> rat) list"

text \<open>A table row; \<open>log.products?.x\<close> reads \<open>undefined\<close> without a product. The date
  column (\<open>formatDate\<close>, locale formatting) is not modelled.\<close>

definition render_log :: "history_log \<Rightarrow> history_line" where
  "render_log l =
     \<lparr>hl_brand = (case hl_product l of None \<Rightarrow> None | Some p \<Rightarrow> brands p),
      hl_model = map_option car_model (hl_product l),
      hl_variant = map_option product_variant (hl_product l),
      hl_position = map_option position (hl_product l),
      hl_changes = history_changes (old_prices (hl_entry l)) (new_prices (hl_entry l))\<rparr>"

datatype history_view = Loading_logs | No_history | Log_lines "history_line list"

definition render_history :: "history_page \<Rightarrow> history_view" where
  "render_history s =
     (if hl_loading s then Loading_logs
      else if logs s = [] then No_history
      else Log_lines (map render_log (logs s)))"

section \<open>Lemmas\<close>

lemma render_change_eq:
  "render_change l o1 n1 = (if or_zero o1 = or_zero n1 then None else Some (l, or_zero o1, or_zero n1))"
  by (cases o1; cases n1) (auto simp: render_change_def num_falsy_def or_zero_def)

text \<open>
  C38. The history shows, in the order Retail, Distributor, Agent, Workshop, Online,
  exactly the tiers whose amount differs between the old and the new row when a
  missing amount is read as 0, each with both amounts: the two tests of
  \<open>renderChange\<close> amount to one comparison of numbers.
\<close>

theorem history_changes_exact:
  "history_changes old new =
     [(l, or_zero (price_field old t), or_zero (price_field new t)).
        (l, t) \<leftarrow> history_tiers, or_zero (price_field old t) \<noteq> or_zero (price_field new t)]"
  by (simp add: history_changes_def history_tiers_def render_change_eq)

end
