(* ===== verification/Admin_Settings.thy ===== *)
theory Admin_Settings
  imports Homepage
begin

text \<open>
  The visibility settings page of \<open>src/app/admin/settings/page.js\<close>. It loads the
  \<open>app_settings\<close> table, lets the admin flip \<open>is_visible\<close> of each row
  (\<open>handleToggle\<close>) and upserts the whole list (\<open>handleSave\<close>). The homepage reads
  the same table into its settings map (\<open>Homepage.settings_map\<close>), which decides the
  visible tiers; the lemmas connect the two.
\<close>

section \<open>State\<close>

text \<open>A row of \<open>app_settings\<close> as \<open>select('*')\<close> returns it: the homepage's
  \<open>setting_row\<close> with its \<open>id\<close>.\<close>

record app_setting = setting_row +
  as_id :: nat

record settings_page =
  st_settings :: "app_setting list"
  st_loading :: bool
  st_saving :: bool

definition settings_page_init :: settings_page where
  "settings_page_init = \<lparr>st_settings = [], st_loading = True, st_saving = False\<rparr>"

section \<open>Handlers\<close>

text \<open>\<open>handleToggle(index)\<close>: a copy of the list whose row \<open>index\<close> has
  \<open>is_visible\<close> negated (\<open>rows\<close> is the state \<open>settings\<close>).\<close>

definition handle_toggle :: "nat \<Rightarrow> app_setting list \<Rightarrow> app_setting list" where
  "handle_toggle index rows =
     rows[index := (rows ! index)\<lparr>is_visible := \<not> is_visible (rows ! index)\<rparr>]"

text \<open>\<open>formatLabel(key)\<close>.\<close>

definition format_label :: "string \<Rightarrow> string" where
  "format_label key =
     join '' '' (map capitalize (split_on CHR ''_'' (replace_first ''show_'' [] key))) @ '' Price''"

datatype settings_request = Get_settings | Upsert_settings "app_setting list"

datatype settings_reply = Settings_reply "app_setting list option" | Save_reply "string option"

record settings_db =
  db_settings :: "app_setting list"

text \<open>\<open>upsert(rows)\<close> on the primary key \<open>id\<close>: a row replaces the row with its id,
  or is added.\<close>

definition upsert_rows :: "app_setting list \<Rightarrow> app_setting list \<Rightarrow> app_setting list" where
  "upsert_rows body rows =
     fold (\<lambda>b rs. if as_id b \<in> set (map as_id rs) then map (\<lambda>r. if as_id r = as_id b then b else r) rs
                  else rs @ [b]) body rows"

fun settings_exec :: "settings_request \<Rightarrow> string option \<Rightarrow> settings_db \<Rightarrow> settings_reply \<times> settings_db" where
  "settings_exec Get_settings err db =
     (Settings_reply (if err = None then Some (sort_key as_id (db_settings db)) else None), db)"
| "settings_exec (Upsert_settings body) err db =
     (case err of
        None \<Rightarrow> (Save_reply None, db\<lparr>db_settings := upsert_rows body (db_settings db)\<rparr>)
      | Some msg \<Rightarrow> (Save_reply (Some msg), db))"

record settings_sys =
  spage :: settings_page
  spending :: "(settings_request \<times> settings_reply option) list"
  sserver :: settings_db
  salerts :: "string list"

text \<open>\<open>fetchSettings\<close> after its \<open>await\<close>, and \<open>handleSave\<close> after the upsert.\<close>

fun settings_deliver :: "settings_request \<Rightarrow> settings_reply \<Rightarrow> settings_sys \<Rightarrow> settings_sys option" where
  "settings_deliver Get_settings (Settings_reply d) S =
     Some (S\<lparr>spage := (case d of None \<Rightarrow> spage S | Some rows \<Rightarrow> (spage S)\<lparr>st_settings := rows\<rparr>)
                       \<lparr>st_loading := False\<rparr>\<rparr>)"
| "settings_deliver (Upsert_settings body) (Save_reply err) S =
     Some (S\<lparr>salerts := salerts S @
               [case err of None \<Rightarrow> ''Settings updated successfully!''
                | Some msg \<Rightarrow> ''Error saving settings: '' @ msg],
             spage := (spage S)\<lparr>st_saving := False\<rparr>\<rparr>)"
| "settings_deliver _ _ S = None"

datatype settings_event =
    Toggle nat
  | Save_settings
  | Settings_exec nat "string option"
  | Settings_deliver nat

text \<open>The checkbox of row \<open>i\<close> exists once the list is loaded; the save button is
  always shown and disabled while \<open>saving\<close>.\<close>

fun settings_handle :: "settings_event \<Rightarrow> settings_sys \<Rightarrow> settings_sys option" where
  "settings_handle (Toggle i) S =
     (if st_loading (spage S) \<or> length (st_settings (spage S)) \<le> i then None
      else Some (S\<lparr>spage := (spage S)\<lparr>st_settings := handle_toggle i (st_settings (spage S))\<rparr>\<rparr>))"
| "settings_handle Save_settings S =
     (if st_saving (spage S) then Some S
      else Some (S\<lparr>spage := (spage S)\<lparr>st_saving := True\<rparr>,
                   spending := spending S @ [(Upsert_settings (st_settings (spage S)), None)]\<rparr>))"
| "settings_handle (Settings_exec i err) S =
     (if i < length (spending S) \<and> snd (spending S ! i) = None
      then (let r = fst (spending S ! i); (rep, db) = settings_exec r err (sserver S)
            in Some (S\<lparr>spending := (spending S)[i := (r, Some rep)], sserver := db\<rparr>))
      else None)"
| "settings_handle (Settings_deliver i) S =
     (if i < length (spending S)
      then (case spending S ! i of
              (r, Some rep) \<Rightarrow> settings_deliver r rep (S\<lparr>spending := remove_at i (spending S)\<rparr>)
            | (r, None) \<Rightarrow> None)
      else None)"

definition settings_start :: "settings_db \<Rightarrow> settings_sys" where
  "settings_start db =
     \<lparr>spage = settings_page_init, spending = [(Get_settings, None)], sserver = db, salerts = []\<rparr>"

fun settings_run :: "settings_event list \<Rightarrow> settings_sys \<Rightarrow> settings_sys option" where
  "settings_run [] S = Some S"
| "settings_run (e # es) S =
     (case settings_handle e S of None \<Rightarrow> None | Some S' \<Rightarrow> settings_run es S')"

text \<open>What the homepage reads from the table.\<close>

definition homepage_settings :: "settings_db \<Rightarrow> (string \<rightharpoonup> bool)" where
  "homepage_settings db = settings_map (Some (map setting_row.truncate (db_settings db)))"

text \<open>A settings table with two rows, stored out of \<open>id\<close> order.\<close>

definition settings_sample :: settings_db where
  "settings_sample =
     \<lparr>db_settings = [\<lparr>setting_key = ''show_retail'', is_visible = True, as_id = 2\<rparr>,
                     \<lparr>setting_key = ''show_distributor'', is_visible = False, as_id = 1\<rparr>]\<rparr>"

section \<open>The settings list\<close>

datatype settings_view = Loading_settings | Setting_lines "(string \<times> string \<times> bool) list"

definition render_settings :: "settings_page \<Rightarrow> settings_view" where
  "render_settings s =
     (if st_loading s then Loading_settings
      else Setting_lines (map (\<lambda>r. (format_label (setting_key r), setting_key r, is_visible r)) (st_settings s)))"

section \<open>Lemmas\<close>

lemma fold_upd_distinct:
  "distinct (map key rows) \<Longrightarrow>
     fold (\<lambda>r m. m(key r \<mapsto> v r)) rows m0 k =
       (case find (\<lambda>r. key r = k) rows of Some r \<Rightarrow> Some (v r) | None \<Rightarrow> m0 k)"
proof (induction rows arbitrary: m0)
  case Nil
  then show ?case by simp
next
  case (Cons r rows)
  from Cons.prems have d: "distinct (map key rows)" by simp
  note IH = Cons.IH [OF d]
  show ?case
  proof (cases "k = key r")
    case True
    with Cons.prems have "find (\<lambda>r. key r = k) rows = None" by (auto simp: find_None_iff rev_image_eqI)
    with True IH show ?thesis by simp
  next
    case False
    with IH show ?thesis by (simp split: option.splits)
  qed
qed

lemma truncate_setting_row [simp]:
  "setting_key (setting_row.truncate r) = setting_key r"
  "is_visible (setting_row.truncate r) = is_visible r"
  by (simp_all add: setting_row.truncate_def)

lemma homepage_settings_find:
  "distinct (map setting_key (db_settings db)) \<Longrightarrow>
     homepage_settings db k = map_option is_visible (find (\<lambda>r. setting_key r = k) (db_settings db))"
  by (simp add: homepage_settings_def settings_map_def fold_map comp_def fold_upd_distinct
      option.map_comp split: option.splits)

lemma upsert_rows_known:
  "distinct (map as_id body) \<Longrightarrow> set (map as_id body) \<subseteq> set (map as_id rows) \<Longrightarrow>
     upsert_rows body rows =
       map (\<lambda>r. case find (\<lambda>b. as_id b = as_id r) body of Some b \<Rightarrow> b | None \<Rightarrow> r) rows"
proof (induction body arbitrary: rows)
  case Nil
  then show ?case by (simp add: upsert_rows_def)
next
  case (Cons b body)
  let ?rows1 = "map (\<lambda>r. if as_id r = as_id b then b else r) rows"
  have ids1: "map as_id ?rows1 = map as_id rows" by simp
  from Cons.prems have b: "as_id b \<in> set (map as_id rows)" by simp
  have "upsert_rows (b # body) rows = upsert_rows body ?rows1"
    using b by (simp add: upsert_rows_def)
  also have "\<dots> = map (\<lambda>r. case find (\<lambda>b. as_id b = as_id r) body of Some b \<Rightarrow> b | None \<Rightarrow> r) ?rows1"
  proof (rule Cons.IH)
    show "distinct (map as_id body)" using Cons.prems(1) by simp
    show "set (map as_id body) \<subseteq> set (map as_id ?rows1)"
      unfolding ids1 using Cons.prems(2) by simp
  qed
  also have "\<dots> = map (\<lambda>r. case find (\<lambda>b'. as_id b' = as_id r) (b # body) of Some b \<Rightarrow> b | None \<Rightarrow> r) rows"
  proof -
    from Cons.prems(1) have nb: "find (\<lambda>b'. as_id b' = as_id b) body = None"
      by (auto simp: find_None_iff rev_image_eqI)
    show ?thesis by (auto simp: nb)
  qed
  finally show ?case .
qed

lemma tier_visible_iff:
  "t \<in> tkey ` set (get_visible_tiers m) \<longleftrightarrow> m (tier_setting t) = Some True"
proof -
  have "map tkey (get_visible_tiers m) =
      filter (\<lambda>k. m (tier_setting k) = Some True)
        [Price_distributor, Price_agent, Price_workshop, Price_retail, Price_online]"
    by (simp add: get_visible_tiers_def)
  then have "tkey ` set (get_visible_tiers m) =
      set (filter (\<lambda>k. m (tier_setting k) = Some True)
        [Price_distributor, Price_agent, Price_workshop, Price_retail, Price_online])"
    by (metis set_map)
  then show ?thesis by (cases t) simp_all
qed

lemma distinct_ids_sorted:
  "distinct (map as_id rows) \<Longrightarrow> distinct (map as_id (sort_key as_id rows))"
  by (simp add: distinct_map)

text \<open>Saving after one toggle writes back the loaded rows with that one row flipped.\<close>

lemma upsert_toggle:
  assumes ids: "distinct (map as_id rows)" and i: "i < length rows"
  defines "srt \<equiv> sort_key as_id rows"
  defines "t \<equiv> (srt ! i)\<lparr>is_visible := \<not> is_visible (srt ! i)\<rparr>"
  shows "upsert_rows (handle_toggle i srt) rows =
           map (\<lambda>r. if as_id r = as_id (srt ! i) then t else r) rows"
proof -
  have ids_s: "distinct (map as_id srt)" using ids by (simp add: srt_def distinct_ids_sorted)
  have len: "i < length srt" using i by (simp add: srt_def)
  have body_ids: "map as_id (handle_toggle i srt) = map as_id srt"
  proof -
    have e: "as_id (srt ! i) = map as_id srt ! i" using len by simp
    have "map as_id (handle_toggle i srt) = (map as_id srt)[i := as_id (srt ! i)]"
      by (simp add: handle_toggle_def map_update)
    also have "\<dots> = (map as_id srt)[i := map as_id srt ! i]" by (simp only: e)
    also have "\<dots> = map as_id srt" by (rule list_update_id)
    finally show ?thesis .
  qed
  have "upsert_rows (handle_toggle i srt) rows =
      map (\<lambda>r. case find (\<lambda>b. as_id b = as_id r) (handle_toggle i srt) of Some b \<Rightarrow> b | None \<Rightarrow> r) rows"
    using ids_s body_ids by (intro upsert_rows_known) (simp_all add: srt_def)
  also have "\<dots> = map (\<lambda>r. if as_id r = as_id (srt ! i) then t else r) rows"
  proof (rule map_cong [OF refl])
    fix r assume r: "r \<in> set rows"
    have db: "distinct (map as_id (handle_toggle i srt))" using ids_s body_ids by simp
    show "(case find (\<lambda>b. as_id b = as_id r) (handle_toggle i srt) of Some b \<Rightarrow> b | None \<Rightarrow> r) =
          (if as_id r = as_id (srt ! i) then t else r)"
    proof (cases "as_id r = as_id (srt ! i)")
      case True
      have "t \<in> set (handle_toggle i srt)" using len by (simp add: handle_toggle_def t_def set_update_memI)
      moreover have "as_id t = as_id r" using True by (simp add: t_def)
      ultimately show ?thesis using find_distinct_key [OF db, of t] True by simp
    next
      case False
      have "r \<in> set srt" using r by (simp add: srt_def)
      then have "r \<in> set (handle_toggle i srt)"
        using False by (auto simp: handle_toggle_def intro: in_set_update_other)
      with find_distinct_key [OF db] False show ?thesis by simp
    qed
  qed
  finally show ?thesis .
qed

lemma settings_save_run:
  assumes "i < length (db_settings db)"
    and "settings_run [Settings_exec 0 None, Settings_deliver 0, Toggle i, Save_settings, Settings_exec 0 None]
           (settings_start db) = Some S"
  shows "db_settings (sserver S) = upsert_rows (handle_toggle i (sort_key as_id (db_settings db))) (db_settings db)"
  using assms by (auto simp: settings_start_def settings_page_init_def remove_at_def Let_def)

lemma settings_toggle_map:
  assumes ids: "distinct (map as_id (db_settings db))" and keys: "distinct (map setting_key (db_settings db))"
    and i: "i < length (db_settings db)"
    and run: "settings_run [Settings_exec 0 None, Settings_deliver 0, Toggle i, Save_settings, Settings_exec 0 None]
           (settings_start db) = Some S"
  defines "ri \<equiv> sort_key as_id (db_settings db) ! i"
  shows "homepage_settings (sserver S) k =
           (if k = setting_key ri then Some (\<not> is_visible ri) else homepage_settings db k)"
proof -
  let ?rows = "db_settings db"
  let ?t = "ri\<lparr>is_visible := \<not> is_visible ri\<rparr>"
  let ?g = "\<lambda>r. if as_id r = as_id ri then ?t else r"
  have new: "db_settings (sserver S) = map ?g ?rows"
    using settings_save_run [OF i run] upsert_toggle [OF ids i] by (simp add: ri_def)
  have ri: "ri \<in> set ?rows"
    using nth_mem [of i "sort_key as_id ?rows"] i by (simp add: ri_def)
  have inj: "inj_on as_id (set ?rows)" using ids by (simp add: distinct_map)
  have same: "r = ri" if "as_id r = as_id ri" and "r \<in> set ?rows" for r
    using inj_onD [OF inj that(1) that(2) ri] .
  have gk: "setting_key (?g r) = setting_key r" if "r \<in> set ?rows" for r
  proof (cases "as_id r = as_id ri")
    case True
    with same [OF True that] show ?thesis by simp
  qed simp
  have gkey: "\<forall>r \<in> set ?rows. (setting_key (?g r) = k) = (setting_key r = k)"
    using gk by simp
  have "map setting_key (map ?g ?rows) = map setting_key ?rows"
    unfolding map_map comp_def using gk by (rule map_cong [OF refl])
  with keys have keys': "distinct (map setting_key (db_settings (sserver S)))"
    by (simp only: new)
  have "homepage_settings (sserver S) k =
      map_option is_visible (map_option ?g (find (\<lambda>r. setting_key r = k) ?rows))"
    using homepage_settings_find [OF keys'] find_map_same [OF gkey] by (simp add: new)
  also have "\<dots> = (if k = setting_key ri then Some (\<not> is_visible ri) else homepage_settings db k)"
  proof (cases "k = setting_key ri")
    case True
    with find_distinct_key [OF keys ri] show ?thesis by simp
  next
    case False
    show ?thesis
    proof (cases "find (\<lambda>r. setting_key r = k) ?rows")
      case None
      with False show ?thesis by (simp add: homepage_settings_find [OF keys])
    next
      case (Some r)
      from find_Some_in [OF Some] have r: "r \<in> set ?rows" and kr: "setting_key r = k" by simp_all
      have "as_id r \<noteq> as_id ri"
      proof
        assume "as_id r = as_id ri"
        with same r have "r = ri" by blast
        with kr False show False by simp
      qed
      with Some False show ?thesis by (simp add: homepage_settings_find [OF keys])
    qed
  qed
  finally show ?thesis .
qed

text \<open>
  C39. Saving a toggle reaches the homepage: after the settings page loads the table,
  the admin flips row \<open>i\<close> and the upsert succeeds, the homepage shows exactly the
  tiers it showed before, except the tier whose setting row \<open>i\<close> holds, which it
  shows exactly when that row was hidden. The table needs distinct ids (the primary
  key) and distinct keys.
\<close>

theorem settings_toggle_homepage:
  assumes "distinct (map as_id (db_settings db))" and "distinct (map setting_key (db_settings db))"
    and "i < length (db_settings db)"
    and "settings_run [Settings_exec 0 None, Settings_deliver 0, Toggle i, Save_settings, Settings_exec 0 None]
           (settings_start db) = Some S"
  shows "t \<in> set (map tkey (get_visible_tiers (homepage_settings (sserver S)))) \<longleftrightarrow>
           (if tier_setting t = setting_key (sort_key as_id (db_settings db) ! i)
            then \<not> is_visible (sort_key as_id (db_settings db) ! i)
            else t \<in> set (map tkey (get_visible_tiers (homepage_settings db))))"
  using settings_toggle_map [OF assms, of "tier_setting t"] by (simp add: tier_visible_iff)

theorem settings_toggle_homepage_witness:
  "distinct (map as_id (db_settings settings_sample)) \<and> distinct (map setting_key (db_settings settings_sample)) \<and>
   0 < length (db_settings settings_sample) \<and>
   (\<exists>S. settings_run [Settings_exec 0 None, Settings_deliver 0, Toggle 0, Save_settings, Settings_exec 0 None]
          (settings_start settings_sample) = Some S \<and>
        Price_distributor \<in> set (map tkey (get_visible_tiers (homepage_settings (sserver S)))) \<and>
        Price_distributor \<notin> set (map tkey (get_visible_tiers (homepage_settings settings_sample))))"
proof -
  have ids: "distinct (map as_id (db_settings settings_sample))"
    and keys: "distinct (map setting_key (db_settings settings_sample))"
    and len: "0 < length (db_settings settings_sample)"
    by (simp_all add: settings_sample_def)
  obtain S where run: "settings_run [Settings_exec 0 None, Settings_deliver 0, Toggle 0, Save_settings,
      Settings_exec 0 None] (settings_start settings_sample) = Some S"
    by (simp add: settings_start_def settings_page_init_def settings_sample_def remove_at_def Let_def)
  have before: "Price_distributor \<notin> set (map tkey (get_visible_tiers (homepage_settings settings_sample)))"
    by (simp add: tier_visible_iff homepage_settings_def settings_map_def settings_sample_def)
  have "sort_key as_id (db_settings settings_sample) ! 0 =
      \<lparr>setting_key = ''show_distributor'', is_visible = False, as_id = 1\<rparr>"
    by (simp add: settings_sample_def)
  with settings_toggle_homepage [OF ids keys len run, of Price_distributor]
  have "Price_distributor \<in> set (map tkey (get_visible_tiers (homepage_settings (sserver S))))" by simp
  with ids keys len run before show ?thesis by blast
qed

end
