(* ===== verification/Admin_Layout.thy ===== *)
theory Admin_Layout
  imports Prelude
begin

text \<open>
  The session guard of \<open>src/app/admin/layout.js\<close>, which wraps every admin page. At
  mount \<open>checkUser\<close> asks for the session once; without one it navigates to
  \<open>/login\<close>, with one it renders the sidebar and the page. \<open>handleLogout\<close> signs
  out, then navigates. The browser's stored session is part of the state: it ends on
  sign-out, or on its own (expiry, a sign-out in another tab).
\<close>

section \<open>State\<close>

record layout_state =
  lay_loading :: bool
  location :: string

datatype layout_request = Check_session | Sign_out

datatype layout_reply = Session_is "string option" | Signed_out

record layout_sys =
  lstate :: layout_state
  lpending :: "(layout_request \<times> layout_reply option) list"
  lsession :: "string option"

section \<open>Handlers\<close>

text \<open>\<open>getSession\<close> reads the stored session; \<open>signOut\<close> removes it.\<close>

fun layout_exec :: "layout_request \<Rightarrow> string option \<Rightarrow> layout_reply \<times> string option" where
  "layout_exec Check_session s = (Session_is s, s)"
| "layout_exec Sign_out s = (Signed_out, None)"

text \<open>\<open>checkUser\<close> after its \<open>await\<close>, and \<open>handleLogout\<close> after \<open>signOut\<close>;
  \<open>router.push\<close> sets the location.\<close>

fun layout_deliver :: "layout_request \<Rightarrow> layout_reply \<Rightarrow> layout_state \<Rightarrow> layout_state option" where
  "layout_deliver Check_session (Session_is session) st =
     Some (if session = None then st\<lparr>location := ''/login''\<rparr> else st\<lparr>lay_loading := False\<rparr>)"
| "layout_deliver Sign_out Signed_out st = Some (st\<lparr>location := ''/login''\<rparr>)"
| "layout_deliver _ _ st = None"

text \<open>What the browser shows: another page once navigated away, the loading text, or
  the admin panel with the page inside.\<close>

datatype layout_view = Left_admin | Loading_panel | Admin_panel

definition layout_view :: "layout_sys \<Rightarrow> layout_view" where
  "layout_view S =
     (if location (lstate S) \<noteq> ''/admin'' then Left_admin
      else if lay_loading (lstate S) then Loading_panel else Admin_panel)"

datatype layout_event = Logout_clicked | Layout_exec nat | Layout_deliver nat | Session_ends

text \<open>The Logout button exists only in the panel.\<close>

fun layout_handle :: "layout_event \<Rightarrow> layout_sys \<Rightarrow> layout_sys option" where
  "layout_handle Logout_clicked S =
     (if layout_view S = Admin_panel then Some (S\<lparr>lpending := lpending S @ [(Sign_out, None)]\<rparr>) else None)"
| "layout_handle (Layout_exec i) S =
     (if i < length (lpending S) \<and> snd (lpending S ! i) = None
      then (let r = fst (lpending S ! i); (rep, s) = layout_exec r (lsession S)
            in Some (S\<lparr>lpending := (lpending S)[i := (r, Some rep)], lsession := s\<rparr>))
      else None)"
| "layout_handle (Layout_deliver i) S =
     (if i < length (lpending S)
      then (case lpending S ! i of
              (r, Some rep) \<Rightarrow>
                (case layout_deliver r rep (lstate S) of
                   None \<Rightarrow> None
                 | Some st \<Rightarrow> Some (S\<lparr>lstate := st, lpending := remove_at i (lpending S)\<rparr>))
            | (r, None) \<Rightarrow> None)
      else None)"
| "layout_handle Session_ends S = Some (S\<lparr>lsession := None\<rparr>)"

text \<open>Opening an admin page with the stored session \<open>s\<close>: \<open>loading\<close> is true and
  \<open>checkUser\<close> has sent its request.\<close>

definition layout_start :: "string option \<Rightarrow> layout_sys" where
  "layout_start s =
     \<lparr>lstate = \<lparr>lay_loading = True, location = ''/admin''\<rparr>, lpending = [(Check_session, None)], lsession = s\<rparr>"

inductive layout_reachable :: "string option \<Rightarrow> layout_sys \<Rightarrow> bool" for s0 where
  start: "layout_reachable s0 (layout_start s0)"
| step: "layout_reachable s0 S \<Longrightarrow> layout_handle e S = Some S' \<Longrightarrow> layout_reachable s0 S'"

fun layout_run :: "layout_event list \<Rightarrow> layout_sys \<Rightarrow> layout_sys option" where
  "layout_run [] S = Some S"
| "layout_run (e # es) S = (case layout_handle e S of None \<Rightarrow> None | Some S' \<Rightarrow> layout_run es S')"

section \<open>Lemmas\<close>

lemma layout_run_reachable:
  "layout_reachable s0 S \<Longrightarrow> layout_run es S = Some S' \<Longrightarrow> layout_reachable s0 S'"
proof (induction es arbitrary: S)
  case Nil
  then show ?case by simp
next
  case (Cons e es)
  then show ?case by (auto split: option.splits intro: layout_reachable.step)
qed

text \<open>Without a stored session, every answer to \<open>getSession\<close> is empty and the page
  stays on its loading text until it navigates away.\<close>

lemma layout_no_session_inv:
  "layout_reachable None S \<Longrightarrow>
     lsession S = None \<and> lay_loading (lstate S) \<and>
     (\<forall>x \<in> set (lpending S). fst x = Check_session \<and> (snd x = None \<or> snd x = Some (Session_is None)))"
proof (induction rule: layout_reachable.induct)
  case start
  then show ?case by (simp add: layout_start_def)
next
  case (step S e S')
  show ?case
  proof (cases e)
    case Logout_clicked
    with step show ?thesis by (simp add: layout_view_def split: if_splits)
  next
    case (Layout_exec i)
    with step show ?thesis
      by (auto simp: Let_def split: if_splits prod.splits dest!: set_update_subset_insert [THEN subsetD])
  next
    case (Layout_deliver i)
    with step.hyps(2) obtain r rep st where i: "i < length (lpending S)"
      and r: "lpending S ! i = (r, Some rep)" and d: "layout_deliver r rep (lstate S) = Some st"
      and S': "S' = S\<lparr>lstate := st, lpending := remove_at i (lpending S)\<rparr>"
      by (auto split: if_splits prod.splits option.splits)
    from i have "lpending S ! i \<in> set (lpending S)" by simp
    with step.IH r have rr: "r = Check_session" "rep = Session_is None" by auto
    with d have "st = (lstate S)\<lparr>location := ''/login''\<rparr>" by simp
    with step.IH S' show ?thesis using set_remove_at [of i "lpending S"] by auto
  next
    case Session_ends
    with step show ?thesis by auto
  qed
qed

text \<open>
  C40. A browser without a stored session never sees the admin panel: whatever happens,
  the layout shows its loading text until \<open>checkUser\<close> navigates to the login
  page.
\<close>

theorem layout_guard:
  "layout_reachable None S \<Longrightarrow> layout_view S \<noteq> Admin_panel"
  using layout_no_session_inv by (auto simp: layout_view_def)

theorem layout_guard_witness:
  "\<exists>S. layout_run [Layout_exec 0, Session_ends, Layout_deliver 0] (layout_start None) = Some S \<and>
     layout_view S = Left_admin \<and> layout_view S \<noteq> Admin_panel"
proof -
  obtain S where run: "layout_run [Layout_exec 0, Session_ends, Layout_deliver 0] (layout_start None) = Some S"
    and v: "layout_view S = Left_admin"
    by (simp add: layout_start_def layout_view_def remove_at_def Let_def)
  with layout_guard [OF layout_run_reachable [OF layout_reachable.start run]] show ?thesis by blast
qed

text \<open>The session is checked once, at mount: after it ends the panel stays on screen.\<close>

theorem layout_panel_without_session:
  "\<exists>S. layout_reachable (Some ''admin'') S \<and> layout_view S = Admin_panel \<and> lsession S = None"
proof -
  obtain S where run: "layout_run [Layout_exec 0, Layout_deliver 0, Session_ends] (layout_start (Some ''admin'')) = Some S"
    and v: "layout_view S = Admin_panel \<and> lsession S = None"
    by (simp add: layout_start_def layout_view_def remove_at_def Let_def)
  with layout_run_reachable [OF layout_reachable.start run] show ?thesis by blast
qed

end
