(* ===== verification/Spec2Isabelle.thy ===== *)
theory Spec2Isabelle
  imports Print_View Admin_Brands Products_Service Admin_History Admin_Settings Admin_Layout
begin

text \<open>
  \<^bold>\<open>A verification model of the suspension price tracker.\<close>

  \<^bold>\<open>The program.\<close> A Next.js application (\<open>src/app\<close>) over a Supabase database.
  The public homepage (\<open>src/app/page.tsx\<close>) fetches the visibility settings and
  all products with their brand and price rows, and shows a comparison matrix:
  one row per vehicle row key, one column per (price tier, brand) pair, filtered by a
  search box and shown in two column orders (customer view: tiers outside, brands
  inside; brand view: the reverse). The admin print view
  (\<open>src/app/admin/print/page.js\<close>) shows the same pivot restricted to two tiers.
  The admin pages maintain brands, products, prices, the price history and the
  visibility settings, behind a session check in \<open>src/app/admin/layout.js\<close>.
  The core is the pivot engine, \<open>processData\<close> in both pages.

  \<^bold>\<open>Theories.\<close>
  \<^item> \<open>Prelude\<close>: the JavaScript runtime the code relies on: the \<open>TypeError\<close> of a
    property read on \<open>null\<close> (\<open>js_error\<close>), handler outcomes that keep the effects
    done before a throw (\<open>outcome\<close>), \<open>Array.prototype.filter\<close>, \<open>map\<close> and
    \<open>forEach\<close> with exceptions (\<open>js_filter\<close>, \<open>js_map\<close>, \<open>js_fold\<close>), the insertion
    order of \<open>new Set\<close> (\<open>js_set_values\<close>) and \<open>[...new Set(xs)].sort()\<close>
    (\<open>unique_sorted\<close>, proved equal to \<open>sorted_list_of_set\<close>), plain objects as
    insertion-ordered association lists (\<open>obj_set\<close>, \<open>obj_modify\<close>).
  \<^item> \<open>JS_String\<close>: \<open>toLowerCase\<close>, \<open>includes\<close> (\<open>str_includes\<close>, proved equal to
    substring containment), \<open>trim\<close>, \<open>split\<close>, \<open>join\<close>, \<open>replace\<close>, with the
    split/join round trip.
  \<^item> \<open>Catalog\<close>: the data the queries return: \<open>price\<close> rows with one optional
    amount per tier, \<open>product\<close> rows with the embedded brand name (\<open>None\<close> for a
    \<open>null\<close> join) and the embedded prices in the three shapes PostgREST can return
    (\<open>embedded_prices\<close>); JavaScript truthiness of amounts and property lookup through
    \<open>Object.prototype\<close>, the accessor \<open>__proto__\<close> included (\<open>js_get\<close>). An
    assignment to a \<open>__proto__\<close> key replaces the object's prototype; the model keeps
    the assigned value, which is what that key reads back, but not the effect on the
    other keys, so statements about absent keys exclude rows with such a brand.
  \<^item> \<open>Samples\<close>: concrete batches for the witnesses.
  \<^item> \<open>Pivot\<close>: \<open>processData\<close> without its React state updates: the two search
    predicates (\<open>home_matches\<close>, \<open>print_matches\<close>), the two string row keys
    (\<open>home_row_key\<close>, \<open>print_row_key\<close>), the group objects (\<open>pivot_row\<close>), one
    iteration of the grouping loop (\<open>group_step\<close>) and the whole pass
    (\<open>pivot_batch\<close>, instantiated as \<open>home_pivot\<close> and \<open>print_pivot\<close>).
    An abstract specification (\<open>pivot_spec\<close>: sorted brand set, one row per key in
    order of first occurrence, last write wins per brand) and the refinement lemma
    \<open>pivot_batch_refines\<close>, proved by induction over the batch from its end
    (\<open>group_step_spec\<close>), carry the properties of the specification's section 8.
  \<^item> \<open>Price_Matrix\<close>: the homepage table: \<open>getVisibleTiers\<close>
    (\<open>get_visible_tiers\<close>), \<open>renderPriceCell\<close> with its three cell states
    (\<open>render_price_cell\<close>), the two traversals of a row (\<open>customer_cells\<close>,
    \<open>brand_cells\<close>), both header rows and the loading/empty/table choice
    (\<open>render_main\<close>). Its lemmas show that the two views render the same cells
    transposed, that the headers line up with the data cells, and what a cell shows in
    terms of the last filtered product of its row and brand.
  \<^item> \<open>Homepage\<close>: \<open>PublicHomepage\<close> as a state machine. The state is the record
    of its \<open>useState\<close> hooks (\<open>home_state\<close>); \<open>fetchPublicData\<close> is split at
    its two \<open>await\<close>s into the events \<open>Settings_loaded\<close> and
    \<open>Products_loaded\<close>, between which the user may type a search or switch the
    view (\<open>home_handle\<close>); reachable states are the inductive
    \<open>home_reachable\<close>. \<open>processData\<close> (\<open>process_data\<close>) stores the brand list
    before grouping, so an exception keeps that update (\<open>outcome\<close>).
  \<^item> \<open>Print_View\<close>: the admin print sheet (\<open>src/app/admin/print/page.js\<close>): its
    state, \<open>fetchData\<close>, \<open>handleSearch\<close>, its own \<open>processData\<close> (refining
    the same specification with another filter and row key) and the printed table.
  \<^item> \<open>Admin_Products\<close>: \<open>ManageProducts\<close>
    (\<open>src/app/admin/products/page.js\<close>). Every \<open>await\<close> is a request in flight
    (\<open>request\<close>), kept in a list: the database executes any request
    (\<open>Server_exec\<close>, possibly with an error) and the page receives any executed
    answer (\<open>Deliver\<close>), which runs the code after that \<open>await\<close>
    (\<open>deliver\<close>). So overlapping runs of \<open>fetchData\<close> and a submit racing a
    fetch are all covered. The database is an environment model (\<open>server_exec\<close>),
    not code of the repository. The lemmas are invariants by rule induction over
    \<open>products_reachable\<close> (rows written are trimmed, at most one insert in flight,
    loading ends, suggestions match the list, the form's category and position agree)
    and concrete runs, evaluated by \<open>simp\<close>, that exhibit the defects below.
  \<^item> \<open>Products_Service\<close>: the products page when the database serves the requests
    in the order they were sent, each answer arriving before the next request runs
    (\<open>serve_first\<close>, \<open>fifo_step\<close>, \<open>products_fifo\<close>, a sub-schedule of
    \<open>products_reachable\<close>); writes may fail, fetches do not. The invariant
    \<open>fifo_inv\<close> (the table lists the database unless a fetch is on its way) and the
    weight of the requests in flight give convergence: serving them ends
    (\<open>products_drain\<close>) with the table equal to the database.
  \<^item> \<open>Admin_Prices\<close>: \<open>ManagePrices\<close> (\<open>src/app/admin/prices/page.js\<close>) in the
    same style: \<open>getPriceObj\<close> (\<open>get_price_obj\<close>), \<open>openEditModal\<close>
    (\<open>edit_form\<close>), the number inputs with the browser's \<open>step\<close> and
    \<open>required\<close> check (\<open>price_form_valid\<close>), and \<open>handleSave\<close> as the chain
    upsert, \<open>getSession\<close>, history insert (\<open>prices_deliver\<close>). The database
    keeps one price row per product and a log of upserts with the row each replaced
    (\<open>db_upserts\<close>). The invariant \<open>prices_inv\<close> (at most one request in flight,
    the list shows the database's prices whenever no save is half done) gives that every
    history entry records what its upsert replaced, as long as no products query fails;
    \<open>prices_reliable\<close> is the reachability relation of such runs.
  \<^item> \<open>Admin_History\<close>: the history page (\<open>src/app/admin/history/page.js\<close>):
    its query, \<open>renderChange\<close> (\<open>render_change\<close>) and the log table.
  \<^item> \<open>Admin_Settings\<close>: the settings page (\<open>src/app/admin/settings/page.js\<close>):
    \<open>handleToggle\<close> as a list update, \<open>handleSave\<close> as an upsert on \<open>id\<close>,
    \<open>formatLabel\<close>; a row is the homepage's \<open>setting_row\<close> extended with its id,
    so the homepage's reading of the same table (\<open>homepage_settings\<close>) applies.
  \<^item> \<open>Admin_Brands\<close>: the brand manager (\<open>src/app/admin/brands/page.js\<close>), with
    the lemma that every brand it adds is trimmed and not empty.
  \<^item> \<open>Admin_Layout\<close>: the session guard of \<open>src/app/admin/layout.js\<close> against the
    browser's stored session.
  \<^item> This theory: the properties that span components (the embedding of prices as
    the price editor writes them against the homepage's reading of it).

  \<^bold>\<open>Modelling choices.\<close> Strings are lists of 8-bit characters; case mapping, white
  space and sorting are those of ASCII characters (JavaScript's sort compares UTF-16
  code units, which agree with this order on ASCII). Amounts are rationals: the code
  only compares them with zero and prints them. On the homepage and the print view the
  database results are inputs of the events; on the admin pages the database is a
  small state of its own so that the effect of writes on later reads is visible.
  No loop of the modelled code can fail to terminate; every loop is a structural
  recursion over a finite list, so no fuel is needed there. The one use of fuel is the
  schedule \<open>products_drain\<close>, which serves the products page's requests in flight
  until none is left: a write weighs 3 (it causes a brands and a products query), a
  brands query 2, a products query 1, each served request lowers the total by exactly
  one, so fuel equal to the weight of the requests in flight is enough
  (\<open>products_drain_total\<close>). Every run of events is finite;
  \<open>home_run\<close> and \<open>products_run\<close> return \<open>None\<close> only for an event that
  cannot happen in the state reached.

  \<^bold>\<open>Findings.\<close> The row key is a joined string, so fields containing \<open>|\<close>
  merge rows of different vehicles (\<open>Pivot.home_row_key_collision\<close>); one product whose
  brand join is \<open>null\<close> makes the whole pass throw (\<open>Pivot.home_pivot_null_brand\<close>)
  and leaves the homepage on its loading screen for good
  (\<open>Homepage.home_null_brand_stuck\<close>); a search typed during the fetch is ignored
  (\<open>Homepage.home_search_during_fetch_lost\<close>); a brand named like an
  \<open>Object.prototype\<close> member shows N/A for missing cells
  (\<open>Price_Matrix.home_cell_prototype_brand\<close>), and a brand named \<open>__proto__\<close>
  replaces the prototype of its rows' \<open>pricesByBrand\<close> objects. The print view ignores part numbers
  and merges categories (\<open>Print_View\<close>). On the products page a saved coil spring
  leaves the form with a position its select does not offer, and the next save writes
  it (\<open>Admin_Products.products_coil_spring_front\<close>); overlapping fetches can leave
  a stale list (\<open>Admin_Products.products_stale_list\<close>); blank fields pass the
  required check and are written empty (\<open>Admin_Products.products_blank_make\<close>);
  edits typed during a save are lost (\<open>Admin_Products.products_edit_lost\<close>); a
  failed products query is only logged and never retried, so the table converges only
  when fetches succeed (\<open>Products_Service.products_fifo_converges\<close>). The
  homepage reads embedded prices only as arrays, while the upsert on \<open>product_id\<close>
  makes them objects, so no price reaches the homepage (\<open>one_to_one_prices_hidden\<close>);
  a failed reload after a save makes the next history entry wrong
  (\<open>Admin_Prices.prices_history_stale\<close>); clearing an optional price input makes
  every save fail (\<open>Admin_Prices.prices_blank_field_fails\<close>); the admin session is
  checked only at mount (\<open>Admin_Layout.layout_panel_without_session\<close>).

  \<^bold>\<open>Not modelled.\<close> The Supabase client, the database schema and the auth
  client (not in the repository; the pages' view of them is the environment models
  \<open>server_exec\<close>, \<open>prices_exec\<close>, \<open>upsert_rows\<close>, \<open>brands_exec\<close> and
  \<open>layout_exec\<close>), the root layout and the admin index page (markup only),
  \<open>window.print\<close>, dates and their formatting, CSS classes. The database is
  assumed to serve one admin client at a time.

  \<^bold>\<open>Plan.\<close> Next: the convergence of the brands and prices pages under in-order
  service, as for the products page; the brands page's behaviour on duplicate names and
  its list order; \<open>formatLabel\<close> as a function of the setting key; the homepage's
  settings fetch when \<open>app_settings\<close> holds a key twice; the print view as a state
  machine over its fetch and search.
\<close>

section \<open>Properties across components\<close>

lemma group_cells_no_amounts:
  assumes "\<forall>p \<in> set xs. first_price (prices p) = None"
  shows "group_cells key_of k xs b = None \<or> group_cells key_of k xs b = Some None"
proof (cases "group_cells key_of k xs b")
  case (Some v)
  then have "(b, v) \<in> set (rev (map (\<lambda>p. (brand_of p, first_price (prices p))) (filter (\<lambda>p. key_of p = k) xs)))"
    unfolding group_cells_def by (rule map_of_SomeD)
  with assms Some show ?thesis by auto
qed simp

lemma read_products_one_to_one:
  "one_to_one db \<Longrightarrow> \<forall>i \<in> set (map fst (db_items db)). db_prices db i \<noteq> None \<Longrightarrow>
     p \<in> set (read_products db) \<Longrightarrow> \<exists>pr. prices (pr_item p) = PObj pr"
  by (auto simp: read_products_def embed_prices_def split: option.splits)

text \<open>
  C37. The price editor writes one price row per product (its upsert needs
  \<open>product_id\<close> to be unique), and PostgREST then embeds \<open>prices\<close> as an object. The
  price editor reads that shape (\<open>getPriceObj\<close>) and shows every product's retail
  price, but the homepage reads only arrays: each of its price cells shows \<open>-\<close>
  (for a brand whose name is not an \<open>Object.prototype\<close> member, \<open>__proto__\<close>
  included). Every value the rows store is \<open>null\<close>, so a \<open>__proto__\<close> brand can
  only make the prototype \<open>null\<close>, after which every absent brand reads
  \<open>undefined\<close> too.
\<close>

theorem one_to_one_prices_hidden:
  assumes "one_to_one db" and "\<forall>i \<in> set (map fst (db_items db)). db_prices db i \<noteq> None"
    and "home_pivot q (map pr_item (read_products db)) = Inr (bs, rows)"
    and "r \<in> set rows" and "b \<notin> set object_prototype_names"
  shows "render_price_cell r b tk = Dash \<and> (\<forall>p \<in> set (read_products db). current_retail p \<noteq> Not_set)"
proof
  let ?ps = "map pr_item (read_products db)"
  have none: "\<forall>p \<in> set (filter (home_match_spec q) ?ps). first_price (prices p) = None"
    using read_products_one_to_one [OF assms(1,2)] by fastforce
  have cells: "pricesByBrand r = group_cells home_row_key (g_key r) (filter (home_match_spec q) ?ps)"
    by (rule home_pivot_row_cells(1) [OF assms(3,4)])
  from group_cells_no_amounts [OF none] cells
  have "pricesByBrand r b = None \<or> pricesByBrand r b = Some None" by simp
  then show "render_price_cell r b tk = Dash"
  proof
    assume "pricesByBrand r b = None"
    then show ?thesis using assms(5) by (rule render_price_cell_absent)
  next
    assume "pricesByBrand r b = Some None"
    then show ?thesis by (simp add: render_price_cell_def js_get_def)
  qed
next
  show "\<forall>p \<in> set (read_products db). current_retail p \<noteq> Not_set"
    using read_products_one_to_one [OF assms(1,2)] by (force simp: current_retail_def)
qed

theorem one_to_one_prices_hidden_witness:
  "one_to_one prices_db_city \<and> map fst (db_items prices_db_city) = [1] \<and>
   db_prices prices_db_city 1 = Some (retail_only 120) \<and> ''KYB'' \<notin> set object_prototype_names \<and>
   (\<exists>bs rows r. home_pivot [] (map pr_item (read_products prices_db_city)) = Inr (bs, rows) \<and>
      r \<in> set rows \<and> render_price_cell r ''KYB'' Price_retail = Dash \<and>
      map current_retail (read_products prices_db_city) = [RM (Some 120)])"
proof -
  have one: "one_to_one prices_db_city" and ids: "map fst (db_items prices_db_city) = [1]"
    and pr: "db_prices prices_db_city 1 = Some (retail_only 120)"
    and kyb: "''KYB'' \<notin> set object_prototype_names"
    by (simp_all add: prices_db_city_def object_prototype_names_def)
  have all: "\<forall>i \<in> set (map fst (db_items prices_db_city)). db_prices prices_db_city i \<noteq> None"
    using ids pr by simp
  obtain bs rows r where piv: "home_pivot [] (map pr_item (read_products prices_db_city)) = Inr (bs, rows)"
    and r: "r \<in> set rows"
    by (simp add: prices_eval pivot_eval)
  have cur: "map current_retail (read_products prices_db_city) = [RM (Some 120)]"
    by (simp add: prices_eval current_retail_def)
  from one_to_one_prices_hidden [OF one all piv r kyb, of Price_retail]
  have dash: "render_price_cell r ''KYB'' Price_retail = Dash" by simp
  show ?thesis
  proof (intro conjI exI)
    show "home_pivot [] (map pr_item (read_products prices_db_city)) = Inr (bs, rows)" by (rule piv)
  qed (use one ids pr kyb r cur dash in simp_all)
qed

end
